theory Spec2Isabelle
  imports Complex_Main "HOL-Library.Sublist"
begin

section \<open>Errors raised by the Python code\<close>

text \<open>
  Every \<^verbatim>\<open>raise\<close> that the modelled functions can reach is a value of this type;
  a function that can raise returns \<open>py_error + 'a\<close>, with \<open>Inl\<close> for the exception.
\<close>

datatype py_error =
    KeyError string
  | IndexError
  | ValueError
  | RuntimeError
  | UnboundLocalError
  | AttributeError

section \<open>Group-aware train/test split (harmonization/swin_contrastive/train.py)\<close>

text \<open>
  An element of \<^verbatim>\<open>data_list\<close> is a dictionary. The split reads
  \<^verbatim>\<open>item['info']['SeriesDescription']\<close> and writes \<^verbatim>\<open>item['group_id']\<close>,
  a key that is absent until \<^verbatim>\<open>group_data\<close> sets it; every other key of the
  dictionary is carried along unchanged in \<open>other\<close>. Every item of the model has a
  series description: an item without one makes the code raise \<^verbatim>\<open>KeyError\<close>.
\<close>

record 'a item =
  SeriesDescription :: string
  group_id :: "nat option"
  other :: 'a

datatype mode = Scanner | Repetition | OtherMode string

text \<open>
  The two library functions the split relies on are parameters of the model:
  \<^item> \<open>extract_base\<close> is the nested helper of \<^verbatim>\<open>group_data\<close>, a regular-expression
    match of the library \<^verbatim>\<open>re\<close>;
  \<^item> \<open>group_shuffle_split test_size seed groups\<close> is
    \<^verbatim>\<open>next(GroupShuffleSplit(n_splits=1, test_size=test_size, random_state=seed).split(data_list, groups=groups))\<close>
    of scikit-learn: the pair \<open>(train_idx, test_idx)\<close>, or \<open>None\<close> where
    the library raises \<^verbatim>\<open>ValueError\<close>.
\<close>

record libs =
  extract_base :: "string \<Rightarrow> string"
  group_shuffle_split :: "real \<Rightarrow> int \<Rightarrow> nat list \<Rightarrow> (nat list \<times> nat list) option"

text \<open>What the functions print, in order.\<close>

datatype printed =
    GroupsCorrespondance "(string \<times> nat) list"
  | NumberOfTrainingSamples nat
  | NumberOfTestingSamples nat
  | TrainingGroups "nat list"
  | ValidationGroups "nat list"

text \<open>
  The group key of a series description. A mode other than the two known ones leaves
  \<^verbatim>\<open>group_key\<close> unbound, and its first use raises.
\<close>

definition group_key :: "libs \<Rightarrow> mode \<Rightarrow> string \<Rightarrow> py_error + string" where
  "group_key L m series_description =
     (case m of
        Scanner \<Rightarrow> Inr (take 2 series_description)
      | Repetition \<Rightarrow> Inr (extract_base L series_description)
      | OtherMode _ \<Rightarrow> Inl UnboundLocalError)"

text \<open>
  The loop of \<^verbatim>\<open>group_data\<close>. \<open>group_map\<close> is the dictionary from group key to
  group number, kept in insertion order; a new key gets the number \<^verbatim>\<open>len(group_map)\<close>.
  The loop returns the final \<open>group_map\<close>, the items with \<^verbatim>\<open>group_id\<close> set, and
  the list \<^verbatim>\<open>group_ids\<close>.
\<close>

fun group_data_loop ::
  "libs \<Rightarrow> mode \<Rightarrow> 'a item list \<Rightarrow> (string \<times> nat) list
     \<Rightarrow> py_error + ((string \<times> nat) list \<times> 'a item list \<times> nat list)" where
  "group_data_loop L m [] group_map = Inr (group_map, [], [])"
| "group_data_loop L m (it # rest) group_map =
     (case group_key L m (SeriesDescription it) of
        Inl e \<Rightarrow> Inl e
      | Inr key \<Rightarrow>
          (let group_map' = (if map_of group_map key = None
                             then group_map @ [(key, length group_map)] else group_map)
           in case map_of group_map' key of
                None \<Rightarrow> Inl (KeyError key)
              | Some g \<Rightarrow>
                  (case group_data_loop L m rest group_map' of
                     Inl e \<Rightarrow> Inl e
                   | Inr (gm, items, group_ids) \<Rightarrow>
                       Inr (gm, it\<lparr>group_id := Some g\<rparr> # items, g # group_ids))))"

text \<open>
  \<^verbatim>\<open>group_data(data_list, mode)\<close>: the array of group numbers, the list as the
  caller sees it afterwards (the items are mutated in place), and the printed line.
\<close>

definition group_data ::
  "libs \<Rightarrow> 'a item list \<Rightarrow> mode \<Rightarrow> py_error + (nat list \<times> 'a item list \<times> printed list)" where
  "group_data L data_list m =
     (case group_data_loop L m data_list [] of
        Inl e \<Rightarrow> Inl e
      | Inr (gm, items, group_ids) \<Rightarrow> Inr (group_ids, items, [GroupsCorrespondance gm]))"

text \<open>
  The float literal \<^verbatim>\<open>0.00000001\<close> below which no test set is split off.
\<close>

definition test_size_threshold :: real where
  "test_size_threshold = 1 / 100000000"

text \<open>\<^verbatim>\<open>[data_list[i] for i in idx]\<close>: an index outside the list raises.\<close>

fun select_items :: "'b list \<Rightarrow> nat list \<Rightarrow> py_error + 'b list" where
  "select_items xs [] = Inr []"
| "select_items xs (i # idx) =
     (if i < length xs
      then (case select_items xs idx of Inl e \<Rightarrow> Inl e | Inr ys \<Rightarrow> Inr (xs ! i # ys))
      else Inl IndexError)"

text \<open>\<^verbatim>\<open>np.unique\<close>: the distinct values, in ascending order.\<close>

definition np_unique :: "'b::linorder list \<Rightarrow> 'b list" where
  "np_unique xs = sort (remdups xs)"

text \<open>
  \<^verbatim>\<open>create_datasets(data_list, test_size, seed)\<close>. The result is the returned pair
  \<open>(train_data, test_data)\<close>, then the caller's \<^verbatim>\<open>data_list\<close> after the call,
  then what was printed.
\<close>

definition create_datasets ::
  "libs \<Rightarrow> 'a item list \<Rightarrow> real \<Rightarrow> int
     \<Rightarrow> py_error + (('a item list \<times> 'a item list) \<times> 'a item list \<times> printed list)" where
  "create_datasets L data_list test_size seed =
     (if test_size \<le> test_size_threshold then Inr ((data_list, []), data_list, [])
      else
        (case group_data L data_list Scanner of
           Inl e \<Rightarrow> Inl e
         | Inr (groups, data_list', out) \<Rightarrow>
             (case group_shuffle_split L test_size seed groups of
                None \<Rightarrow> Inl ValueError
              | Some (train_idx, test_idx) \<Rightarrow>
                  (case select_items data_list' train_idx of
                     Inl e \<Rightarrow> Inl e
                   | Inr train_data \<Rightarrow>
                       (case select_items data_list' test_idx of
                          Inl e \<Rightarrow> Inl e
                        | Inr test_data \<Rightarrow>
                            (case select_items groups train_idx of
                               Inl e \<Rightarrow> Inl e
                             | Inr train_groups \<Rightarrow>
                                 (case select_items groups test_idx of
                                    Inl e \<Rightarrow> Inl e
                                  | Inr val_groups \<Rightarrow>
                                      Inr ((train_data, test_data), data_list',
                                           out @ [NumberOfTrainingSamples (length train_data),
                                                  NumberOfTestingSamples (length test_data),
                                                  TrainingGroups (np_unique train_groups),
                                                  ValidationGroups (np_unique val_groups)]))))))))"

section \<open>The earlier split (swin_contrastive/train.py)\<close>

text \<open>
  The first version of the script has the same \<^verbatim>\<open>group_data\<close> loop, but returns the
  annotated list, and \<^verbatim>\<open>create_datasets\<close> reads the group numbers back from the
  items; it has no threshold on \<^verbatim>\<open>test_size\<close> and prints nothing.
\<close>

fun swin_group_data_loop ::
  "libs \<Rightarrow> mode \<Rightarrow> 'a item list \<Rightarrow> (string \<times> nat) list \<Rightarrow> py_error + 'a item list" where
  "swin_group_data_loop L m [] group_map = Inr []"
| "swin_group_data_loop L m (it # rest) group_map =
     (case group_key L m (SeriesDescription it) of
        Inl e \<Rightarrow> Inl e
      | Inr key \<Rightarrow>
          (let group_map' = (if map_of group_map key = None
                             then group_map @ [(key, length group_map)] else group_map)
           in case map_of group_map' key of
                None \<Rightarrow> Inl (KeyError key)
              | Some g \<Rightarrow>
                  (case swin_group_data_loop L m rest group_map' of
                     Inl e \<Rightarrow> Inl e
                   | Inr items \<Rightarrow> Inr (it\<lparr>group_id := Some g\<rparr> # items))))"

definition swin_group_data :: "libs \<Rightarrow> 'a item list \<Rightarrow> mode \<Rightarrow> py_error + 'a item list" where
  "swin_group_data L data_list m = swin_group_data_loop L m data_list []"

text \<open>\<^verbatim>\<open>[item['group_id'] for item in data_list]\<close>: an item without the key raises.\<close>

fun group_ids_of :: "'a item list \<Rightarrow> py_error + nat list" where
  "group_ids_of [] = Inr []"
| "group_ids_of (it # rest) =
     (case group_id it of
        None \<Rightarrow> Inl (KeyError ''group_id'')
      | Some g \<Rightarrow> (case group_ids_of rest of Inl e \<Rightarrow> Inl e | Inr gs \<Rightarrow> Inr (g # gs)))"

text \<open>
  The returned pair \<open>(train_data, test_data)\<close> and the caller's list after the call.
\<close>

definition swin_create_datasets ::
  "libs \<Rightarrow> 'a item list \<Rightarrow> real \<Rightarrow> int
     \<Rightarrow> py_error + (('a item list \<times> 'a item list) \<times> 'a item list)" where
  "swin_create_datasets L data_list test_size seed =
     (case swin_group_data L data_list Scanner of
        Inl e \<Rightarrow> Inl e
      | Inr data_list' \<Rightarrow>
          (case group_ids_of data_list' of
             Inl e \<Rightarrow> Inl e
           | Inr groups \<Rightarrow>
               (case group_shuffle_split L test_size seed groups of
                  None \<Rightarrow> Inl ValueError
                | Some (train_idx, test_idx) \<Rightarrow>
                    (case select_items data_list' train_idx of
                       Inl e \<Rightarrow> Inl e
                     | Inr train_data \<Rightarrow>
                         (case select_items data_list' test_idx of
                            Inl e \<Rightarrow> Inl e
                          | Inr test_data \<Rightarrow> Inr ((train_data, test_data), data_list'))))))"

text \<open>
  The acquisition group of an item in \<^verbatim>\<open>'scanner'\<close> mode: the first two characters
  of its series description.
\<close>

definition scanner_key :: "'a item \<Rightarrow> string" where
  "scanner_key it = take 2 (SeriesDescription it)"

text \<open>
  A pair \<open>(train, test)\<close> is a group-aware split of \<open>items\<close> when every item is on
  one of the two sides and no acquisition group has a member on both.
\<close>

definition group_aware_split :: "'a item list \<Rightarrow> 'a item list \<Rightarrow> 'a item list \<Rightarrow> bool" where
  "group_aware_split items train test \<longleftrightarrow>
     set train \<union> set test = set items \<and>
     (\<forall>x \<in> set train. \<forall>y \<in> set test. scanner_key x \<noteq> scanner_key y)"

text \<open>
  What scikit-learn documents of \<^verbatim>\<open>GroupShuffleSplit\<close> with only \<^verbatim>\<open>test_size\<close>
  given: the two index arrays cover \<^verbatim>\<open>range(n)\<close>, and no group number occurs on both
  sides.
\<close>

definition splitter_contract :: "libs \<Rightarrow> bool" where
  "splitter_contract L \<longleftrightarrow>
     (\<forall>test_size seed groups train_idx test_idx.
        group_shuffle_split L test_size seed groups = Some (train_idx, test_idx) \<longrightarrow>
          set train_idx \<union> set test_idx = {..<length groups} \<and>
          (\<forall>i \<in> set train_idx. \<forall>j \<in> set test_idx. groups ! i \<noteq> groups ! j))"

text \<open>Concrete inputs on which the split is run below.\<close>

definition ex_items :: "unit item list" where
  "ex_items = [\<lparr>SeriesDescription = ''A1 x'', group_id = None, other = ()\<rparr>,
               \<lparr>SeriesDescription = ''B1 y'', group_id = None, other = ()\<rparr>,
               \<lparr>SeriesDescription = ''A1 z'', group_id = None, other = ()\<rparr>]"

definition failing_libs :: libs where
  "failing_libs = \<lparr>extract_base = (\<lambda>d. d), group_shuffle_split = (\<lambda>ts seed gs. None)\<rparr>"

text \<open>
  A splitter that sends group number 0 to the test side and every other group to the
  training side, and raises when one side would be empty.
\<close>

definition ex_libs :: libs where
  "ex_libs = \<lparr>extract_base = (\<lambda>d. d),
               group_shuffle_split = (\<lambda>ts seed gs.
                 (let tr = filter (\<lambda>i. gs ! i \<noteq> 0) [0..<length gs];
                      te = filter (\<lambda>i. gs ! i = 0) [0..<length gs]
                  in if tr = [] \<or> te = [] then None else Some (tr, te)))\<rparr>"

text \<open>
  The dictionary \<^verbatim>\<open>group_map\<close> numbers its keys in insertion order: the values
  are \<open>0, 1, 2, \<dots>\<close> in the order of the entries.
\<close>

definition gm_ok :: "(string \<times> nat) list \<Rightarrow> bool" where
  "gm_ok gm \<longleftrightarrow> map snd gm = [0..<length gm]"

section \<open>Tensors\<close>

text \<open>
  A tensor is its shape and its elements in row-major order, the layout of a contiguous
  PyTorch tensor. A well-formed tensor has as many elements as its shape says.
\<close>

record 'a tensor =
  shape :: "nat list"
  data :: "'a list"

definition numel :: "'a tensor \<Rightarrow> nat" where
  "numel t = prod_list (shape t)"

definition wf_tensor :: "'a tensor \<Rightarrow> bool" where
  "wf_tensor t \<longleftrightarrow> length (data t) = prod_list (shape t)"

text \<open>
  \<^verbatim>\<open>t.narrow(dim, start, len)\<close>: the slice \<open>start, \<dots>, start + len - 1\<close> of
  dimension \<open>axis\<close>. For each index of the dimensions before \<open>axis\<close> it keeps one run
  of \<open>len\<close> times the size of the dimensions after \<open>axis\<close>.
\<close>

definition narrow :: "'a tensor \<Rightarrow> nat \<Rightarrow> nat \<Rightarrow> nat \<Rightarrow> 'a tensor" where
  "narrow t axis start len =
     (let outer = prod_list (take axis (shape t));
          c = shape t ! axis;
          inner = prod_list (drop (Suc axis) (shape t))
      in \<lparr>shape = (shape t)[axis := len],
          data = concat (map (\<lambda>i. take (len * inner) (drop ((i * c + start) * inner) (data t)))
                             [0..<outer])\<rparr>)"

text \<open>
  \<^verbatim>\<open>torch.split(t, [s1, s2], dim)\<close>: two consecutive slices of dimension \<open>axis\<close>.
  PyTorch raises when the dimension does not exist, when a size is negative, and when the
  sizes do not add up to the size of the dimension.
\<close>

definition torch_split2 ::
  "'a tensor \<Rightarrow> int \<Rightarrow> int \<Rightarrow> nat \<Rightarrow> py_error + ('a tensor \<times> 'a tensor)" where
  "torch_split2 t s1 s2 axis =
     (if length (shape t) \<le> axis then Inl IndexError
      else if s1 < 0 \<or> s2 < 0 \<or> s1 + s2 \<noteq> int (shape t ! axis) then Inl RuntimeError
      else Inr (narrow t axis 0 (nat s1), narrow t axis (nat s1) (nat s2)))"

text \<open>
  The split of \<^verbatim>\<open>train_step\<close>:
  \<^verbatim>\<open>torch.split(latents[4], [k, latents[4].size(1) - k], dim=1)\<close> with
  \<open>k\<close> the \<^verbatim>\<open>contrastive_latentsize\<close>. \<^verbatim>\<open>size(1)\<close> raises on a tensor without
  a second dimension.
\<close>

definition split_bottleneck :: "'a tensor \<Rightarrow> int \<Rightarrow> py_error + ('a tensor \<times> 'a tensor)" where
  "split_bottleneck l4 k =
     (if length (shape l4) < 2 then Inl IndexError
      else torch_split2 l4 k (int (shape l4 ! 1) - k) 1)"

text \<open>
  \<^verbatim>\<open>torch.cat((a, b), dim)\<close> of two tensors that agree on every other dimension:
  for each index of the dimensions before \<open>axis\<close>, the run of \<open>a\<close> followed by the run
  of \<open>b\<close>. The training code never concatenates; the operation is what the split is
  measured against.
\<close>

definition torch_cat2 :: "'a tensor \<Rightarrow> 'a tensor \<Rightarrow> nat \<Rightarrow> 'a tensor" where
  "torch_cat2 a b axis =
     (let outer = prod_list (take axis (shape a));
          na = prod_list (drop axis (shape a));
          nb = prod_list (drop axis (shape b))
      in \<lparr>shape = (shape a)[axis := shape a ! axis + shape b ! axis],
          data = concat (map (\<lambda>i. take na (drop (i * na) (data a)) @
                                   take nb (drop (i * nb) (data b)))
                             [0..<outer])\<rparr>)"

text \<open>A bottleneck of two samples, three channels and two positions per channel.\<close>

definition ex_latent :: "nat tensor" where
  "ex_latent = \<lparr>shape = [2, 3, 1, 1, 2], data = [0, 1, 2, 3, 4, 5, 6, 7, 8, 9, 10, 11]\<rparr>"

section \<open>The inputs of the contrastive loss\<close>

text \<open>
  \<^verbatim>\<open>btneck[boolids]\<close>: indexing by a boolean mask over the first dimension keeps the
  samples where the mask holds, in order. PyTorch raises when the mask is not as long as
  the first dimension.
\<close>

definition mask_select :: "'a tensor \<Rightarrow> bool list \<Rightarrow> py_error + 'a tensor" where
  "mask_select t boolids =
     (case shape t of
        [] \<Rightarrow> Inl IndexError
      | b # rest \<Rightarrow>
          if length boolids \<noteq> b then Inl IndexError
          else
            (let blk = prod_list rest;
                 sel = filter (\<lambda>i. boolids ! i) [0..<b]
             in Inr \<lparr>shape = length sel # rest,
                     data = concat (map (\<lambda>i. take blk (drop (i * blk) (data t))) sel)\<rparr>))"

text \<open>
  \<^verbatim>\<open>btneck.permute(0, 2, 3, 4, 1)\<close>, laid out as \<^verbatim>\<open>reshape\<close> reads it: the channels
  become the last dimension, so the elements of one sample at one position of the volume
  are consecutive. A tensor that has not five dimensions raises.
\<close>

definition permute_02341 :: "'a tensor \<Rightarrow> py_error + 'a tensor" where
  "permute_02341 t =
     (case shape t of
        [b, c, d, h, w] \<Rightarrow>
          Inr \<lparr>shape = [b, d, h, w, c],
               data = concat (map (\<lambda>i. concat (map (\<lambda>s. map (\<lambda>ch. data t ! ((i * c + ch) * (d * h * w) + s))
                                                           [0..<c])
                                                [0..<d * h * w]))
                                  [0..<b])\<rparr>
      | _ \<Rightarrow> Inl RuntimeError)"

text \<open>
  \<^verbatim>\<open>t.reshape(-1, latentsize)\<close>: the rows of length \<open>latentsize\<close>. PyTorch raises
  when \<open>latentsize\<close> is not positive or does not divide the number of elements.
\<close>

definition reshape_rows :: "'a tensor \<Rightarrow> int \<Rightarrow> py_error + 'a list list" where
  "reshape_rows t latentsize =
     (if latentsize \<le> 0 then Inl RuntimeError
      else if numel t mod nat latentsize \<noteq> 0 then Inl RuntimeError
      else Inr (map (\<lambda>r. take (nat latentsize) (drop (r * nat latentsize) (data t)))
                    [0..<numel t div nat latentsize]))"

text \<open>
  \<^verbatim>\<open>xs[start:stop] = ys\<close> on the first dimension of a tensor: the slice is clipped to
  the tensor, and \<open>ys\<close> must have as many rows as the slice or exactly one row, which is
  then broadcast.
\<close>

definition slice_assign :: "'b list \<Rightarrow> nat \<Rightarrow> nat \<Rightarrow> 'b list \<Rightarrow> py_error + 'b list" where
  "slice_assign xs start stop ys =
     (let s = min start (length xs);
          e = max s (min stop (length xs));
          n = e - s
      in if length ys = n then Inr (take s xs @ ys @ drop e xs)
         else if length ys = 1 then Inr (take s xs @ replicate n (hd ys) @ drop e xs)
         else Inl RuntimeError)"

text \<open>
  The loop over \<^verbatim>\<open>torch.unique(ids)\<close>. The state is \<^verbatim>\<open>offset\<close>,
  \<^verbatim>\<open>start_idx\<close>, \<^verbatim>\<open>all_embeddings\<close> and \<^verbatim>\<open>all_labels\<close>; a row or a label that
  \<^verbatim>\<open>torch.empty\<close> allocated and nothing has written yet is \<open>None\<close>.
\<close>

fun contrastive_loop ::
  "'a tensor \<Rightarrow> int list \<Rightarrow> int \<Rightarrow> int list
     \<Rightarrow> nat \<times> nat \<times> 'a list option list \<times> nat option list
     \<Rightarrow> py_error + (nat \<times> nat \<times> 'a list option list \<times> nat option list)" where
  "contrastive_loop l4 ids latentsize [] st = Inr st"
| "contrastive_loop l4 ids latentsize (u # us) (offset, start_idx, all_embeddings, all_labels) =
     (case mask_select l4 (map (\<lambda>x. x = u) ids) of
        Inl e \<Rightarrow> Inl e
      | Inr btneck \<Rightarrow>
          if length (shape btneck) < 5 then Inl IndexError
          else
            (let num_elements = shape btneck ! 2 * shape btneck ! 3 * shape btneck ! 4
             in case permute_02341 btneck of
                  Inl e \<Rightarrow> Inl e
                | Inr permuted \<Rightarrow>
                    (case reshape_rows permuted latentsize of
                       Inl e \<Rightarrow> Inl e
                     | Inr embeddings \<Rightarrow>
                         (let contrast_ind = replicate num_elements offset;
                              labels = concat (replicate (shape btneck ! 0) contrast_ind);
                              end_idx = start_idx + length embeddings
                          in case slice_assign all_embeddings start_idx end_idx (map Some embeddings) of
                               Inl e \<Rightarrow> Inl e
                             | Inr all_embeddings' \<Rightarrow>
                                 (case slice_assign all_labels start_idx end_idx (map Some labels) of
                                    Inl e \<Rightarrow> Inl e
                                  | Inr all_labels' \<Rightarrow>
                                      contrastive_loop l4 ids latentsize us
                                        (offset + num_elements, end_idx, all_embeddings', all_labels'))))))"

text \<open>
  \<^verbatim>\<open>contrastive_step\<close> up to the call of the loss: the two arguments
  \<open>(all_embeddings, all_labels)\<close> it passes to \<^verbatim>\<open>self.contrast_loss\<close>.
\<close>

definition contrastive_inputs ::
  "'a tensor list \<Rightarrow> int list \<Rightarrow> int \<Rightarrow> py_error + ('a list option list \<times> nat option list)" where
  "contrastive_inputs latents ids latentsize =
     (if length latents < 5 then Inl IndexError
      else
        (let l4 = latents ! 4
         in if length (shape l4) < 5 then Inl IndexError
            else if latentsize < 0 then Inl RuntimeError
            else
              (let total_num_elements = shape l4 ! 0 * shape l4 ! 2 * shape l4 ! 3 * shape l4 ! 4
               in case contrastive_loop l4 ids latentsize (np_unique ids)
                         (0, 0, replicate total_num_elements None, replicate total_num_elements None) of
                    Inl e \<Rightarrow> Inl e
                  | Inr (offset, start_idx, all_embeddings, all_labels) \<Rightarrow>
                      Inr (all_embeddings, all_labels))))"

text \<open>
  The embedding of sample \<open>i\<close> at position \<open>s\<close> of the volume: the values of all
  channels there. The rows of \<^verbatim>\<open>all_embeddings\<close> are compared with these.
\<close>

definition embedding_of :: "'a tensor \<Rightarrow> nat \<Rightarrow> nat \<Rightarrow> 'a list" where
  "embedding_of t i s =
     map (\<lambda>ch. data t ! ((i * (shape t ! 1) + ch) * (shape t ! 2 * shape t ! 3 * shape t ! 4) + s))
         [0..<shape t ! 1]"

text \<open>
  The samples with a given id, and the pairs (sample, position) in the order in which the
  loop emits their rows: by ascending id, then by sample, then by position.
\<close>

definition samples_with :: "int list \<Rightarrow> int \<Rightarrow> nat list" where
  "samples_with ids u = filter (\<lambda>i. ids ! i = u) [0..<length ids]"

definition rows_of_id :: "int list \<Rightarrow> nat \<Rightarrow> int \<Rightarrow> (nat \<times> nat) list" where
  "rows_of_id ids n u = concat (map (\<lambda>i. map (\<lambda>s. (i, s)) [0..<n]) (samples_with ids u))"

definition row_origins :: "int list \<Rightarrow> nat \<Rightarrow> (nat \<times> nat) list" where
  "row_origins ids n = concat (map (rows_of_id ids n) (np_unique ids))"

text \<open>The labels the loop writes for the ids \<open>us\<close>, starting from \<open>offset\<close>.\<close>

fun labels_from :: "int list \<Rightarrow> nat \<Rightarrow> nat \<Rightarrow> int list \<Rightarrow> nat list" where
  "labels_from ids n offset [] = []"
| "labels_from ids n offset (u # us) =
     replicate (length (rows_of_id ids n u)) offset @ labels_from ids n (offset + n) us"

text \<open>
  A bottleneck of three samples, two channels and two positions per channel, as the last
  of five feature maps.
\<close>

definition ex_latent3 :: "nat tensor" where
  "ex_latent3 = \<lparr>shape = [3, 2, 1, 1, 2], data = [0, 1, 2, 3, 4, 5, 6, 7, 8, 9, 10, 11]\<rparr>"

definition ex_latents :: "nat tensor list" where
  "ex_latents = [ex_latent, ex_latent, ex_latent, ex_latent, ex_latent3]"

section \<open>The trainer (class Train of harmonization/swin_contrastive/train.py)\<close>

subsection \<open>Values, batches and the outside world\<close>

text \<open>
  A loss is held in \<^verbatim>\<open>losses_dict\<close> as a Python \<^verbatim>\<open>int\<close>, a Python \<^verbatim>\<open>float\<close>
  or a zero-dimensional tensor; \<^verbatim>\<open>+\<close> promotes to the richer of its two operands.
  Numbers are reals: rounding is not modelled.
\<close>

datatype pyval = PyInt int | PyFloat real | PyTensor real

fun py_num :: "pyval \<Rightarrow> real" where
  "py_num (PyInt i) = real_of_int i"
| "py_num (PyFloat x) = x"
| "py_num (PyTensor x) = x"

fun is_tensor :: "pyval \<Rightarrow> bool" where
  "is_tensor (PyTensor x) = True"
| "is_tensor v = False"

fun py_add :: "pyval \<Rightarrow> pyval \<Rightarrow> pyval" where
  "py_add (PyInt i) (PyInt j) = PyInt (i + j)"
| "py_add (PyTensor x) v = PyTensor (x + py_num v)"
| "py_add v (PyTensor y) = PyTensor (py_num v + y)"
| "py_add v w = PyFloat (py_num v + py_num w)"

text \<open>A collated batch: the images and the two label tensors.\<close>

record batch =
  batch_image :: "real tensor"
  batch_roi_label :: "int list"
  batch_scanner_label :: "int list"

text \<open>
  The networks, the losses of the libraries, the optimizer and the data loader are
  parameters. \<open>'w\<close> is the type of the weights of the decoder \<^verbatim>\<open>self.reconstruct\<close>, the
  only parameters the optimizer of the trainer updates.
  \<^item> \<open>swinViT training imgs\<close>: the five feature maps of the encoder, in training or in
    evaluation mode;
  \<^item> \<open>reconstruct w x\<close>: the decoder with weights \<open>w\<close>, which raises on an input it
    does not accept;
  \<^item> \<open>l1_loss\<close>, \<open>ssim\<close>, \<open>contrast_loss\<close>: the library losses;
  \<^item> \<open>optimizer_step w x target\<close>: the weights after \<^verbatim>\<open>backward\<close> and
    \<^verbatim>\<open>optimizer.step\<close> on the loss of decoding \<open>x\<close> against \<open>target\<close>;
  \<^item> \<open>train_loader e\<close>: the batches the training loader yields during the epoch in
    which \<^verbatim>\<open>self.epoch\<close> is \<open>e\<close>, and \<open>plot_loader e\<close> those it yields to
    \<^verbatim>\<open>plot_latent_space(e)\<close>.
\<close>

record 'w env =
  swinViT :: "bool \<Rightarrow> real tensor \<Rightarrow> real tensor list"
  reconstruct :: "'w \<Rightarrow> real tensor \<Rightarrow> py_error + real tensor"
  l1_loss :: "real tensor \<Rightarrow> real tensor \<Rightarrow> real"
  ssim :: "real tensor \<Rightarrow> real tensor \<Rightarrow> real"
  contrast_loss :: "real list option list \<Rightarrow> nat option list \<Rightarrow> real"
  optimizer_step :: "'w \<Rightarrow> real tensor \<Rightarrow> real tensor \<Rightarrow> 'w"
  train_loader :: "int \<Rightarrow> batch list"
  plot_loader :: "int \<Rightarrow> batch list"

text \<open>
  What the trainer does to the world outside it, in order: the calls on the cached
  datasets, the batches it draws, the calls on the networks and the optimizer, the files
  it writes and the lines it prints. \<open>TorchSave\<close> stands for \<^verbatim>\<open>torch.save\<close> of a
  state dictionary together with the line printed after it.
\<close>

datatype dataset = TrainSet | TestSet

datatype event =
    ProgressWrite string
  | ProgressUpdate
  | DatasetStart dataset
  | DatasetUpdateCache dataset
  | DatasetShutdown dataset
  | FetchBatch dataset
  | ModelTrain
  | ModelEval
  | ZeroGrad
  | Reconstruct "real tensor"
  | Backward pyval
  | OptimizerStep
  | NibSave string "real tensor"
  | SetDescription nat nat real pyval pyval pyval
  | WriteJson string "pyval list"
  | LrSchedulerStep
  | Print string
  | PrintErrorPlotting py_error
  | SaveFig string
  | PltShow
  | TorchSave string
  | ImRead string
  | MimSave string "string list"

text \<open>
  The fields of \<^verbatim>\<open>self\<close> that the training code reads or writes. The four lists of
  \<^verbatim>\<open>self.train_losses\<close> are fields of their own.
\<close>

record 'w trainer =
  epoch :: int
  num_epoch :: int
  contrastive_latentsize :: int
  save_name :: string
  model_training :: bool
  decoder :: 'w
  acc_dict :: "string \<rightharpoonup> pyval"
  losses_dict :: "string \<rightharpoonup> pyval"
  contrast_losses :: "pyval list"
  classification_losses :: "pyval list"
  reconstruction_losses :: "pyval list"
  total_losses :: "pyval list"
  tsne_plots :: "string list"

definition log_summary_interval :: int where
  "log_summary_interval = 5"

definition step_interval :: nat where
  "step_interval = 10"

text \<open>
  \<^verbatim>\<open>Train.__init__\<close>, for the arguments that the training code reads:
  \<^verbatim>\<open>num_epoch\<close>, \<^verbatim>\<open>contrastive_latentsize\<close>, \<^verbatim>\<open>savename\<close>, and the decoder
  weights loaded from the checkpoint. A new network is in training mode.
\<close>

definition Train_init :: "int \<Rightarrow> int \<Rightarrow> string \<Rightarrow> 'w \<Rightarrow> 'w trainer" where
  "Train_init n k savename w =
     \<lparr>epoch = 0, num_epoch = n, contrastive_latentsize = k, save_name = savename,
      model_training = True, decoder = w,
      acc_dict = [''src_best_train_acc'' \<mapsto> PyInt 0, ''src_best_test_acc'' \<mapsto> PyInt 0,
                  ''tgt_best_test_acc'' \<mapsto> PyInt 0],
      losses_dict = [''total_loss'' \<mapsto> PyInt 0, ''src_classification_loss'' \<mapsto> PyInt 0,
                     ''contrast_loss'' \<mapsto> PyInt 0],
      contrast_losses = [], classification_losses = [], reconstruction_losses = [],
      total_losses = [], tsne_plots = []\<rparr>"

text \<open>\<^verbatim>\<open>d[key]\<close> on a dictionary: a missing key raises.\<close>

definition lookup :: "(string \<rightharpoonup> 'v) \<Rightarrow> string \<Rightarrow> py_error + 'v" where
  "lookup d key = (case d key of None \<Rightarrow> Inl (KeyError key) | Some v \<Rightarrow> Inr v)"

subsection \<open>One training step\<close>

text \<open>
  \<^verbatim>\<open>t.flatten(start_dim=i, end_dim=j)\<close> and \<^verbatim>\<open>t.view(-1, d1, \<dots>, dn)\<close> change the
  shape and keep the elements. \<^verbatim>\<open>view\<close> raises when the first dimension cannot be
  inferred.
\<close>

definition torch_flatten :: "'a tensor \<Rightarrow> nat \<Rightarrow> nat \<Rightarrow> 'a tensor" where
  "torch_flatten t i j =
     \<lparr>shape = take i (shape t) @ [prod_list (take (Suc j - i) (drop i (shape t)))] @ drop (Suc j) (shape t),
      data = data t\<rparr>"

definition torch_view_infer :: "'a tensor \<Rightarrow> nat list \<Rightarrow> py_error + 'a tensor" where
  "torch_view_infer t rest =
     (let p = prod_list rest
      in if p = 0 \<or> numel t mod p \<noteq> 0 then Inl RuntimeError
         else Inr \<lparr>shape = (numel t div p) # rest, data = data t\<rparr>)"

text \<open>
  \<^verbatim>\<open>reconstruct_image(bottleneck)\<close>: the five dimensions are unpacked, the tensor is
  flattened and viewed back, and the decoder is called on the result. The event records
  what the decoder is called on.
\<close>

definition reconstruct_image ::
  "'w env \<Rightarrow> 'w \<Rightarrow> real tensor \<Rightarrow> event list \<times> (py_error + real tensor)" where
  "reconstruct_image env wts bottleneck =
     (case shape bottleneck of
        [b, c, h, w, d] \<Rightarrow>
          (case torch_view_infer (torch_flatten bottleneck 2 4) [c, h, w, d] of
             Inl e \<Rightarrow> ([], Inl e)
           | Inr x_rec \<Rightarrow> ([Reconstruct x_rec], reconstruct env wts x_rec))
      | _ \<Rightarrow> ([], Inl ValueError))"

text \<open>\<^verbatim>\<open>t[0,:,:,:,:]\<close> and \<^verbatim>\<open>np.squeeze\<close>.\<close>

definition first_sample :: "'a tensor \<Rightarrow> py_error + 'a tensor" where
  "first_sample t =
     (if length (shape t) < 5 \<or> hd (shape t) = 0 then Inl IndexError
      else Inr \<lparr>shape = tl (shape t), data = take (prod_list (tl (shape t))) (data t)\<rparr>)"

definition np_squeeze :: "'a tensor \<Rightarrow> 'a tensor" where
  "np_squeeze t = \<lparr>shape = filter (\<lambda>n. n \<noteq> 1) (shape t), data = data t\<rparr>"

text \<open>\<^verbatim>\<open>ReconstructionLoss.forward\<close>; the trainer builds it with \<^verbatim>\<open>ssim_weight=1\<close>.\<close>

definition ReconstructionLoss_forward ::
  "'w env \<Rightarrow> real \<Rightarrow> real tensor \<Rightarrow> real tensor \<Rightarrow> real" where
  "ReconstructionLoss_forward env ssim_weight outp target =
     (let l1 = l1_loss env outp target;
          ssim_loss = 1 - ssim env outp target
      in l1 + ssim_weight * ssim_loss)"

definition reconstruction_step ::
  "'w env \<Rightarrow> 'w trainer \<Rightarrow> real tensor \<Rightarrow> real tensor \<Rightarrow> 'w trainer" where
  "reconstruction_step env s reconstructed_imgs original_imgs =
     s\<lparr>losses_dict := (losses_dict s)(''reconstruction_loss'' \<mapsto>
          PyTensor (ReconstructionLoss_forward env 1 reconstructed_imgs original_imgs))\<rparr>"

text \<open>
  \<^verbatim>\<open>contrastive_step(latents, ids, latentsize)\<close>: the loss of the rows and labels
  built above is stored under \<^verbatim>\<open>'contrast_loss'\<close>.
\<close>

definition contrastive_step ::
  "'w env \<Rightarrow> 'w trainer \<Rightarrow> real tensor list \<Rightarrow> int list \<Rightarrow> int \<Rightarrow> 'w trainer \<times> (py_error + unit)" where
  "contrastive_step env s latents ids latentsize =
     (case contrastive_inputs latents ids latentsize of
        Inl e \<Rightarrow> (s, Inl e)
      | Inr (all_embeddings, all_labels) \<Rightarrow>
          (s\<lparr>losses_dict := (losses_dict s)(''contrast_loss'' \<mapsto>
                PyTensor (contrast_loss env all_embeddings all_labels))\<rparr>, Inr ()))"

text \<open>The value assigned to \<^verbatim>\<open>losses_dict['total_loss']\<close>.\<close>

definition total_loss_of :: "int \<Rightarrow> (string \<rightharpoonup> pyval) \<Rightarrow> py_error + pyval" where
  "total_loss_of ep d =
     (if ep \<ge> 0 then
        (case lookup d ''classification_loss'' of
           Inl e \<Rightarrow> Inl e
         | Inr c \<Rightarrow>
             (case lookup d ''contrast_loss'' of
                Inl e \<Rightarrow> Inl e
              | Inr k \<Rightarrow>
                  (case lookup d ''reconstruction_loss'' of
                     Inl e \<Rightarrow> Inl e
                   | Inr r \<Rightarrow> Inr (py_add (py_add c k) r))))
      else lookup d ''contrast_loss'')"

text \<open>
  \<^verbatim>\<open>train_step(batch)\<close>. The calls of \<^verbatim>\<open>contrastive_step\<close> and of
  \<^verbatim>\<open>classification_step\<close> are commented out in the source, so neither is part of the
  step; the result of the split is bound and not used. \<^verbatim>\<open>backward\<close> exists on a
  tensor only. The result is the new state, the events, and the returned pair
  \<open>(losses_dict, accu)\<close>.
\<close>

definition train_step ::
  "'w env \<Rightarrow> 'w trainer \<Rightarrow> batch
     \<Rightarrow> 'w trainer \<times> event list \<times> (py_error + ((string \<rightharpoonup> pyval) \<times> pyval))" where
  "train_step env s batch =
     (let imgs_s = batch_image batch;
          latents = swinViT env (model_training s) imgs_s
      in if length latents < 5 then (s, [ZeroGrad], Inl IndexError)
         else
           (case split_bottleneck (latents ! 4) (contrastive_latentsize s) of
              Inl e \<Rightarrow> (s, [ZeroGrad], Inl e)
            | Inr (nlatents4, bottleneck) \<Rightarrow>
                (let s1 = s\<lparr>losses_dict := (losses_dict s)(''classification_loss'' \<mapsto> PyFloat 0)\<rparr>
                 in case reconstruct_image env (decoder s1) (latents ! 4) of
                      (ev1, Inl e) \<Rightarrow> (s1, ZeroGrad # ev1, Inl e)
                    | (ev1, Inr reconstructed_imgs) \<Rightarrow>
                        (case first_sample reconstructed_imgs of
                           Inl e \<Rightarrow> (s1, ZeroGrad # ev1, Inl e)
                         | Inr img \<Rightarrow>
                             (let ev2 = ZeroGrad # ev1 @ [NibSave ''reconstructed_image.nii'' (np_squeeze img)]
                              in case first_sample imgs_s of
                                   Inl e \<Rightarrow> (s1, ev2, Inl e)
                                 | Inr img0 \<Rightarrow>
                                     (let ev3 = ev2 @ [NibSave ''original_image.nii'' (np_squeeze img0)];
                                          s2 = reconstruction_step env s1 reconstructed_imgs imgs_s
                                      in case total_loss_of (epoch s2) (losses_dict s2) of
                                           Inl e \<Rightarrow> (s2, ev3, Inl e)
                                         | Inr total_loss \<Rightarrow>
                                             (let s3 = s2\<lparr>losses_dict := (losses_dict s2)(''total_loss'' \<mapsto> total_loss)\<rparr>
                                              in if is_tensor total_loss
                                                 then (s3\<lparr>decoder := optimizer_step env (decoder s3) (latents ! 4) imgs_s\<rparr>,
                                                       ev3 @ [Backward total_loss, OptimizerStep],
                                                       Inr (losses_dict s3, PyInt 0))
                                                 else (s3, ev3, Inl AttributeError))))))))"

subsection \<open>One epoch\<close>

text \<open>\<^verbatim>\<open>save_losses(train_loss)\<close>: four appends, then the four JSON files.\<close>

definition save_losses :: "'w trainer \<Rightarrow> pyval \<Rightarrow> 'w trainer \<times> event list \<times> (py_error + unit)" where
  "save_losses s train_loss =
     (let s1 = s\<lparr>total_losses := total_losses s @ [train_loss]\<rparr>
      in case lookup (losses_dict s1) ''contrast_loss'' of
           Inl e \<Rightarrow> (s1, [], Inl e)
         | Inr c \<Rightarrow>
             (let s2 = s1\<lparr>contrast_losses := contrast_losses s1 @ [c]\<rparr>
              in case lookup (losses_dict s2) ''classification_loss'' of
                   Inl e \<Rightarrow> (s2, [], Inl e)
                 | Inr k \<Rightarrow>
                     (let s3 = s2\<lparr>classification_losses := classification_losses s2 @ [k]\<rparr>
                      in case lookup (losses_dict s3) ''reconstruction_loss'' of
                           Inl e \<Rightarrow> (s3, [], Inl e)
                         | Inr r \<Rightarrow>
                             (let s4 = s3\<lparr>reconstruction_losses := reconstruction_losses s3 @ [r]\<rparr>
                              in (s4,
                                  [WriteJson ''contrast_losses.json'' (contrast_losses s4),
                                   WriteJson ''classification_losses.json'' (classification_losses s4),
                                   WriteJson ''total_losses.json'' (total_losses s4),
                                   WriteJson ''reconstruction_losses.json'' (reconstruction_losses s4)],
                                  Inr ())))))"

text \<open>
  The body of the loop of \<^verbatim>\<open>train_epoch\<close> after \<^verbatim>\<open>train_step\<close> has returned
  \<open>(loss, classif_acc)\<close>: the running loss (\<^verbatim>\<open>item()\<close> exists on a tensor only), the
  progress line, and every \<^verbatim>\<open>step_interval\<close> steps the saved losses. It returns the
  new running loss.
\<close>

definition after_step ::
  "nat \<Rightarrow> nat \<Rightarrow> real \<Rightarrow> (string \<rightharpoonup> pyval) \<Rightarrow> pyval \<Rightarrow> 'w trainer
     \<Rightarrow> 'w trainer \<times> event list \<times> (py_error + real)" where
  "after_step total_batches step running_loss loss classif_acc s =
     (case lookup loss ''total_loss'' of
        Inl e \<Rightarrow> (s, [], Inl e)
      | Inr t \<Rightarrow>
          if \<not> is_tensor t then (s, [], Inl AttributeError)
          else
            (let running_loss' = running_loss + py_num t;
                 average_loss = running_loss' / real (step + 1)
             in case lookup loss ''contrast_loss'' of
                  Inl e \<Rightarrow> (s, [], Inl e)
                | Inr c \<Rightarrow>
                    (case lookup loss ''classification_loss'' of
                       Inl e \<Rightarrow> (s, [], Inl e)
                     | Inr k \<Rightarrow>
                         (let ev = [SetDescription (step + 1) total_batches average_loss c k classif_acc]
                          in if step mod step_interval = 0
                             then (case save_losses s (PyFloat average_loss) of
                                     (s', ev', Inl e) \<Rightarrow> (s', ev @ ev', Inl e)
                                   | (s', ev', Inr u) \<Rightarrow> (s', ev @ ev', Inr running_loss'))
                             else (s, ev, Inr running_loss')))))"

fun train_epoch_loop ::
  "'w env \<Rightarrow> nat \<Rightarrow> nat \<Rightarrow> real \<Rightarrow> batch list \<Rightarrow> 'w trainer
     \<Rightarrow> 'w trainer \<times> event list \<times> (py_error + unit)" where
  "train_epoch_loop env total_batches step running_loss [] s = (s, [], Inr ())"
| "train_epoch_loop env total_batches step running_loss (batch # rest) s =
     (case train_step env s batch of
        (s1, ev1, Inl e) \<Rightarrow> (s1, FetchBatch TrainSet # ev1, Inl e)
      | (s1, ev1, Inr (loss, classif_acc)) \<Rightarrow>
          (case after_step total_batches step running_loss loss classif_acc s1 of
             (s2, ev2, Inl e) \<Rightarrow> (s2, FetchBatch TrainSet # ev1 @ ev2, Inl e)
           | (s2, ev2, Inr running_loss') \<Rightarrow>
               (case train_epoch_loop env total_batches (Suc step) running_loss' rest s2 of
                  (s3, ev3, r) \<Rightarrow> (s3, FetchBatch TrainSet # ev1 @ ev2 @ ev3, r))))"

definition train_epoch :: "'w env \<Rightarrow> 'w trainer \<Rightarrow> 'w trainer \<times> event list \<times> (py_error + unit)" where
  "train_epoch env s =
     (let batches = train_loader env (epoch s)
      in case train_epoch_loop env (length batches) 0 0 batches s of
           (s1, ev, Inl e) \<Rightarrow> (s1, ev, Inl e)
         | (s1, ev, Inr u) \<Rightarrow> (s1\<lparr>epoch := epoch s1 + 1\<rparr>, ev @ [ProgressUpdate], Inr ()))"

subsection \<open>The training loop\<close>

text \<open>\<^verbatim>\<open>str(n)\<close> of an integer and \<^verbatim>\<open>s.replace(old, new)\<close> of a string.\<close>

function str_nat :: "nat \<Rightarrow> string" where
  "str_nat n = (if n < 10 then [char_of (48 + n)] else str_nat (n div 10) @ [char_of (48 + n mod 10)])"
  by pat_completeness auto
termination
  by (relation "measure (\<lambda>n. n)") auto

definition str_int :: "int \<Rightarrow> string" where
  "str_int i = (if i < 0 then CHR ''-'' # str_nat (nat (- i)) else str_nat (nat i))"

function str_replace :: "string \<Rightarrow> string \<Rightarrow> string \<Rightarrow> string" where
  "str_replace old new s =
     (if s = [] \<or> old = [] then s
      else if prefix old s then new @ str_replace old new (drop (length old) s)
      else hd s # str_replace old new (tl s))"
  by pat_completeness auto
termination
  by (relation "measure (\<lambda>(old, new, s). length s)") auto

text \<open>
  \<^verbatim>\<open>plot_latent_space(epoch)\<close>. It puts the encoder in evaluation mode, draws every
  batch of the training loader, and hands the latents to the analysis and plotting
  libraries. \<open>plot_failure epoch\<close> is the exception these raise, if any; without one the
  plot is saved and its path appended to \<^verbatim>\<open>self.tsne_plots\<close>.
\<close>

definition plot_latent_space ::
  "'w env \<Rightarrow> (int \<Rightarrow> py_error option) \<Rightarrow> 'w trainer \<Rightarrow> int
     \<Rightarrow> 'w trainer \<times> event list \<times> (py_error + unit)" where
  "plot_latent_space env plot_failure s ep =
     (let s1 = s\<lparr>model_training := False\<rparr>;
          ev1 = ModelEval # map (\<lambda>b. FetchBatch TrainSet) (plot_loader env ep)
      in case plot_failure ep of
           Some e \<Rightarrow> (s1, ev1, Inl e)
         | None \<Rightarrow>
             (let plot_path = save_name s1 @ ''_latent_space_tsne_epoch_'' @ str_int ep @ ''.png''
              in (s1\<lparr>tsne_plots := tsne_plots s1 @ [plot_path]\<rparr>,
                  ev1 @ [Print (''Saving latent space plot to '' @ plot_path), SaveFig plot_path],
                  Inr ())))"

text \<open>
  The end of the body of the \<^verbatim>\<open>while\<close> loop of \<^verbatim>\<open>train\<close>, after
  \<^verbatim>\<open>train_epoch\<close>: the scheduler, the cache update, and every fifth epoch the plot
  inside \<^verbatim>\<open>try\<close>/\<^verbatim>\<open>except Exception\<close>, which prints the exception and goes on.
  The test on \<^verbatim>\<open>log_summary_interval\<close> before them guards a \<^verbatim>\<open>pass\<close>.
\<close>

definition epoch_end ::
  "'w env \<Rightarrow> (int \<Rightarrow> py_error option) \<Rightarrow> 'w trainer \<Rightarrow> 'w trainer \<times> event list" where
  "epoch_end env plot_failure s =
     (let ev = [LrSchedulerStep, DatasetUpdateCache TrainSet]
      in if epoch s mod 5 = 0
         then (case plot_latent_space env plot_failure s (epoch s) of
                 (s', ev', Inl e) \<Rightarrow> (s', ev @ ev' @ [PrintErrorPlotting e])
               | (s', ev', Inr u) \<Rightarrow> (s', ev @ ev'))
         else (s, ev))"

text \<open>
  One pass of the loop body: \<^verbatim>\<open>train_epoch\<close>, then the end of the body. An
  exception of \<^verbatim>\<open>train_epoch\<close> leaves the loop.
\<close>

definition epoch_body ::
  "'w env \<Rightarrow> (int \<Rightarrow> py_error option) \<Rightarrow> 'w trainer
     \<Rightarrow> 'w trainer \<times> event list \<times> (py_error + unit)" where
  "epoch_body env plot_failure s =
     (case train_epoch env s of
        (s1, ev1, Inl e) \<Rightarrow> (s1, ev1, Inl e)
      | (s1, ev1, Inr u) \<Rightarrow>
          (case epoch_end env plot_failure s1 of (s2, ev2) \<Rightarrow> (s2, ev1 @ ev2, Inr ())))"

text \<open>
  \<^verbatim>\<open>while self.epoch < self.num_epoch\<close>. The loop ends because a pass that returns
  has added one to \<^verbatim>\<open>self.epoch\<close> and left \<^verbatim>\<open>self.num_epoch\<close> alone.
\<close>

function train_loop ::
  "'w env \<Rightarrow> (int \<Rightarrow> py_error option) \<Rightarrow> 'w trainer
     \<Rightarrow> 'w trainer \<times> event list \<times> (py_error + unit)" where
  "train_loop env plot_failure s =
     (if epoch s < num_epoch s
      then (case epoch_body env plot_failure s of
              (s1, ev1, Inl e) \<Rightarrow> (s1, ev1, Inl e)
            | (s1, ev1, Inr u) \<Rightarrow>
                (case train_loop env plot_failure s1 of
                   (s2, ev2, r) \<Rightarrow> (s2, ev1 @ ev2, r)))
      else (s, [], Inr ()))"
  by pat_completeness auto
termination
proof (relation "measure (\<lambda>(env, plot_failure, s). nat (num_epoch s - epoch s))")
  show "wf (measure (\<lambda>(env :: 'w env, plot_failure :: int \<Rightarrow> py_error option, s :: 'w trainer).
              nat (num_epoch s - epoch s)))"
    by simp
next
  fix env :: "'w env" and plot_failure :: "int \<Rightarrow> py_error option"
    and s s1 :: "'w trainer" and y :: "event list \<times> (py_error + unit)" and ev1 r u
  assume lt: "epoch s < num_epoch s"
    and xy: "(s1, y) = epoch_body env plot_failure s"
    and y: "(ev1, r) = y" and r: "r = Inr u"
  have step_keeps: "epoch t' = epoch t \<and> num_epoch t' = num_epoch t"
    if "train_step env t b = (t', e', r')" for t t' :: "'w trainer" and b e' r'
    using that
    by (auto simp: train_step_def reconstruction_step_def Let_def
        split: sum.splits prod.splits if_splits)
  have save_keeps: "epoch t' = epoch t \<and> num_epoch t' = num_epoch t"
    if "save_losses t v = (t', e', r')" for t t' :: "'w trainer" and v e' r'
    using that by (auto simp: save_losses_def Let_def split: sum.splits)
  have after_keeps: "epoch t' = epoch t \<and> num_epoch t' = num_epoch t"
    if "after_step n k a l c t = (t', e', r')" for t t' :: "'w trainer" and n k a l c e' r'
    using that
    by (auto simp: after_step_def Let_def split: sum.splits prod.splits if_splits
        dest: save_keeps)
  have loop_keeps: "epoch t' = epoch t \<and> num_epoch t' = num_epoch t"
    if "train_epoch_loop env n k a bs t = (t', e', r')" for t t' :: "'w trainer" and n k a bs e' r'
    using that
  proof (induction bs arbitrary: k a t t' e' r')
    case Nil
    then show ?case by simp
  next
    case (Cons b bs)
    obtain t1 e1 r1 where ts: "train_step env t b = (t1, e1, r1)"
      by (cases "train_step env t b")
    note t1 = step_keeps [OF ts]
    show ?case
    proof (cases r1)
      case (Inl e)
      with Cons.prems ts t1 show ?thesis by auto
    next
      case (Inr p)
      obtain l c where p: "p = (l, c)" by (cases p)
      obtain t2 e2 r2 where as: "after_step n k a l c t1 = (t2, e2, r2)"
        by (cases "after_step n k a l c t1")
      note t2 = after_keeps [OF as]
      show ?thesis
      proof (cases r2)
        case (Inl e)
        with Cons.prems ts Inr p as t1 t2 show ?thesis by auto
      next
        case (Inr a')
        obtain t3 e3 r3 where rec: "train_epoch_loop env n (Suc k) a' bs t2 = (t3, e3, r3)"
          by (cases "train_epoch_loop env n (Suc k) a' bs t2")
        from Cons.prems ts \<open>r1 = Inr p\<close> p as Inr rec have "t' = t3" by simp
        with Cons.IH [OF rec] t1 t2 show ?thesis by simp
      qed
    qed
  qed
  have epoch_adds: "epoch t' = epoch t + 1 \<and> num_epoch t' = num_epoch t"
    if "train_epoch env t = (t', e', Inr v)" for t t' :: "'w trainer" and e' v
  proof -
    obtain t1 e1 r1 where l: "train_epoch_loop env (length (train_loader env (epoch t))) 0 0
                                (train_loader env (epoch t)) t = (t1, e1, r1)"
      by (cases "train_epoch_loop env (length (train_loader env (epoch t))) 0 0
                   (train_loader env (epoch t)) t")
    from that l have "t' = t1\<lparr>epoch := epoch t1 + 1\<rparr>"
      by (auto simp: train_epoch_def Let_def split: sum.splits)
    with loop_keeps [OF l] show ?thesis by simp
  qed
  have end_keeps: "epoch (fst (epoch_end env plot_failure t)) = epoch t \<and>
                   num_epoch (fst (epoch_end env plot_failure t)) = num_epoch t" for t :: "'w trainer"
    by (simp add: epoch_end_def plot_latent_space_def Let_def split: option.splits)
  from xy y r have body: "epoch_body env plot_failure s = (s1, ev1, Inr u)" by simp
  then obtain t e where te: "train_epoch env s = (t, e, Inr ())"
    and s1: "s1 = fst (epoch_end env plot_failure t)"
    by (auto simp: epoch_body_def split: prod.splits sum.splits)
  from epoch_adds [OF te] end_keeps [of t] s1
  have "epoch s1 = epoch s + 1" "num_epoch s1 = num_epoch s" by simp_all
  with lt show "((env, plot_failure, s1), (env, plot_failure, s))
                \<in> measure (\<lambda>(env, plot_failure, s). nat (num_epoch s - epoch s))"
    by simp
qed

text \<open>
  \<^verbatim>\<open>create_gif\<close> reads every saved plot and hands the frames to
  \<^verbatim>\<open>imageio.mimsave\<close>, which writes the animation. When no plot has been saved the
  list of frames is empty: nothing is read, and \<^verbatim>\<open>mimsave\<close> raises instead of
  writing a file (recorded here as \<^verbatim>\<open>ValueError\<close>).
  \<^verbatim>\<open>plot_losses\<close> calls \<^verbatim>\<open>loss.detach().numpy()\<close> on every recorded loss, which
  exists on a tensor only, then saves and shows the figure.
\<close>

definition create_gif :: "'w trainer \<Rightarrow> event list \<times> (py_error + unit)" where
  "create_gif s =
     (if tsne_plots s = [] then ([], Inl ValueError)
      else (map ImRead (tsne_plots s)
            @ [MimSave (save_name s @ ''_latent_space_evolution.gif'') (tsne_plots s)], Inr ()))"

fun detach_all :: "pyval list \<Rightarrow> py_error + real list" where
  "detach_all [] = Inr []"
| "detach_all (v # vs) =
     (if is_tensor v
      then (case detach_all vs of Inl e \<Rightarrow> Inl e | Inr xs \<Rightarrow> Inr (py_num v # xs))
      else Inl AttributeError)"

definition plot_losses :: "'w trainer \<Rightarrow> event list \<times> (py_error + unit)" where
  "plot_losses s =
     (case detach_all (contrast_losses s) of
        Inl e \<Rightarrow> ([], Inl e)
      | Inr c \<Rightarrow>
          (case detach_all (classification_losses s) of
             Inl e \<Rightarrow> ([], Inl e)
           | Inr k \<Rightarrow>
               (case detach_all (reconstruction_losses s) of
                  Inl e \<Rightarrow> ([], Inl e)
                | Inr r \<Rightarrow>
                    (case detach_all (total_losses s) of
                       Inl e \<Rightarrow> ([], Inl e)
                     | Inr t \<Rightarrow> ([SaveFig ''losses_plot.png'', PltShow], Inr ())))))"

text \<open>
  \<^verbatim>\<open>train\<close> up to its last statement: the start of the two datasets, the loop, their
  shutdown, the saved models, the animation and the plot of the losses. An exception
  of the loop, of \<^verbatim>\<open>create_gif\<close> or of \<^verbatim>\<open>plot_losses\<close> ends the call at that
  point.
\<close>

definition train_body ::
  "'w env \<Rightarrow> (int \<Rightarrow> py_error option) \<Rightarrow> 'w trainer
     \<Rightarrow> 'w trainer \<times> event list \<times> (py_error + unit)" where
  "train_body env plot_failure s =
     (let ev0 = [ProgressWrite ''Start training'', DatasetStart TrainSet, DatasetStart TestSet, ModelTrain]
      in case train_loop env plot_failure (s\<lparr>model_training := True\<rparr>) of
           (s1, ev1, Inl e) \<Rightarrow> (s1, ev0 @ ev1, Inl e)
         | (s1, ev1, Inr u) \<Rightarrow>
             (let ev2 = [DatasetShutdown TrainSet, DatasetShutdown TestSet,
                         ProgressWrite ''Finish training'',
                         TorchSave (save_name s1),
                         TorchSave (str_replace ''.pth'' ''_reconstruction.pth'' (save_name s1))]
              in case create_gif s1 of
                   (evg, Inl e) \<Rightarrow> (s1, ev0 @ ev1 @ ev2 @ evg, Inl e)
                 | (evg, Inr g) \<Rightarrow>
                     (case plot_losses s1 of
                        (ev3, Inl e) \<Rightarrow> (s1, ev0 @ ev1 @ ev2 @ evg @ ev3, Inl e)
                      | (ev3, Inr v) \<Rightarrow> (s1, ev0 @ ev1 @ ev2 @ evg @ ev3, Inr ()))))"

text \<open>\<^verbatim>\<open>train\<close>: the body, then \<^verbatim>\<open>return self.acc_dict['best_test_acc']\<close>.\<close>

definition train ::
  "'w env \<Rightarrow> (int \<Rightarrow> py_error option) \<Rightarrow> 'w trainer
     \<Rightarrow> 'w trainer \<times> event list \<times> (py_error + pyval)" where
  "train env plot_failure s =
     (case train_body env plot_failure s of
        (s1, ev, Inl e) \<Rightarrow> (s1, ev, Inl e)
      | (s1, ev, Inr u) \<Rightarrow>
          (case lookup (acc_dict s1) ''best_test_acc'' of
             Inl e \<Rightarrow> (s1, ev, Inl e)
           | Inr v \<Rightarrow> (s1, ev, Inr v)))"

subsection \<open>A small concrete run\<close>

text \<open>
  An encoder whose bottleneck has one sample, two channels and one position; a decoder
  that returns one voxel; constant losses (\<open>1/2\<close> for L1, \<open>1/4\<close> for SSIM, \<open>3\<close> for the
  contrastive loss); an optimizer that leaves the weights alone; a loader with one batch.
\<close>

definition ex_l4 :: "real tensor" where
  "ex_l4 = \<lparr>shape = [1, 2, 1, 1, 1], data = [1, 2]\<rparr>"

definition ex_voxel :: "real tensor" where
  "ex_voxel = \<lparr>shape = [1, 1, 1, 1, 1], data = [0]\<rparr>"

definition ex_batch :: batch where
  "ex_batch = \<lparr>batch_image = ex_voxel, batch_roi_label = [0], batch_scanner_label = [0]\<rparr>"

definition ex_env :: "unit env" where
  "ex_env = \<lparr>swinViT = (\<lambda>training imgs. [ex_voxel, ex_voxel, ex_voxel, ex_voxel, ex_l4]),
              reconstruct = (\<lambda>w x. Inr ex_voxel),
              l1_loss = (\<lambda>a b. 1 / 2),
              ssim = (\<lambda>a b. 1 / 4),
              contrast_loss = (\<lambda>embs labs. 3),
              optimizer_step = (\<lambda>w x target. w),
              train_loader = (\<lambda>e. [ex_batch]),
              plot_loader = (\<lambda>e. [ex_batch])\<rparr>"

definition ex_trainer :: "unit trainer" where
  "ex_trainer = Train_init 1 1 ''m.pth'' ()"

definition no_failure :: "int \<Rightarrow> py_error option" where
  "no_failure e = None"

text \<open>
  The two parts into which \<^verbatim>\<open>train_step\<close> splits \<open>ex_l4\<close> for
  \<^verbatim>\<open>contrastive_latentsize = 1\<close>, and the list \<^verbatim>\<open>nlatents\<close> it builds.
\<close>

definition ex_contrastive_part :: "real tensor" where
  "ex_contrastive_part = \<lparr>shape = [1, 1, 1, 1, 1], data = [1]\<rparr>"

definition ex_bottleneck :: "real tensor" where
  "ex_bottleneck = \<lparr>shape = [1, 1, 1, 1, 1], data = [2]\<rparr>"

definition ex_nlatents :: "real tensor list" where
  "ex_nlatents = [ex_voxel, ex_voxel, ex_voxel, ex_voxel, ex_contrastive_part]"

subsection \<open>What a run is measured against\<close>

text \<open>
  The events that touch the cached training dataset: its \<^verbatim>\<open>start\<close>,
  \<^verbatim>\<open>update_cache\<close> and \<^verbatim>\<open>shutdown\<close>, and every batch drawn from it.
\<close>

fun train_cache_event :: "event \<Rightarrow> bool" where
  "train_cache_event (DatasetStart d) = (d = TrainSet)"
| "train_cache_event (DatasetUpdateCache d) = (d = TrainSet)"
| "train_cache_event (DatasetShutdown d) = (d = TrainSet)"
| "train_cache_event (FetchBatch d) = (d = TrainSet)"
| "train_cache_event e = False"

text \<open>
  The order in which the loop is expected to touch the training dataset from epoch \<open>e\<close>
  up to \<open>n\<close>: in each epoch the batches of the epoch, then one \<^verbatim>\<open>update_cache\<close>,
  then, when the new epoch number is a multiple of five, the batches drawn for the plot.
\<close>

function expected_lifecycle :: "'w env \<Rightarrow> int \<Rightarrow> int \<Rightarrow> event list" where
  "expected_lifecycle env e n =
     (if e < n
      then map (\<lambda>b. FetchBatch TrainSet) (train_loader env e) @
           [DatasetUpdateCache TrainSet] @
           (if (e + 1) mod 5 = 0 then map (\<lambda>b. FetchBatch TrainSet) (plot_loader env (e + 1)) else []) @
           expected_lifecycle env (e + 1) n
      else [])"
  by pat_completeness auto
termination
  by (relation "measure (\<lambda>(env, e, n). nat (n - e))") auto

text \<open>
  The events that exist only because of the plot: the line and the file of a plot that
  succeeded, the line of one that failed.
\<close>

fun plot_output :: "event \<Rightarrow> bool" where
  "plot_output (Print line) = True"
| "plot_output (SaveFig path) = True"
| "plot_output (PrintErrorPlotting e) = True"
| "plot_output e = False"

text \<open>A failure of the plot in epoch 5 only, and a trainer that runs six epochs.\<close>

definition failure_at_5 :: "int \<Rightarrow> py_error option" where
  "failure_at_5 e = (if e = 5 then Some RuntimeError else None)"

definition ex_trainer6 :: "unit trainer" where
  "ex_trainer6 = Train_init 6 1 ''m.pth'' ()"

text \<open>
  A trainer that runs no epoch at all, so that \<^verbatim>\<open>train\<close> saves no plot; and the same
  trainer after one call of \<^verbatim>\<open>plot_latent_space(0)\<close>, made before \<^verbatim>\<open>train\<close>: it
  holds one saved plot and no recorded loss.
\<close>

definition ex_trainer0 :: "unit trainer" where
  "ex_trainer0 = Train_init 0 1 ''m.pth'' ()"

definition ex_trainer_plotted :: "unit trainer" where
  "ex_trainer_plotted = fst (plot_latent_space ex_env no_failure ex_trainer0 0)"

text \<open>The events of a run that are not output of the plot.\<close>

definition without_plot_output :: "event list \<Rightarrow> event list" where
  "without_plot_output ev = filter (\<lambda>e. \<not> plot_output e) ev"

text \<open>A trainer whose split raises: it asks for five contrastive channels of two.\<close>

definition ex_trainer_bad :: "unit trainer" where
  "ex_trainer_bad = Train_init 1 5 ''m.pth'' ()"

section \<open>The feature dump (harmonization/torch_oscar.py)\<close>

text \<open>
  A value written to a cell of the CSV file: a string, a number or a list of numbers.
  A collated inference batch holds the image, the dictionary \<^verbatim>\<open>batch["info"]\<close> from
  field name to the list of values of the samples, and the list \<^verbatim>\<open>batch["roi_label"]\<close>.
\<close>

datatype csv_value = Str string | Num real | NumList "real list"

record infer_batch =
  ib_image :: "real tensor"
  ib_info :: "string \<rightharpoonup> csv_value list"
  ib_roi_label :: "csv_value list"

text \<open>
  The converted network, the five field names imported from
  \<^verbatim>\<open>qa4iqi_extraction.constants\<close> (a module that is not part of the sources), and the
  batches the loader yields are parameters.
\<close>

record infer_env =
  pytorch_model :: "real tensor \<Rightarrow> real tensor"
  SERIES_NUMBER_FIELD :: string
  SERIES_DESCRIPTION_FIELD :: string
  MANUFACTURER_MODEL_NAME_FIELD :: string
  MANUFACTURER_FIELD :: string
  SLICE_THICKNESS_FIELD :: string
  dataload :: "infer_batch list"

definition fieldnames :: "string list" where
  "fieldnames = [''SeriesNumber'', ''deepfeatures'', ''ROI'', ''SeriesDescription'',
                 ''ManufacturerModelName'', ''Manufacturer'', ''SliceThickness'']"

text \<open>\<^verbatim>\<open>xs[0]\<close> and \<^verbatim>\<open>batch["info"][field][0]\<close>.\<close>

definition first_of :: "'b list \<Rightarrow> py_error + 'b" where
  "first_of xs = (case xs of [] \<Rightarrow> Inl IndexError | x # rest \<Rightarrow> Inr x)"

definition info_first :: "infer_batch \<Rightarrow> string \<Rightarrow> py_error + csv_value" where
  "info_first batch field =
     (case lookup (ib_info batch) field of Inl e \<Rightarrow> Inl e | Inr vs \<Rightarrow> first_of vs)"

text \<open>
  The body of the loop up to \<^verbatim>\<open>writer.writerow\<close>: the image is viewed as
  \<^verbatim>\<open>(-1, 1, 64, 64, 32)\<close>, the network is applied, and the dictionary \<^verbatim>\<open>record\<close> is
  built, its entries evaluated in the order in which they are written.
\<close>

definition inference_record :: "infer_env \<Rightarrow> infer_batch \<Rightarrow> py_error + (string \<times> csv_value) list" where
  "inference_record env batch =
     (case torch_view_infer (ib_image batch) [1, 64, 64, 32] of
        Inl e \<Rightarrow> Inl e
      | Inr img \<Rightarrow>
          (let features = pytorch_model env img;
               latentrep = data features
           in case info_first batch (SERIES_NUMBER_FIELD env) of
                Inl e \<Rightarrow> Inl e
              | Inr series_number \<Rightarrow>
                  (case first_of (ib_roi_label batch) of
                     Inl e \<Rightarrow> Inl e
                   | Inr roi \<Rightarrow>
                       (case info_first batch (SERIES_DESCRIPTION_FIELD env) of
                          Inl e \<Rightarrow> Inl e
                        | Inr series_description \<Rightarrow>
                            (case info_first batch (MANUFACTURER_MODEL_NAME_FIELD env) of
                               Inl e \<Rightarrow> Inl e
                             | Inr model_name \<Rightarrow>
                                 (case info_first batch (MANUFACTURER_FIELD env) of
                                    Inl e \<Rightarrow> Inl e
                                  | Inr manufacturer \<Rightarrow>
                                      (case info_first batch (SLICE_THICKNESS_FIELD env) of
                                         Inl e \<Rightarrow> Inl e
                                       | Inr slice_thickness \<Rightarrow>
                                           Inr [(''SeriesNumber'', series_number),
                                                (''deepfeatures'', NumList latentrep),
                                                (''ROI'', roi),
                                                (''SeriesDescription'', series_description),
                                                (''ManufacturerModelName'', model_name),
                                                (''Manufacturer'', manufacturer),
                                                (''SliceThickness'', slice_thickness)])))))))"

text \<open>
  \<^verbatim>\<open>csv.DictWriter(csvfile, fieldnames=names)\<close>: \<^verbatim>\<open>writeheader\<close> writes the names,
  \<^verbatim>\<open>writerow\<close> raises on a key that is not a field name and writes the values in the
  order of the names, an empty string for a name without value.
\<close>

definition dict_writer_header :: "string list \<Rightarrow> csv_value list" where
  "dict_writer_header names = map Str names"

definition dict_writer_row :: "string list \<Rightarrow> (string \<times> csv_value) list \<Rightarrow> py_error + csv_value list" where
  "dict_writer_row names rowdict =
     (if list_ex (\<lambda>key. key \<notin> set names) (map fst rowdict) then Inl ValueError
      else Inr (map (\<lambda>name. case map_of rowdict name of None \<Rightarrow> Str [] | Some v \<Rightarrow> v) names))"

text \<open>The loop over the batches: the rows written, and whether an exception ended it.\<close>

fun inference_loop :: "infer_env \<Rightarrow> infer_batch list \<Rightarrow> csv_value list list \<times> (py_error + unit)" where
  "inference_loop env [] = ([], Inr ())"
| "inference_loop env (batch # rest) =
     (case inference_record env batch of
        Inl e \<Rightarrow> ([], Inl e)
      | Inr rowdict \<Rightarrow>
          (case dict_writer_row fieldnames rowdict of
             Inl e \<Rightarrow> ([], Inl e)
           | Inr row \<Rightarrow>
               (case inference_loop env rest of (rows, r) \<Rightarrow> (row # rows, r))))"

text \<open>
  \<^verbatim>\<open>run_inference\<close>, from the opening of the file on: the name of the file, its rows,
  and whether the function returned. The calls on the dataset and the printed lines are
  left out.
\<close>

definition run_inference :: "infer_env \<Rightarrow> string \<times> csv_value list list \<times> (py_error + unit)" where
  "run_inference env =
     (case inference_loop env (dataload env) of
        (rows, r) \<Rightarrow> (''torch_normalized_deepfeaturesoscar.csv'', dict_writer_header fieldnames # rows, r))"

text \<open>Two batches of one sample each, with the field names of the DICOM headers.\<close>

definition ex_image :: "real tensor" where
  "ex_image = \<lparr>shape = [1, 1, 64, 64, 32], data = replicate 131072 0\<rparr>"

definition ex_infer_batch :: "string \<Rightarrow> infer_batch" where
  "ex_infer_batch roi =
     \<lparr>ib_image = ex_image,
      ib_info = [''SeriesNumber'' \<mapsto> [Num 3], ''SeriesDescription'' \<mapsto> [Str ''A1 x''],
                 ''ManufacturerModelName'' \<mapsto> [Str ''m''], ''Manufacturer'' \<mapsto> [Str ''v''],
                 ''SliceThickness'' \<mapsto> [Num 2]],
      ib_roi_label = [Str roi]\<rparr>"

definition ex_infer_env :: infer_env where
  "ex_infer_env =
     \<lparr>pytorch_model = (\<lambda>img. \<lparr>shape = [1, 2], data = [1 / 2, 1 / 4]\<rparr>),
      SERIES_NUMBER_FIELD = ''SeriesNumber'',
      SERIES_DESCRIPTION_FIELD = ''SeriesDescription'',
      MANUFACTURER_MODEL_NAME_FIELD = ''ManufacturerModelName'',
      MANUFACTURER_FIELD = ''Manufacturer'',
      SLICE_THICKNESS_FIELD = ''SliceThickness'',
      dataload = [ex_infer_batch ''cyst1'', ex_infer_batch ''normal1'']\<rparr>"


section \<open>Verified properties\<close>

subsection \<open>The split below the threshold\<close>

text \<open>
  C10. Whenever \<^verbatim>\<open>test_size <= 0.00000001\<close>, \<^verbatim>\<open>create_datasets\<close> returns the input
  list itself as the training set (same elements, same order, no \<^verbatim>\<open>group_id\<close> set on
  any item, the caller's list unchanged) and the empty list as the test set. Nothing is
  printed and the result does not depend on the splitter: it is the same with a splitter
  that always raises.
\<close>

theorem create_datasets_no_split:
  assumes "test_size \<le> test_size_threshold"
  shows "create_datasets L data_list test_size seed = Inr ((data_list, []), data_list, [])"
  using assms by (simp add: create_datasets_def)

theorem create_datasets_no_split_witness:
  "(0::real) \<le> test_size_threshold \<and>
   create_datasets failing_libs ex_items 0 42 = Inr ((ex_items, []), ex_items, [])"
proof -
  have h: "(0::real) \<le> test_size_threshold"
    by (simp add: test_size_threshold_def)
  show ?thesis
    using h create_datasets_no_split [OF h] by simp
qed

subsection \<open>Group-aware split\<close>



lemma gm_ok_inj:
  assumes "gm_ok gm" "map_of gm k = Some g" "map_of gm k' = Some g"
  shows "k = k'"
proof -
  have "distinct (map snd gm)" using assms(1) by (simp add: gm_ok_def)
  then have inj: "inj_on snd (set gm)" by (simp add: distinct_map)
  have "(k, g) \<in> set gm" "(k', g) \<in> set gm"
    using assms(2,3) by (auto dest: map_of_SomeD)
  with inj_onD [OF inj, of "(k, g)" "(k', g)"] show ?thesis by simp
qed

lemma gm_ok_extend:
  assumes "gm_ok gm"
  shows "gm_ok (gm @ [(key, length gm)])"
  using assms by (simp add: gm_ok_def)

lemma map_of_extend:
  assumes "map_of gm k = Some g"
  shows "map_of (gm @ [(key, n)]) k = Some g"
  using assms by (simp add: map_add_Some_iff)

lemma map_of_fresh:
  assumes "map_of gm key = None"
  shows "map_of (gm @ [(key, n)]) key = Some n"
  using assms by (simp add: map_add_Some_iff)

lemma group_data_loop_scanner:
  assumes "group_data_loop L Scanner dl gm = Inr (gm', items, gids)" "gm_ok gm"
  shows "gm_ok gm' \<and> (\<forall>k g. map_of gm k = Some g \<longrightarrow> map_of gm' k = Some g) \<and>
         length items = length dl \<and> length gids = length dl \<and>
         (\<forall>i < length dl. map_of gm' (take 2 (SeriesDescription (dl ! i))) = Some (gids ! i) \<and>
                          items ! i = (dl ! i)\<lparr>group_id := Some (gids ! i)\<rparr>)"
  using assms
proof (induction dl arbitrary: gm gm' items gids)
  case Nil
  then show ?case by simp
next
  case (Cons it rest)
  define key where "key = take 2 (SeriesDescription it)"
  define gm1 where "gm1 = (if map_of gm key = None then gm @ [(key, length gm)] else gm)"
  have ok1: "gm_ok gm1"
    using Cons.prems(2) by (simp add: gm1_def gm_ok_extend)
  have ext1: "map_of gm k = Some g \<Longrightarrow> map_of gm1 k = Some g" for k g
    by (simp add: gm1_def map_of_extend)
  obtain g where g: "map_of gm1 key = Some g"
  proof (cases "map_of gm key")
    case None
    then have "map_of gm1 key = Some (length gm)"
      unfolding gm1_def using map_of_fresh [OF None] by simp
    then show ?thesis using that by blast
  next
    case (Some a)
    then have "map_of gm1 key = Some a" by (simp add: gm1_def)
    then show ?thesis using that by blast
  qed
  from Cons.prems(1) g obtain items' gids' where
    rec: "group_data_loop L Scanner rest gm1 = Inr (gm', items', gids')"
    and items: "items = it\<lparr>group_id := Some g\<rparr> # items'"
    and gids: "gids = g # gids'"
    by (auto simp: group_key_def key_def gm1_def Let_def split: sum.splits option.splits if_splits)
  note IH = Cons.IH [OF rec ok1]
  have keep: "map_of gm' key = Some g" using IH g by blast
  show ?case
  proof (intro conjI allI impI)
    show "gm_ok gm'" using IH by blast
    show "map_of gm' k = Some g'" if "map_of gm k = Some g'" for k g'
      using IH ext1 [OF that] by blast
    show "length items = length (it # rest)" using IH items by simp
    show "length gids = length (it # rest)" using IH gids by simp
    show "map_of gm' (take 2 (SeriesDescription ((it # rest) ! i))) = Some (gids ! i)"
      if "i < length (it # rest)" for i
      using that IH keep gids by (cases i) (auto simp: key_def)
    show "items ! i = ((it # rest) ! i)\<lparr>group_id := Some (gids ! i)\<rparr>"
      if "i < length (it # rest)" for i
      using that IH items gids by (cases i) auto
  qed
qed

lemma select_items_Inr:
  assumes "select_items xs idx = Inr ys"
  shows "ys = map ((!) xs) idx \<and> (\<forall>i \<in> set idx. i < length xs)"
  using assms
  by (induction idx arbitrary: ys) (auto split: if_splits sum.splits)

lemma group_data_scanner:
  assumes "group_data L dl Scanner = Inr (groups, dl', out)"
  shows "length dl' = length dl \<and> length groups = length dl \<and>
         (\<forall>i < length dl. dl' ! i = (dl ! i)\<lparr>group_id := Some (groups ! i)\<rparr>) \<and>
         (\<forall>i < length dl. \<forall>j < length dl.
            groups ! i = groups ! j \<longleftrightarrow> scanner_key (dl ! i) = scanner_key (dl ! j))"
proof -
  from assms obtain gm where
    loop: "group_data_loop L Scanner dl [] = Inr (gm, dl', groups)"
    by (auto simp: group_data_def split: sum.splits)
  have ok0: "gm_ok []" by (simp add: gm_ok_def)
  note P = group_data_loop_scanner [OF loop ok0]
  have "groups ! i = groups ! j \<longleftrightarrow> scanner_key (dl ! i) = scanner_key (dl ! j)"
    if "i < length dl" "j < length dl" for i j
  proof
    assume "groups ! i = groups ! j"
    with P that show "scanner_key (dl ! i) = scanner_key (dl ! j)"
      unfolding scanner_key_def by (metis gm_ok_inj)
  next
    assume "scanner_key (dl ! i) = scanner_key (dl ! j)"
    with P that show "groups ! i = groups ! j"
      unfolding scanner_key_def by (metis option.inject)
  qed
  with P show ?thesis by blast
qed

lemma split_is_group_aware:
  assumes len: "length dl' = length groups"
    and key: "\<forall>i < length dl'. \<forall>j < length dl'.
            groups ! i = groups ! j \<longleftrightarrow> scanner_key (dl' ! i) = scanner_key (dl' ! j)"
    and cover: "set tr \<union> set te = {..<length groups}"
    and disj: "\<forall>i \<in> set tr. \<forall>j \<in> set te. groups ! i \<noteq> groups ! j"
  shows "group_aware_split dl' (map ((!) dl') tr) (map ((!) dl') te)"
proof -
  have "set (map ((!) dl') tr) \<union> set (map ((!) dl') te) = (!) dl' ` {..<length dl'}"
    using cover len by (simp add: image_Un [symmetric])
  also have "\<dots> = set dl'"
    by (auto simp: set_conv_nth)
  finally have c: "set (map ((!) dl') tr) \<union> set (map ((!) dl') te) = set dl'" .
  have d: "scanner_key x \<noteq> scanner_key y"
    if "x \<in> set (map ((!) dl') tr)" "y \<in> set (map ((!) dl') te)" for x y
  proof -
    from that obtain i j where ij: "i \<in> set tr" "j \<in> set te" "x = dl' ! i" "y = dl' ! j"
      by auto
    with cover len have "i < length dl'" "j < length dl'" by auto
    with key disj ij show ?thesis by blast
  qed
  from c d show ?thesis unfolding group_aware_split_def by blast
qed

lemma scanner_key_group_id [simp]: "scanner_key (it\<lparr>group_id := g\<rparr>) = scanner_key it"
  by (simp add: scanner_key_def)

lemma create_datasets_split:
  assumes c: "splitter_contract L"
    and r: "create_datasets L dl test_size seed = Inr ((train_data, test_data), dl', out)"
  shows "group_aware_split dl' train_data test_data \<and> map scanner_key dl' = map scanner_key dl"
proof (cases "test_size \<le> test_size_threshold")
  case True
  with r have "train_data = dl" "test_data = []" "dl' = dl"
    by (auto simp: create_datasets_def)
  then show ?thesis by (simp add: group_aware_split_def)
next
  case False
  with r obtain groups out0 tr te where
    gd: "group_data L dl Scanner = Inr (groups, dl', out0)"
    and sp: "group_shuffle_split L test_size seed groups = Some (tr, te)"
    and s1: "select_items dl' tr = Inr train_data"
    and s2: "select_items dl' te = Inr test_data"
    by (auto simp: create_datasets_def split: sum.splits option.splits prod.splits)
  note G = group_data_scanner [OF gd]
  from c sp have cover: "set tr \<union> set te = {..<length groups}"
    and disj: "\<forall>i \<in> set tr. \<forall>j \<in> set te. groups ! i \<noteq> groups ! j"
    unfolding splitter_contract_def by blast+
  have len: "length dl' = length groups" using G by simp
  have key: "\<forall>i < length dl'. \<forall>j < length dl'.
            groups ! i = groups ! j \<longleftrightarrow> scanner_key (dl' ! i) = scanner_key (dl' ! j)"
    using G by simp
  have same: "map scanner_key dl' = map scanner_key dl"
    using G by (simp add: list_eq_iff_nth_eq)
  from select_items_Inr [OF s1] select_items_Inr [OF s2]
  have "train_data = map ((!) dl') tr" "test_data = map ((!) dl') te" by simp_all
  with split_is_group_aware [OF len key cover disj] same show ?thesis by simp
qed


lemma group_data_loop_scanner_total:
  "group_data_loop L Scanner dl gm \<noteq> Inl e"
proof (induction dl arbitrary: gm)
  case Nil
  show ?case by simp
next
  case (Cons it rest)
  define key where "key = take 2 (SeriesDescription it)"
  define gm1 where "gm1 = (if map_of gm key = None then gm @ [(key, length gm)] else gm)"
  obtain g where g: "map_of gm1 key = Some g"
  proof (cases "map_of gm key")
    case None
    then have "map_of gm1 key = Some (length gm)"
      unfolding gm1_def using map_of_fresh [OF None] by simp
    then show ?thesis using that by blast
  next
    case (Some a)
    then have "map_of gm1 key = Some a" by (simp add: gm1_def)
    then show ?thesis using that by blast
  qed
  have "group_data_loop L Scanner (it # rest) gm =
          (case group_data_loop L Scanner rest gm1 of
             Inl e \<Rightarrow> Inl e
           | Inr (gm', items, group_ids) \<Rightarrow>
               Inr (gm', it\<lparr>group_id := Some g\<rparr> # items, g # group_ids))"
    using g by (simp add: group_key_def Let_def key_def [symmetric] gm1_def [symmetric])
  with Cons.IH [of gm1] show ?case
    by (auto split: sum.splits)
qed

lemma swin_group_data_loop_eq:
  "swin_group_data_loop L m dl gm =
     (case group_data_loop L m dl gm of
        Inl e \<Rightarrow> Inl e | Inr (gm', items, gids) \<Rightarrow> Inr items)"
  by (induction dl arbitrary: gm)
     (auto simp: Let_def split: sum.splits option.splits)

lemma group_ids_of_loop:
  assumes "group_data_loop L m dl gm = Inr (gm', items, gids)"
  shows "group_ids_of items = Inr gids"
  using assms
  by (induction dl arbitrary: gm gm' items gids)
     (auto simp: Let_def split: sum.splits option.splits if_splits)

lemma select_items_total:
  assumes "\<forall>i \<in> set idx. i < length xs"
  shows "select_items xs idx = Inr (map ((!) xs) idx)"
  using assms by (induction idx) auto

lemma create_datasets_only_ValueError:
  assumes c: "splitter_contract L"
    and r: "create_datasets L dl test_size seed = Inl e"
  shows "e = ValueError"
proof -
  from r have big: "\<not> test_size \<le> test_size_threshold"
    by (auto simp: create_datasets_def)
  obtain gm dl' groups where loop: "group_data_loop L Scanner dl [] = Inr (gm, dl', groups)"
    using group_data_loop_scanner_total [of L dl "[]"]
    by (cases "group_data_loop L Scanner dl []") auto
  then have gd: "group_data L dl Scanner = Inr (groups, dl', [GroupsCorrespondance gm])"
    by (simp add: group_data_def)
  note G = group_data_scanner [OF gd]
  show ?thesis
  proof (cases "group_shuffle_split L test_size seed groups")
    case None
    with r big gd show ?thesis by (simp add: create_datasets_def)
  next
    case (Some p)
    obtain tr te where p: "p = (tr, te)" by (cases p)
    from c Some p have cover: "set tr \<union> set te = {..<length groups}"
      unfolding splitter_contract_def by blast
    then have "\<forall>i \<in> set tr. i < length groups" "\<forall>i \<in> set te. i < length groups"
      by auto
    with G have "select_items dl' tr = Inr (map ((!) dl') tr)"
      "select_items dl' te = Inr (map ((!) dl') te)"
      "select_items groups tr = Inr (map ((!) groups) tr)"
      "select_items groups te = Inr (map ((!) groups) te)"
      by (simp_all add: select_items_total)
    with r big gd Some p show ?thesis by (simp add: create_datasets_def)
  qed
qed

lemma swin_create_datasets_split:
  assumes c: "splitter_contract L"
    and r: "swin_create_datasets L dl test_size seed = Inr ((train_data, test_data), dl')"
  shows "group_aware_split dl' train_data test_data \<and> map scanner_key dl' = map scanner_key dl"
proof -
  from r obtain groups tr te where
    sg: "swin_group_data L dl Scanner = Inr dl'"
    and gi: "group_ids_of dl' = Inr groups"
    and sp: "group_shuffle_split L test_size seed groups = Some (tr, te)"
    and s1: "select_items dl' tr = Inr train_data"
    and s2: "select_items dl' te = Inr test_data"
    by (auto simp: swin_create_datasets_def split: sum.splits option.splits prod.splits)
  from sg obtain gm gids where loop: "group_data_loop L Scanner dl [] = Inr (gm, dl', gids)"
    by (auto simp: swin_group_data_def swin_group_data_loop_eq split: sum.splits)
  from group_ids_of_loop [OF loop] gi have "gids = groups" by simp
  with loop have gd: "group_data L dl Scanner = Inr (groups, dl', [GroupsCorrespondance gm])"
    by (simp add: group_data_def)
  note G = group_data_scanner [OF gd]
  from c sp have cover: "set tr \<union> set te = {..<length groups}"
    and disj: "\<forall>i \<in> set tr. \<forall>j \<in> set te. groups ! i \<noteq> groups ! j"
    unfolding splitter_contract_def by blast+
  have len: "length dl' = length groups" using G by simp
  have key: "\<forall>i < length dl'. \<forall>j < length dl'.
            groups ! i = groups ! j \<longleftrightarrow> scanner_key (dl' ! i) = scanner_key (dl' ! j)"
    using G by simp
  have same: "map scanner_key dl' = map scanner_key dl"
    using G by (simp add: list_eq_iff_nth_eq)
  from select_items_Inr [OF s1] select_items_Inr [OF s2]
  have "train_data = map ((!) dl') tr" "test_data = map ((!) dl') te" by simp_all
  with split_is_group_aware [OF len key cover disj] same show ?thesis by simp
qed

lemma swin_create_datasets_only_ValueError:
  assumes c: "splitter_contract L"
    and r: "swin_create_datasets L dl test_size seed = Inl e"
  shows "e = ValueError"
proof -
  obtain gm dl' groups where loop: "group_data_loop L Scanner dl [] = Inr (gm, dl', groups)"
    using group_data_loop_scanner_total [of L dl "[]"]
    by (cases "group_data_loop L Scanner dl []") auto
  then have gd: "group_data L dl Scanner = Inr (groups, dl', [GroupsCorrespondance gm])"
    by (simp add: group_data_def)
  note G = group_data_scanner [OF gd]
  have sg: "swin_group_data L dl Scanner = Inr dl'"
    using loop by (simp add: swin_group_data_def swin_group_data_loop_eq)
  note gi = group_ids_of_loop [OF loop]
  show ?thesis
  proof (cases "group_shuffle_split L test_size seed groups")
    case None
    with r sg gi show ?thesis by (simp add: swin_create_datasets_def)
  next
    case (Some p)
    obtain tr te where p: "p = (tr, te)" by (cases p)
    from c Some p have cover: "set tr \<union> set te = {..<length groups}"
      unfolding splitter_contract_def by blast
    then have "\<forall>i \<in> set tr. i < length groups" "\<forall>i \<in> set te. i < length groups"
      by auto
    with G have "select_items dl' tr = Inr (map ((!) dl') tr)"
      "select_items dl' te = Inr (map ((!) dl') te)"
      by (simp_all add: select_items_total)
    with r sg gi Some p show ?thesis by (simp add: swin_create_datasets_def)
  qed
qed

lemma ex_libs_contract: "splitter_contract ex_libs"
  unfolding splitter_contract_def ex_libs_def
  by (auto simp: Let_def split: if_splits)

text \<open>
  C2. For every \<^verbatim>\<open>data_list\<close> and every \<^verbatim>\<open>test_size\<close> strictly between 0 and 1,
  whenever \<^verbatim>\<open>create_datasets\<close> returns \<open>(train_data, test_data)\<close>, every item of
  the list is on one of the two sides and no acquisition group (items with the same
  first two characters of \<^verbatim>\<open>SeriesDescription\<close>) has members on both; the only
  exception the function can raise is the splitter's \<^verbatim>\<open>ValueError\<close>. The same holds
  of the earlier \<^verbatim>\<open>create_datasets\<close> of swin_contrastive/train.py. The splitter is
  scikit-learn's, assumed to meet its documented contract on group numbers; what is proved
  of the repository's code is that \<^verbatim>\<open>group_data\<close> gives two items the same group
  number exactly when their keys agree, and that the index arrays are turned into the
  two lists without mixing them.
\<close>

theorem create_datasets_group_aware:
  assumes "0 < test_size" and "test_size < 1" and "splitter_contract L"
  shows "(\<forall>train_data test_data dl' out.
            create_datasets L data_list test_size seed = Inr ((train_data, test_data), dl', out) \<longrightarrow>
              group_aware_split dl' train_data test_data \<and>
              map scanner_key dl' = map scanner_key data_list) \<and>
         (\<forall>e. create_datasets L data_list test_size seed = Inl e \<longrightarrow> e = ValueError) \<and>
         (\<forall>train_data test_data dl'.
            swin_create_datasets L data_list test_size seed = Inr ((train_data, test_data), dl') \<longrightarrow>
              group_aware_split dl' train_data test_data \<and>
              map scanner_key dl' = map scanner_key data_list) \<and>
         (\<forall>e. swin_create_datasets L data_list test_size seed = Inl e \<longrightarrow> e = ValueError)"
proof (intro conjI allI impI)
  fix train_data test_data dl' out
  assume "create_datasets L data_list test_size seed = Inr ((train_data, test_data), dl', out)"
  from create_datasets_split [OF assms(3) this]
  show "group_aware_split dl' train_data test_data" "map scanner_key dl' = map scanner_key data_list"
    by simp_all
next
  fix e
  assume "create_datasets L data_list test_size seed = Inl e"
  from create_datasets_only_ValueError [OF assms(3) this] show "e = ValueError" .
next
  fix train_data test_data dl'
  assume "swin_create_datasets L data_list test_size seed = Inr ((train_data, test_data), dl')"
  from swin_create_datasets_split [OF assms(3) this]
  show "group_aware_split dl' train_data test_data" "map scanner_key dl' = map scanner_key data_list"
    by simp_all
next
  fix e
  assume "swin_create_datasets L data_list test_size seed = Inl e"
  from swin_create_datasets_only_ValueError [OF assms(3) this] show "e = ValueError" .
qed


lemma ex_create_datasets:
  "create_datasets ex_libs ex_items (1/5) 42 =
     Inr (([\<lparr>SeriesDescription = ''B1 y'', group_id = Some 1, other = ()\<rparr>],
           [\<lparr>SeriesDescription = ''A1 x'', group_id = Some 0, other = ()\<rparr>,
            \<lparr>SeriesDescription = ''A1 z'', group_id = Some 0, other = ()\<rparr>]),
          [\<lparr>SeriesDescription = ''A1 x'', group_id = Some 0, other = ()\<rparr>,
           \<lparr>SeriesDescription = ''B1 y'', group_id = Some 1, other = ()\<rparr>,
           \<lparr>SeriesDescription = ''A1 z'', group_id = Some 0, other = ()\<rparr>],
          [GroupsCorrespondance [(''A1'', 0), (''B1'', 1)],
           NumberOfTrainingSamples 1, NumberOfTestingSamples 2,
           TrainingGroups [1], ValidationGroups [0]])"
  by (simp add: create_datasets_def group_data_def ex_libs_def ex_items_def
      test_size_threshold_def group_key_def Let_def np_unique_def)


lemma ex_swin_create_datasets:
  "swin_create_datasets ex_libs ex_items (1/5) 42 =
     Inr (([\<lparr>SeriesDescription = ''B1 y'', group_id = Some 1, other = ()\<rparr>],
           [\<lparr>SeriesDescription = ''A1 x'', group_id = Some 0, other = ()\<rparr>,
            \<lparr>SeriesDescription = ''A1 z'', group_id = Some 0, other = ()\<rparr>]),
          [\<lparr>SeriesDescription = ''A1 x'', group_id = Some 0, other = ()\<rparr>,
           \<lparr>SeriesDescription = ''B1 y'', group_id = Some 1, other = ()\<rparr>,
           \<lparr>SeriesDescription = ''A1 z'', group_id = Some 0, other = ()\<rparr>])"
  by (simp add: swin_create_datasets_def swin_group_data_def ex_libs_def ex_items_def
      group_key_def Let_def)

theorem create_datasets_group_aware_witness:
  "(0::real) < 1 / 5 \<and> (1::real) / 5 < 1 \<and> splitter_contract ex_libs \<and>
   (\<exists>train_data test_data dl' out.
      create_datasets ex_libs ex_items (1 / 5) 42 = Inr ((train_data, test_data), dl', out) \<and>
      train_data \<noteq> [] \<and> test_data \<noteq> [] \<and> group_aware_split dl' train_data test_data) \<and>
   (\<exists>train_data test_data dl'.
      swin_create_datasets ex_libs ex_items (1 / 5) 42 = Inr ((train_data, test_data), dl') \<and>
      train_data \<noteq> [] \<and> test_data \<noteq> [] \<and> group_aware_split dl' train_data test_data)"
proof -
  have a: "(0::real) < 1 / 5" and b: "(1::real) / 5 < 1" by simp_all
  note T = create_datasets_group_aware [OF a b ex_libs_contract, of ex_items 42]
  from T ex_create_datasets ex_swin_create_datasets a b ex_libs_contract
  show ?thesis by simp
qed

subsection \<open>Runs of equal length\<close>

lemma length_concat_uniform:
  assumes "\<forall>i < m. length (f i) = n"
  shows "length (concat (map f [0..<m])) = m * n"
  using assms by (induction m) simp_all

lemma nth_run:
  assumes "\<forall>i < m. length (f i) = n" and "j < m"
  shows "take n (drop (j * n) (concat (map f [0..<m]))) = f j"
  using assms
proof (induction m)
  case 0
  then show ?case by simp
next
  case (Suc m)
  have len: "length (concat (map f [0..<m])) = m * n"
    using Suc.prems(1) by (simp add: length_concat_uniform)
  show ?case
  proof (cases "j < m")
    case True
    then have "Suc j \<le> m" by simp
    then have "Suc j * n \<le> m * n" by (rule mult_le_mono1)
    then have le: "j * n + n \<le> m * n" by simp
    have "take n (drop (j * n) (concat (map f [0..<m]) @ f m)) =
          take n (drop (j * n) (concat (map f [0..<m])))"
      using le len by simp
    with Suc.IH True Suc.prems(1) show ?thesis by simp
  next
    case False
    with Suc.prems(2) have "j = m" by simp
    with len Suc.prems(1) show ?thesis by simp
  qed
qed

lemma concat_runs:
  assumes "length xs = m * n"
  shows "concat (map (\<lambda>i. take n (drop (i * n) xs)) [0..<m]) = xs"
  using assms
proof (induction m arbitrary: xs)
  case 0
  then show ?case by simp
next
  case (Suc m)
  define ys where "ys = take (m * n) xs"
  have lys: "length ys = m * n" using Suc.prems by (simp add: ys_def)
  have same: "take n (drop (i * n) xs) = take n (drop (i * n) ys)" if "i < m" for i
  proof -
    from that have "Suc i \<le> m" by simp
    then have "Suc i * n \<le> m * n" by (rule mult_le_mono1)
    then have "i * n + n \<le> m * n" by simp
    then show ?thesis
      unfolding ys_def by (simp add: drop_take min_def)
  qed
  have "concat (map (\<lambda>i. take n (drop (i * n) xs)) [0..<m]) =
        concat (map (\<lambda>i. take n (drop (i * n) ys)) [0..<m])"
    using same by (auto intro!: arg_cong [where f = concat])
  also have "\<dots> = ys" using Suc.IH [OF lys] .
  finally have front: "concat (map (\<lambda>i. take n (drop (i * n) xs)) [0..<m]) = take (m * n) xs"
    by (simp add: ys_def)
  have rear: "take n (drop (m * n) xs) = drop (m * n) xs"
    using Suc.prems by simp
  show ?case
    by (simp add: front rear)
qed


subsection \<open>Splitting a tensor along one dimension\<close>

lemma prod_list_update:
  assumes "axis < length sh"
  shows "prod_list (sh[axis := n]) = prod_list (take axis sh) * (n * prod_list (drop (Suc axis) sh))"
  using assms by (simp add: upd_conv_take_nth_drop)

lemma prod_list_at:
  assumes "axis < length sh"
  shows "prod_list sh = prod_list (take axis sh) * (sh ! axis * prod_list (drop (Suc axis) sh))"
proof -
  have "prod_list sh = prod_list (take axis sh @ sh ! axis # drop (Suc axis) sh)"
    using id_take_nth_drop [OF assms] by simp
  then show ?thesis by simp
qed

lemma narrow_run_length:
  assumes wf: "wf_tensor t" and ax: "axis < length (shape t)"
    and fit: "start + len \<le> shape t ! axis"
    and i: "i < prod_list (take axis (shape t))"
  shows "length (take (len * prod_list (drop (Suc axis) (shape t)))
                  (drop ((i * (shape t ! axis) + start) * prod_list (drop (Suc axis) (shape t)))
                     (data t)))
         = len * prod_list (drop (Suc axis) (shape t))"
proof -
  define outer where "outer = prod_list (take axis (shape t))"
  define c where "c = shape t ! axis"
  define inner where "inner = prod_list (drop (Suc axis) (shape t))"
  have len_data: "length (data t) = outer * (c * inner)"
    using wf prod_list_at [OF ax] by (simp add: wf_tensor_def outer_def c_def inner_def)
  from i have "Suc i \<le> outer" by (simp add: outer_def)
  then have "Suc i * c \<le> outer * c" by (rule mult_le_mono1)
  with fit have "i * c + start + len \<le> outer * c" by (simp add: c_def)
  then have "(i * c + start + len) * inner \<le> outer * c * inner" by (rule mult_le_mono1)
  then have "(i * c + start) * inner + len * inner \<le> length (data t)"
    by (simp add: len_data algebra_simps)
  then show ?thesis
    unfolding outer_def c_def inner_def by simp
qed

lemma shape_narrow [simp]: "shape (narrow t axis start len) = (shape t)[axis := len]"
  by (simp add: narrow_def Let_def)

lemma wf_narrow:
  assumes wf: "wf_tensor t" and ax: "axis < length (shape t)"
    and fit: "start + len \<le> shape t ! axis"
  shows "wf_tensor (narrow t axis start len)"
proof -
  have "length (data (narrow t axis start len)) =
        prod_list (take axis (shape t)) * (len * prod_list (drop (Suc axis) (shape t)))"
    unfolding narrow_def Let_def
    using narrow_run_length [OF wf ax fit]
    by (simp add: length_concat_uniform)
  then show ?thesis
    by (simp add: wf_tensor_def prod_list_update [OF ax])
qed

lemma data_narrow_run:
  assumes wf: "wf_tensor t" and ax: "axis < length (shape t)"
    and fit: "start + len \<le> shape t ! axis"
    and i: "i < prod_list (take axis (shape t))"
  shows "take (len * prod_list (drop (Suc axis) (shape t)))
           (drop (i * (len * prod_list (drop (Suc axis) (shape t))))
              (data (narrow t axis start len)))
         = take (len * prod_list (drop (Suc axis) (shape t)))
             (drop ((i * (shape t ! axis) + start) * prod_list (drop (Suc axis) (shape t)))
                (data t))"
  unfolding narrow_def Let_def
  using nth_run [where n = "len * prod_list (drop (Suc axis) (shape t))"
      and m = "prod_list (take axis (shape t))" and j = i
      and f = "\<lambda>i. take (len * prod_list (drop (Suc axis) (shape t)))
                 (drop ((i * (shape t ! axis) + start) * prod_list (drop (Suc axis) (shape t)))
                    (data t))"]
    narrow_run_length [OF wf ax fit] i
  by simp

lemma drop_axis_update:
  assumes "axis < length sh"
  shows "drop axis (sh[axis := n]) = n # drop (Suc axis) sh"
  using assms by (simp add: upd_conv_take_nth_drop)

lemma cat_narrow:
  assumes wf: "wf_tensor t" and ax: "axis < length (shape t)"
    and sum: "n1 + n2 = shape t ! axis"
  shows "torch_cat2 (narrow t axis 0 n1) (narrow t axis n1 n2) axis = t"
proof -
  define outer where "outer = prod_list (take axis (shape t))"
  define c where "c = shape t ! axis"
  define inner where "inner = prod_list (drop (Suc axis) (shape t))"
  have fit1: "0 + n1 \<le> shape t ! axis" and fit2: "n1 + n2 \<le> shape t ! axis"
    using sum by simp_all
  have len_data: "length (data t) = outer * (c * inner)"
    using wf prod_list_at [OF ax] by (simp add: wf_tensor_def outer_def c_def inner_def)
  have run: "take (n1 * inner) (drop (i * (n1 * inner)) (data (narrow t axis 0 n1))) @
             take (n2 * inner) (drop (i * (n2 * inner)) (data (narrow t axis n1 n2)))
             = take (c * inner) (drop (i * (c * inner)) (data t))"
    if "i < outer" for i
  proof -
    from that have i: "i < prod_list (take axis (shape t))" by (simp add: outer_def)
    have a: "take (n1 * inner) (drop (i * (n1 * inner)) (data (narrow t axis 0 n1)))
             = take (n1 * inner) (drop (i * (c * inner)) (data t))"
      using data_narrow_run [OF wf ax fit1 i]
      by (simp add: c_def inner_def mult.assoc)
    have b: "take (n2 * inner) (drop (i * (n2 * inner)) (data (narrow t axis n1 n2)))
             = take (n2 * inner) (drop (n1 * inner) (drop (i * (c * inner)) (data t)))"
      using data_narrow_run [OF wf ax fit2 i]
      by (simp add: c_def inner_def algebra_simps)
    have "c = n1 + n2" using sum by (simp add: c_def)
    then have "c * inner = n1 * inner + n2 * inner"
      by (simp add: add_mult_distrib)
    then show ?thesis
      by (simp add: a b take_add)
  qed
  have "data (torch_cat2 (narrow t axis 0 n1) (narrow t axis n1 n2) axis) =
        concat (map (\<lambda>i. take (n1 * inner) (drop (i * (n1 * inner)) (data (narrow t axis 0 n1))) @
                          take (n2 * inner) (drop (i * (n2 * inner)) (data (narrow t axis n1 n2))))
                    [0..<outer])"
    using ax
    by (simp add: torch_cat2_def Let_def drop_axis_update outer_def inner_def)
  also have "\<dots> = concat (map (\<lambda>i. take (c * inner) (drop (i * (c * inner)) (data t))) [0..<outer])"
    using run by (auto intro!: arg_cong [where f = concat])
  also have "\<dots> = data t"
    using concat_runs [OF len_data] .
  finally have d: "data (torch_cat2 (narrow t axis 0 n1) (narrow t axis n1 n2) axis) = data t" .
  have s: "shape (torch_cat2 (narrow t axis 0 n1) (narrow t axis n1 n2) axis) = shape t"
    using ax sum by (simp add: torch_cat2_def Let_def)
  from d s show ?thesis by simp
qed

text \<open>
  C4. For every well-formed bottleneck tensor with a channel dimension of size \<open>C\<close> and
  every \<^verbatim>\<open>contrastive_latentsize\<close> \<open>k\<close> with \<open>0 \<le> k \<le> C\<close>, the split of
  \<^verbatim>\<open>train_step\<close> succeeds and partitions the channel dimension: the contrastive part
  has exactly \<open>k\<close> channels, the reconstruction part exactly \<open>C - k\<close>, every other
  dimension is unchanged, and concatenating the two parts along the channel dimension
  gives the original tensor back.
\<close>

theorem split_bottleneck_partition:
  assumes "wf_tensor t" and "2 \<le> length (shape t)"
    and "0 \<le> k" and "k \<le> int (shape t ! 1)"
  shows "\<exists>a b. split_bottleneck t k = Inr (a, b) \<and>
           shape a = (shape t)[1 := nat k] \<and>
           shape b = (shape t)[1 := shape t ! 1 - nat k] \<and>
           int (shape a ! 1) = k \<and> int (shape b ! 1) = int (shape t ! 1) - k \<and>
           wf_tensor a \<and> wf_tensor b \<and>
           torch_cat2 a b 1 = t"
proof -
  have ax: "1 < length (shape t)" using assms(2) by simp
  define n1 where "n1 = nat k"
  define n2 where "n2 = shape t ! 1 - nat k"
  have sum: "n1 + n2 = shape t ! 1"
    using assms(3,4) by (simp add: n1_def n2_def)
  have n2: "nat (int (shape t ! 1) - k) = n2"
    using assms(3,4) by (simp add: n2_def nat_diff_distrib')
  have sp: "split_bottleneck t k = Inr (narrow t 1 0 n1, narrow t 1 n1 n2)"
    using assms(2,3,4) n2 by (simp add: split_bottleneck_def torch_split2_def n1_def)
  have w1: "wf_tensor (narrow t 1 0 n1)"
    using wf_narrow [OF assms(1) ax, of 0 n1] sum by simp
  have w2: "wf_tensor (narrow t 1 n1 n2)"
    using wf_narrow [OF assms(1) ax, of n1 n2] sum by simp
  have c1: "int ((shape t)[1 := n1] ! 1) = k"
    using ax assms(3) by (simp add: n1_def)
  have c2: "int ((shape t)[1 := n2] ! 1) = int (shape t ! 1) - k"
    using ax n2 assms(4) by simp
  from sp w1 w2 c1 c2 cat_narrow [OF assms(1) ax sum] show ?thesis
    by (simp add: n1_def n2_def)
qed

lemma ex_latent_split:
  "split_bottleneck ex_latent 1 =
     Inr (\<lparr>shape = [2, 1, 1, 1, 2], data = [0, 1, 6, 7]\<rparr>,
          \<lparr>shape = [2, 2, 1, 1, 2], data = [2, 3, 4, 5, 8, 9, 10, 11]\<rparr>)"
  by code_simp

theorem split_bottleneck_partition_witness:
  "wf_tensor ex_latent \<and> 2 \<le> length (shape ex_latent) \<and>
   (0::int) \<le> 1 \<and> 1 \<le> int (shape ex_latent ! 1) \<and>
   split_bottleneck ex_latent 1 =
     Inr (\<lparr>shape = [2, 1, 1, 1, 2], data = [0, 1, 6, 7]\<rparr>,
          \<lparr>shape = [2, 2, 1, 1, 2], data = [2, 3, 4, 5, 8, 9, 10, 11]\<rparr>) \<and>
   torch_cat2 \<lparr>shape = [2, 1, 1, 1, 2], data = [0, 1, 6, 7]\<rparr>
              \<lparr>shape = [2, 2, 1, 1, 2], data = [2, 3, 4, 5, 8, 9, 10, 11]\<rparr> 1 = ex_latent"
proof -
  have h1: "wf_tensor ex_latent" by (simp add: wf_tensor_def ex_latent_def)
  have h2: "2 \<le> length (shape ex_latent)" by (simp add: ex_latent_def)
  have h3: "(0::int) \<le> 1" by simp
  have h4: "1 \<le> int (shape ex_latent ! 1)" by (simp add: ex_latent_def)
  from split_bottleneck_partition [OF h1 h2 h3 h4] ex_latent_split h1 h2 h4
  show ?thesis by auto
qed

subsection \<open>The rows and labels passed to the contrastive loss\<close>

lemma length_concat_map_uniform:
  assumes "\<forall>x \<in> set xs. length (g x) = n"
  shows "length (concat (map g xs)) = length xs * n"
  using assms by (induction xs) simp_all

lemma nth_concat_uniform:
  assumes "\<forall>x \<in> set xs. length (f x) = n" and "j < length xs" and "r < n"
  shows "concat (map f xs) ! (j * n + r) = f (xs ! j) ! r"
  using assms
proof (induction xs arbitrary: j)
  case Nil
  then show ?case by simp
next
  case (Cons x xs)
  show ?case
  proof (cases j)
    case 0
    with Cons.prems show ?thesis by (simp add: nth_append)
  next
    case (Suc j')
    with Cons.prems have "concat (map f xs) ! (j' * n + r) = f (xs ! j') ! r"
      using Cons.IH [of j'] by simp
    moreover have "(f x @ concat (map f xs)) ! (Suc j' * n + r) = concat (map f xs) ! (j' * n + r)"
      using Cons.prems(1) by (simp add: nth_append)
    ultimately show ?thesis using Suc by simp
  qed
qed

lemma rows_of_concat:
  assumes "\<forall>x \<in> set xs. length (g x) = n"
  shows "map (\<lambda>r. take n (drop (r * n) (concat (map g xs)))) [0..<length xs] = map g xs"
proof -
  have "map g xs = map g (map ((!) xs) [0..<length xs])"
    by (simp add: map_nth)
  then have eq: "map g xs = map (\<lambda>j. g (xs ! j)) [0..<length xs]"
    by (simp add: o_def)
  have len: "\<forall>j < length xs. length (g (xs ! j)) = n"
    using assms by simp
  have "take n (drop (r * n) (concat (map g xs))) = g (xs ! r)" if "r < length xs" for r
    using nth_run [OF len that] eq by simp
  then have "map (\<lambda>r. take n (drop (r * n) (concat (map g xs)))) [0..<length xs]
             = map (\<lambda>j. g (xs ! j)) [0..<length xs]"
    by simp
  with eq show ?thesis by simp
qed

lemma samples_with_bound:
  assumes "i \<in> set (samples_with ids u)"
  shows "i < length ids \<and> ids ! i = u"
  using assms by (simp add: samples_with_def)

lemma length_rows_of_id:
  "length (rows_of_id ids n u) = length (samples_with ids u) * n"
  unfolding rows_of_id_def
  by (rule length_concat_map_uniform) simp

lemma mask_select_id:
  assumes sh: "shape l4 = [B, C, D, H, W]" and ids: "length ids = B"
  shows "mask_select l4 (map (\<lambda>x. x = u) ids) =
           Inr \<lparr>shape = [length (samples_with ids u), C, D, H, W],
                data = concat (map (\<lambda>i. take (C * (D * H * W)) (drop (i * (C * (D * H * W))) (data l4)))
                                   (samples_with ids u))\<rparr>"
proof -
  have "filter (\<lambda>i. map (\<lambda>x. x = u) ids ! i) [0..<B] = samples_with ids u"
    unfolding samples_with_def using ids
    by (auto intro: filter_cong)
  then show ?thesis
    using sh ids by (simp add: mask_select_def Let_def mult.assoc)
qed

lemma selected_data_nth:
  assumes wf: "wf_tensor l4" and sh: "shape l4 = [B, C, D, H, W]" and ids: "length ids = B"
    and j: "j < length (samples_with ids u)" and ch: "ch < C" and s: "s < D * H * W"
  shows "concat (map (\<lambda>i. take (C * (D * H * W)) (drop (i * (C * (D * H * W))) (data l4)))
                     (samples_with ids u)) ! ((j * C + ch) * (D * H * W) + s)
         = data l4 ! ((samples_with ids u ! j * C + ch) * (D * H * W) + s)"
proof -
  define n where "n = D * H * W"
  define blk where "blk = C * n"
  define sel where "sel = samples_with ids u"
  define f where "f = (\<lambda>i. take blk (drop (i * blk) (data l4)))"
  have len_data: "length (data l4) = B * blk"
    using wf sh by (simp add: wf_tensor_def blk_def n_def mult.assoc)
  have lenf: "length (f i) = blk" if "i \<in> set sel" for i
  proof -
    from that have "i < B" using samples_with_bound ids by (auto simp: sel_def)
    then have "Suc i \<le> B" by simp
    then have "Suc i * blk \<le> B * blk" by (rule mult_le_mono1)
    then have "i * blk + blk \<le> length (data l4)" by (simp add: len_data)
    then show ?thesis by (simp add: f_def)
  qed
  have "Suc ch \<le> C" using ch by simp
  then have "Suc ch * n \<le> C * n" by (rule mult_le_mono1)
  with s have r: "ch * n + s < blk" by (simp add: blk_def n_def)
  have idx: "(j * C + ch) * n + s = j * blk + (ch * n + s)"
    by (simp add: blk_def algebra_simps)
  have selj: "sel ! j \<in> set sel" using j by (simp add: sel_def)
  have "concat (map f sel) ! (j * blk + (ch * n + s)) = f (sel ! j) ! (ch * n + s)"
    using nth_concat_uniform [of sel f blk j "ch * n + s"] lenf j r
    by (simp add: sel_def)
  also have "\<dots> = data l4 ! (sel ! j * blk + (ch * n + s))"
    using r lenf [OF selj] by (simp add: f_def)
  also have "sel ! j * blk + (ch * n + s) = (sel ! j * C + ch) * n + s"
    by (simp add: blk_def algebra_simps)
  finally have "concat (map f sel) ! (j * blk + (ch * n + s)) = data l4 ! ((sel ! j * C + ch) * n + s)" .
  then have "concat (map f sel) ! ((j * C + ch) * n + s) = data l4 ! ((sel ! j * C + ch) * n + s)"
    by (simp only: idx)
  then show ?thesis
    unfolding f_def blk_def n_def sel_def .
qed

lemma concat_rows_of_id:
  "concat (map (\<lambda>(i, s). E i s) (rows_of_id ids n u))
   = concat (map (\<lambda>i. concat (map (E i) [0..<n])) (samples_with ids u))"
proof -
  have "concat (map (\<lambda>(i, s). E i s) (concat (map (\<lambda>i. map (\<lambda>s. (i, s)) [0..<n]) xs)))
        = concat (map (\<lambda>i. concat (map (E i) [0..<n])) xs)" for xs :: "nat list"
    by (induction xs) (simp_all add: o_def)
  then show ?thesis by (simp add: rows_of_id_def)
qed


lemma permute_selected:
  assumes wf: "wf_tensor l4" and sh: "shape l4 = [B, C, D, H, W]" and ids: "length ids = B"
  shows "permute_02341
           \<lparr>shape = [length (samples_with ids u), C, D, H, W],
            data = concat (map (\<lambda>i. take (C * (D * H * W)) (drop (i * (C * (D * H * W))) (data l4)))
                               (samples_with ids u))\<rparr>
         = Inr \<lparr>shape = [length (samples_with ids u), D, H, W, C],
                data = concat (map (\<lambda>(i, s). embedding_of l4 i s) (rows_of_id ids (D * H * W) u))\<rparr>"
proof -
  define sel where "sel = samples_with ids u"
  define dat where "dat = concat (map (\<lambda>i. take (C * (D * H * W)) (drop (i * (C * (D * H * W))) (data l4))) sel)"
  have row: "map (\<lambda>ch. dat ! ((j * C + ch) * (D * H * W) + s)) [0..<C] = embedding_of l4 (sel ! j) s"
    if "j < length sel" "s < D * H * W" for j s
    using selected_data_nth [OF wf sh ids, of j u _ s] that sh
    by (simp add: embedding_of_def dat_def sel_def)
  have "map (\<lambda>j. concat (map (\<lambda>s. map (\<lambda>ch. dat ! ((j * C + ch) * (D * H * W) + s)) [0..<C]) [0..<D * H * W]))
            [0..<length sel]
        = map (\<lambda>j. concat (map (embedding_of l4 (sel ! j)) [0..<D * H * W])) [0..<length sel]"
  proof (rule map_cong [OF refl])
    fix j
    assume "j \<in> set [0..<length sel]"
    then have j: "j < length sel" by simp
    have "map (\<lambda>s. map (\<lambda>ch. dat ! ((j * C + ch) * (D * H * W) + s)) [0..<C]) [0..<D * H * W]
          = map (embedding_of l4 (sel ! j)) [0..<D * H * W]"
      using row [OF j] by simp
    then show "concat (map (\<lambda>s. map (\<lambda>ch. dat ! ((j * C + ch) * (D * H * W) + s)) [0..<C]) [0..<D * H * W])
               = concat (map (embedding_of l4 (sel ! j)) [0..<D * H * W])"
      by (rule arg_cong [where f = concat])
  qed
  also have "\<dots> = map (\<lambda>i. concat (map (embedding_of l4 i) [0..<D * H * W])) (map ((!) sel) [0..<length sel])"
    by (simp add: o_def)
  also have "\<dots> = map (\<lambda>i. concat (map (embedding_of l4 i) [0..<D * H * W])) sel"
    by (simp only: map_nth)
  finally have "concat (map (\<lambda>j. concat (map (\<lambda>s. map (\<lambda>ch. dat ! ((j * C + ch) * (D * H * W) + s)) [0..<C]) [0..<D * H * W]))
            [0..<length sel])
        = concat (map (\<lambda>(i, s). embedding_of l4 i s) (rows_of_id ids (D * H * W) u))"
    by (simp add: concat_rows_of_id sel_def)
  then show ?thesis
    by (simp add: permute_02341_def dat_def sel_def)
qed

lemma length_embedding_of:
  assumes "shape l4 = [B, C, D, H, W]"
  shows "length (embedding_of l4 i s) = C"
  using assms by (simp add: embedding_of_def)

lemma reshape_permuted:
  assumes sh: "shape l4 = [B, C, D, H, W]" and c: "0 < C"
  shows "reshape_rows
           \<lparr>shape = [length (samples_with ids u), D, H, W, C],
            data = concat (map (\<lambda>(i, s). embedding_of l4 i s) (rows_of_id ids (D * H * W) u))\<rparr>
           (int C)
         = Inr (map (\<lambda>(i, s). embedding_of l4 i s) (rows_of_id ids (D * H * W) u))"
proof -
  define rows where "rows = rows_of_id ids (D * H * W) u"
  have len: "\<forall>x \<in> set rows. length ((\<lambda>(i, s). embedding_of l4 i s) x) = C"
    using length_embedding_of [OF sh] by (auto simp: split_def)
  have n: "length (samples_with ids u) * (D * (H * (W * C))) = length rows * C"
    by (simp add: rows_def length_rows_of_id algebra_simps)
  from c n rows_of_concat [OF len] show ?thesis
    by (simp add: reshape_rows_def numel_def rows_def [symmetric])
qed


lemma concat_replicate_replicate:
  "concat (replicate a (replicate b x)) = replicate (a * b) x"
  by (induction a) (simp_all add: replicate_add)

lemma slice_assign_fits:
  assumes "start + length ys \<le> length xs"
  shows "slice_assign xs start (start + length ys) ys
         = Inr (take start xs @ ys @ drop (start + length ys) xs)"
  using assms by (simp add: slice_assign_def Let_def min_def max_def)

lemma contrastive_loop_step:
  assumes wf: "wf_tensor l4" and sh: "shape l4 = [B, C, D, H, W]" and ids: "length ids = B"
    and c: "0 < C"
  shows "contrastive_loop l4 ids (int C) (u # us) (offset, start, embs, labs) =
           (case slice_assign embs start (start + length (rows_of_id ids (D * H * W) u))
                   (map Some (map (\<lambda>(i, s). embedding_of l4 i s) (rows_of_id ids (D * H * W) u))) of
              Inl e \<Rightarrow> Inl e
            | Inr embs' \<Rightarrow>
                (case slice_assign labs start (start + length (rows_of_id ids (D * H * W) u))
                        (map Some (replicate (length (rows_of_id ids (D * H * W) u)) offset)) of
                   Inl e \<Rightarrow> Inl e
                 | Inr labs' \<Rightarrow>
                     contrastive_loop l4 ids (int C) us
                       (offset + D * H * W, start + length (rows_of_id ids (D * H * W) u), embs', labs')))"
  by (simp add: mask_select_id [OF sh ids] permute_selected [OF wf sh ids]
      reshape_permuted [OF sh c] Let_def concat_replicate_replicate length_rows_of_id
      cong: sum.case_cong)

lemma contrastive_loop_result:
  assumes wf: "wf_tensor l4" and sh: "shape l4 = [B, C, D, H, W]" and ids: "length ids = B"
    and c: "0 < C"
    and fit: "start + length (concat (map (rows_of_id ids (D * H * W)) us)) \<le> length embs"
    and same: "length labs = length embs"
  shows "contrastive_loop l4 ids (int C) us (offset, start, embs, labs) =
           Inr (offset + length us * (D * H * W),
                start + length (concat (map (rows_of_id ids (D * H * W)) us)),
                take start embs @
                  map (\<lambda>(i, s). Some (embedding_of l4 i s)) (concat (map (rows_of_id ids (D * H * W)) us)) @
                  drop (start + length (concat (map (rows_of_id ids (D * H * W)) us))) embs,
                take start labs @
                  map Some (labels_from ids (D * H * W) offset us) @
                  drop (start + length (concat (map (rows_of_id ids (D * H * W)) us))) labs)"
  using fit same
proof (induction us arbitrary: offset start embs labs)
  case Nil
  then show ?case by simp
next
  case (Cons u us)
  define n where "n = D * H * W"
  define ru where "ru = rows_of_id ids n u"
  define rest where "rest = concat (map (rows_of_id ids n) us)"
  define ys where "ys = map Some (map (\<lambda>(i, s). embedding_of l4 i s) ru)"
  define ls where "ls = map Some (replicate (length ru) offset)"
  define embs1 where "embs1 = take start embs @ ys @ drop (start + length ru) embs"
  define labs1 where "labs1 = take start labs @ ls @ drop (start + length ru) labs"
  have fit0: "start + length ru + length rest \<le> length embs"
    using Cons.prems(1) by (simp add: ru_def rest_def n_def)
  have lys: "length ys = length ru" and lls: "length ls = length ru"
    by (simp_all add: ys_def ls_def)
  have a1: "slice_assign embs start (start + length ru) ys = Inr embs1"
    using slice_assign_fits [of start ys embs] fit0 lys by (simp add: embs1_def)
  have a2: "slice_assign labs start (start + length ru) ls = Inr labs1"
    using slice_assign_fits [of start ls labs] fit0 lls Cons.prems(2) by (simp add: labs1_def)
  have l1: "length embs1 = length embs" "length labs1 = length embs1"
    using fit0 lys lls Cons.prems(2) by (simp_all add: embs1_def labs1_def)
  have fit1: "start + length ru + length rest \<le> length embs1"
    using fit0 l1 by simp
  have step: "contrastive_loop l4 ids (int C) (u # us) (offset, start, embs, labs) =
              contrastive_loop l4 ids (int C) us (offset + n, start + length ru, embs1, labs1)"
    using contrastive_loop_step [OF wf sh ids c, of u us offset start embs labs] a1 a2
    by (simp add: n_def ru_def ys_def ls_def)
  have IH: "contrastive_loop l4 ids (int C) us (offset + n, start + length ru, embs1, labs1) =
           Inr (offset + n + length us * n,
                start + length ru + length rest,
                take (start + length ru) embs1 @
                  map (\<lambda>(i, s). Some (embedding_of l4 i s)) rest @
                  drop (start + length ru + length rest) embs1,
                take (start + length ru) labs1 @
                  map Some (labels_from ids n (offset + n) us) @
                  drop (start + length ru + length rest) labs1)"
    using Cons.IH [of "start + length ru" embs1 labs1 "offset + n"] fit1 l1
    by (simp add: n_def rest_def ru_def)
  have t1: "take (start + length ru) embs1 = take start embs @ ys"
    using fit0 lys by (simp add: embs1_def)
  have t2: "take (start + length ru) labs1 = take start labs @ ls"
    using fit0 lls Cons.prems(2) by (simp add: labs1_def)
  have d1: "drop (start + length ru + length rest) embs1 = drop (start + length ru + length rest) embs"
    using fit0 lys by (simp add: embs1_def ac_simps)
  have d2: "drop (start + length ru + length rest) labs1 = drop (start + length ru + length rest) labs"
    using fit0 lls Cons.prems(2) by (simp add: labs1_def ac_simps)
  show ?case
    unfolding step IH t1 t2 d1 d2
    by (simp add: n_def [symmetric] ru_def [symmetric] rest_def [symmetric] ys_def ls_def
        split_def o_def add.assoc)
qed


lemma length_samples_with: "length (samples_with ids u) = count_list ids u"
proof -
  have "filter (\<lambda>x. x = u) (map ((!) ids) [0..<length ids])
        = map ((!) ids) (filter (\<lambda>i. ids ! i = u) [0..<length ids])"
    by (simp add: filter_map o_def)
  then have "length (filter (\<lambda>x. x = u) ids) = length (samples_with ids u)"
    by (simp add: map_nth samples_with_def del: filter_map)
  moreover have "count_list ids u = length (filter (\<lambda>x. x = u) ids)"
    by (induction ids) simp_all
  ultimately show ?thesis by simp
qed

lemma np_unique_distinct: "distinct (np_unique xs)" and np_unique_set: "set (np_unique xs) = set xs"
  by (simp_all add: np_unique_def)

lemma sum_samples_with:
  "sum_list (map (\<lambda>u. length (samples_with ids u)) (np_unique ids)) = length ids"
proof -
  have "sum_list (map (count_list ids) (np_unique ids)) = sum (count_list ids) (set (np_unique ids))"
    using np_unique_distinct by (rule sum_list_distinct_conv_sum_set)
  also have "\<dots> = length ids"
    by (simp add: np_unique_set sum_count_set)
  finally show ?thesis by (simp add: length_samples_with)
qed

lemma length_concat_rows:
  "length (concat (map (rows_of_id ids n) us)) = sum_list (map (\<lambda>u. length (samples_with ids u)) us) * n"
  by (induction us) (simp_all add: length_rows_of_id add_mult_distrib)

lemma length_row_origins: "length (row_origins ids n) = length ids * n"
  by (simp add: row_origins_def length_concat_rows sum_samples_with)

lemma rows_of_id_member:
  assumes "p < length (rows_of_id ids n u)"
  shows "ids ! fst (rows_of_id ids n u ! p) = u"
proof -
  have "rows_of_id ids n u ! p \<in> set (rows_of_id ids n u)"
    using assms by simp
  then obtain i where "i \<in> set (samples_with ids u)" "fst (rows_of_id ids n u ! p) = i"
    by (auto simp: rows_of_id_def)
  then show ?thesis using samples_with_bound by blast
qed

lemma length_labels_from:
  "length (labels_from ids n offset us) = length (concat (map (rows_of_id ids n) us))"
  by (induction us arbitrary: offset) simp_all

lemma labels_from_nth:
  assumes "p < length (concat (map (rows_of_id ids n) us))"
  shows "length (labels_from ids n offset us) = length (concat (map (rows_of_id ids n) us)) \<and>
         (\<exists>k < length us. ids ! fst (concat (map (rows_of_id ids n) us) ! p) = us ! k \<and>
                          labels_from ids n offset us ! p = offset + k * n)"
  using assms
proof (induction us arbitrary: offset p)
  case Nil
  then show ?case by simp
next
  case (Cons u us)
  define ru where "ru = rows_of_id ids n u"
  define rest where "rest = concat (map (rows_of_id ids n) us)"
  have len: "length (labels_from ids n off us) = length rest" for off
    by (simp add: rest_def length_labels_from)
  show ?case
  proof (cases "p < length ru")
    case True
    then have "ids ! fst ((ru @ rest) ! p) = u"
      using rows_of_id_member [of p ids n u] by (simp add: nth_append ru_def)
    moreover have "(replicate (length ru) offset @ labels_from ids n (offset + n) us) ! p = offset"
      using True by (simp add: nth_append)
    ultimately show ?thesis
      using len by (auto simp: ru_def rest_def intro: exI [where x = 0])
  next
    case False
    define p' where "p' = p - length ru"
    have p': "p' < length rest"
      using False Cons.prems by (simp add: p'_def ru_def rest_def)
    from Cons.IH [of p' "offset + n"] p' obtain k where
      k: "k < length us" "ids ! fst (rest ! p') = us ! k"
         "labels_from ids n (offset + n) us ! p' = offset + n + k * n"
      by (auto simp: rest_def)
    have "ids ! fst ((ru @ rest) ! p) = (u # us) ! Suc k"
      using False k by (simp add: nth_append p'_def)
    moreover have "(replicate (length ru) offset @ labels_from ids n (offset + n) us) ! p
                   = offset + Suc k * n"
      using False k by (simp add: nth_append p'_def)
    moreover have "Suc k < length (u # us)" using k by simp
    ultimately show ?thesis
      using len unfolding ru_def rest_def
      by (metis concat.simps(2) labels_from.simps(2) length_append length_replicate list.simps(9))
  qed
qed

lemma labels_same_iff:
  assumes d: "distinct us" and n: "0 < n"
    and p: "p < length (concat (map (rows_of_id ids n) us))"
    and q: "q < length (concat (map (rows_of_id ids n) us))"
  shows "labels_from ids n offset us ! p = labels_from ids n offset us ! q \<longleftrightarrow>
         ids ! fst (concat (map (rows_of_id ids n) us) ! p)
         = ids ! fst (concat (map (rows_of_id ids n) us) ! q)"
proof -
  from labels_from_nth [OF p, of offset] obtain k where
    k: "k < length us" "ids ! fst (concat (map (rows_of_id ids n) us) ! p) = us ! k"
       "labels_from ids n offset us ! p = offset + k * n"
    by blast
  from labels_from_nth [OF q, of offset] obtain l where
    l: "l < length us" "ids ! fst (concat (map (rows_of_id ids n) us) ! q) = us ! l"
       "labels_from ids n offset us ! q = offset + l * n"
    by blast
  have "offset + k * n = offset + l * n \<longleftrightarrow> k = l" using n by simp
  also have "\<dots> \<longleftrightarrow> us ! k = us ! l"
    using d k(1) l(1) by (simp add: nth_eq_iff_index_eq)
  finally show ?thesis using k l by simp
qed


lemma contrastive_inputs_result:
  assumes wf: "wf_tensor (latents ! 4)" and len: "5 \<le> length latents"
    and sh: "shape (latents ! 4) = [B, C, D, H, W]" and ids: "length ids = B"
    and c: "0 < C"
  shows "contrastive_inputs latents ids (int C) =
           Inr (map (\<lambda>(i, s). Some (embedding_of (latents ! 4) i s)) (row_origins ids (D * H * W)),
                map Some (labels_from ids (D * H * W) 0 (np_unique ids)))"
proof -
  define total where "total = B * D * H * W"
  have lr: "length (concat (map (rows_of_id ids (D * H * W)) (np_unique ids))) = total"
    using length_row_origins [of ids "D * H * W"] ids
    by (simp add: row_origins_def total_def mult.assoc)
  have fit: "0 + length (concat (map (rows_of_id ids (D * H * W)) (np_unique ids)))
             \<le> length (replicate total (None :: 'a list option))"
    using lr by simp
  have same: "length (replicate total (None :: nat option)) = length (replicate total (None :: 'a list option))"
    by simp
  note R = contrastive_loop_result [OF wf sh ids c fit same, of 0]
  show ?thesis
    using len sh R lr
    by (simp add: contrastive_inputs_def Let_def total_def [symmetric] row_origins_def)
qed

lemma contrastive_inputs_no_channels:
  assumes wf: "wf_tensor (latents ! 4)" and len: "5 \<le> length latents"
    and sh: "shape (latents ! 4) = [B, 0, D, H, W]" and ids: "length ids = B"
    and r: "contrastive_inputs latents ids 0 = Inr (embs, labs)"
  shows "ids = [] \<and> embs = [] \<and> labs = []"
proof (cases "np_unique ids")
  case Nil
  then have "set ids = {}" using np_unique_set [of ids] by simp
  then have e: "ids = []" by simp
  with ids have "B = 0" by simp
  with r len sh Nil e show ?thesis
    by (simp add: contrastive_inputs_def Let_def)
next
  case (Cons u us)
  have "contrastive_loop (latents ! 4) ids 0 (u # us) st = Inl RuntimeError" for st
    by (cases st)
       (simp add: mask_select_id [OF sh ids] permute_02341_def reshape_rows_def Let_def)
  with len sh Cons have "contrastive_inputs latents ids 0 = Inl RuntimeError"
    by (simp add: contrastive_inputs_def Let_def del: contrastive_loop.simps)
  with r show ?thesis by simp
qed

text \<open>
  C5. In \<^verbatim>\<open>contrastive_step\<close>, for a well-formed bottleneck of shape
  \<open>[B, C, D, H, W]\<close> with non-zero spatial dimensions, one id per sample and
  \<^verbatim>\<open>latentsize\<close> equal to the number of channels: the rows passed to the loss are
  the embeddings of the pairs (sample, position) listed by \<open>row_origins\<close>, every row
  has a label, and two rows have the same label if and only if the samples they come
  from have the same id. With at least one channel the function reaches the loss.
\<close>

theorem contrastive_labels_by_id:
  assumes wf: "wf_tensor (latents ! 4)" and len: "5 \<le> length latents"
    and sh: "shape (latents ! 4) = [B, C, D, H, W]" and ids: "length ids = B"
    and n: "0 < D * H * W"
  shows "(0 < C \<longrightarrow> (\<exists>embs labs. contrastive_inputs latents ids (int C) = Inr (embs, labs))) \<and>
         (\<forall>embs labs.
            contrastive_inputs latents ids (int C) = Inr (embs, labs) \<longrightarrow>
              embs = map (\<lambda>(i, s). Some (embedding_of (latents ! 4) i s)) (row_origins ids (D * H * W)) \<and>
              length labs = length embs \<and>
              (\<forall>p < length labs. \<forall>q < length labs.
                 \<exists>lp lq. labs ! p = Some lp \<and> labs ! q = Some lq \<and>
                   (lp = lq \<longleftrightarrow>
                      ids ! fst (row_origins ids (D * H * W) ! p)
                      = ids ! fst (row_origins ids (D * H * W) ! q))))"
proof (cases "0 < C")
  case True
  note R = contrastive_inputs_result [OF wf len sh ids True]
  define lab where "lab = labels_from ids (D * H * W) 0 (np_unique ids)"
  have ll: "length lab = length (row_origins ids (D * H * W))"
    by (simp add: lab_def row_origins_def length_labels_from)
  have iff: "lab ! p = lab ! q \<longleftrightarrow>
             ids ! fst (row_origins ids (D * H * W) ! p) = ids ! fst (row_origins ids (D * H * W) ! q)"
    if "p < length lab" "q < length lab" for p q
    using labels_same_iff [OF np_unique_distinct n, of p ids ids q 0] that ll
    by (simp add: lab_def row_origins_def)
  show ?thesis
  proof (intro conjI impI allI)
    show "\<exists>embs labs. contrastive_inputs latents ids (int C) = Inr (embs, labs)"
      using R by blast
  next
    fix embs labs
    assume "contrastive_inputs latents ids (int C) = Inr (embs, labs)"
    with R have e: "embs = map (\<lambda>(i, s). Some (embedding_of (latents ! 4) i s)) (row_origins ids (D * H * W))"
      and l: "labs = map Some lab"
      by (simp_all add: lab_def)
    show "embs = map (\<lambda>(i, s). Some (embedding_of (latents ! 4) i s)) (row_origins ids (D * H * W))"
      by (rule e)
    show "length labs = length embs"
      using e l ll by simp
    fix p q
    assume "p < length labs" "q < length labs"
    then have pq: "p < length lab" "q < length lab" using l by simp_all
    then have "labs ! p = Some (lab ! p)" "labs ! q = Some (lab ! q)"
      using l by simp_all
    with iff [OF pq]
    show "\<exists>lp lq. labs ! p = Some lp \<and> labs ! q = Some lq \<and>
            (lp = lq \<longleftrightarrow>
               ids ! fst (row_origins ids (D * H * W) ! p)
               = ids ! fst (row_origins ids (D * H * W) ! q))"
      by blast
  qed
next
  case False
  then have c0: "C = 0" by simp
  have "embs = [] \<and> labs = [] \<and> ids = []"
    if "contrastive_inputs latents ids (int C) = Inr (embs, labs)" for embs labs
    using contrastive_inputs_no_channels [OF wf len _ ids, of D H W embs labs] that sh c0
    by simp
  then show ?thesis
    using False by (auto simp: row_origins_def np_unique_def)
qed


lemma ex_contrastive_inputs:
  "contrastive_inputs ex_latents [7, 3, 7] 2 =
     Inr ([Some [4, 6], Some [5, 7], Some [0, 2], Some [1, 3], Some [8, 10], Some [9, 11]],
          [Some 0, Some 0, Some 2, Some 2, Some 2, Some 2])"
  by code_simp

lemma ex_row_origins: "row_origins [7, 3, 7] 2 = [(1, 0), (1, 1), (0, 0), (0, 1), (2, 0), (2, 1)]"
  by code_simp

theorem contrastive_labels_by_id_witness:
  "wf_tensor (ex_latents ! 4) \<and> 5 \<le> length ex_latents \<and>
   shape (ex_latents ! 4) = [3, 2, 1, 1, 2] \<and> length [7, 3, 7 :: int] = 3 \<and>
   (0::nat) < 1 * 1 * 2 \<and>
   contrastive_inputs ex_latents [7, 3, 7] 2 =
     Inr ([Some [4, 6], Some [5, 7], Some [0, 2], Some [1, 3], Some [8, 10], Some [9, 11]],
          [Some 0, Some 0, Some 2, Some 2, Some 2, Some 2]) \<and>
   row_origins [7, 3, 7] 2 = [(1, 0), (1, 1), (0, 0), (0, 1), (2, 0), (2, 1)]"
proof -
  have h1: "wf_tensor (ex_latents ! 4)"
    by (simp add: ex_latents_def ex_latent3_def wf_tensor_def)
  have h2: "5 \<le> length ex_latents" by (simp add: ex_latents_def)
  have h3: "shape (ex_latents ! 4) = [3, 2, 1, 1, 2]"
    by (simp add: ex_latents_def ex_latent3_def)
  have h4: "length [7, 3, 7 :: int] = 3" by simp
  have h5: "(0::nat) < 1 * 1 * 2" by simp
  from contrastive_labels_by_id [OF h1 h2 h3 h4 h5] h1 h2 h3 ex_contrastive_inputs ex_row_origins
  show ?thesis by simp
qed

subsection \<open>The training step\<close>

lemma view_of_flatten:
  assumes "shape t = [b, c, h, w, d]"
    and "torch_view_infer (torch_flatten t 2 4) [c, h, w, d] = Inr x"
  shows "x = t"
proof -
  define p where "p = c * (h * (w * d))"
  from assms have p: "p \<noteq> 0"
    by (auto simp: torch_view_infer_def Let_def p_def split: if_splits)
  have "numel (torch_flatten t 2 4) = b * p"
    using assms(1) by (simp add: numel_def torch_flatten_def p_def)
  then have "numel (torch_flatten t 2 4) div p = b"
    using p by simp
  with assms p have "x = \<lparr>shape = [b, c, h, w, d], data = data t\<rparr>"
    by (auto simp: torch_view_infer_def Let_def p_def torch_flatten_def split: if_splits)
  with assms(1) show ?thesis by simp
qed

lemma reconstruct_image_cases:
  assumes "reconstruct_image env wts t = (ev, r)"
  shows "(ev = [] \<and> (\<exists>e. r = Inl e)) \<or> (ev = [Reconstruct t] \<and> r = reconstruct env wts t)"
proof (cases "\<exists>b c h w d. shape t = [b, c, h, w, d]")
  case True
  then obtain b c h w d where sh: "shape t = [b, c, h, w, d]" by blast
  show ?thesis
  proof (cases "torch_view_infer (torch_flatten t 2 4) [c, h, w, d]")
    case (Inl e)
    with assms sh have "ev = []" "r = Inl e" by (simp_all add: reconstruct_image_def)
    then show ?thesis by blast
  next
    case (Inr x)
    with view_of_flatten [OF sh Inr] assms sh show ?thesis
      by (simp add: reconstruct_image_def)
  qed
next
  case False
  with assms show ?thesis
    by (auto simp: reconstruct_image_def split: list.splits)
qed

lemma train_step_success:
  assumes "train_step env s batch = (s', ev, Inr (losses, accu))"
  shows "\<exists>nl bt rec img img0 total_loss.
           5 \<le> length (swinViT env (model_training s) (batch_image batch)) \<and>
           split_bottleneck (swinViT env (model_training s) (batch_image batch) ! 4)
             (contrastive_latentsize s) = Inr (nl, bt) \<and>
           reconstruct env (decoder s) (swinViT env (model_training s) (batch_image batch) ! 4) = Inr rec \<and>
           first_sample rec = Inr img \<and> first_sample (batch_image batch) = Inr img0 \<and>
           total_loss_of (epoch s)
             ((losses_dict s)(''classification_loss'' \<mapsto> PyFloat 0,
                ''reconstruction_loss'' \<mapsto>
                  PyTensor (ReconstructionLoss_forward env 1 rec (batch_image batch)))) = Inr total_loss \<and>
           is_tensor total_loss \<and>
           losses = (losses_dict s)(''classification_loss'' \<mapsto> PyFloat 0,
                ''reconstruction_loss'' \<mapsto>
                  PyTensor (ReconstructionLoss_forward env 1 rec (batch_image batch)),
                ''total_loss'' \<mapsto> total_loss) \<and>
           losses_dict s' = losses \<and> accu = PyInt 0 \<and>
           decoder s' = optimizer_step env (decoder s)
                          (swinViT env (model_training s) (batch_image batch) ! 4) (batch_image batch) \<and>
           ev = [ZeroGrad, Reconstruct (swinViT env (model_training s) (batch_image batch) ! 4),
                 NibSave ''reconstructed_image.nii'' (np_squeeze img),
                 NibSave ''original_image.nii'' (np_squeeze img0),
                 Backward total_loss, OptimizerStep]"
proof -
  define l4 where "l4 = swinViT env (model_training s) (batch_image batch) ! 4"
  obtain ev1 r1 where ri: "reconstruct_image env (decoder s) l4 = (ev1, r1)"
    by (cases "reconstruct_image env (decoder s) l4")
  from assms ri obtain rec where r1: "r1 = Inr rec"
    by (cases r1)
       (auto simp: train_step_def Let_def l4_def split: if_splits sum.splits prod.splits)
  with reconstruct_image_cases [OF ri] have ev1: "ev1 = [Reconstruct l4]"
    and rec: "reconstruct env (decoder s) l4 = Inr rec"
    by auto
  from assms ri r1 ev1 rec show ?thesis
    unfolding l4_def [symmetric]
    by (auto simp: train_step_def Let_def l4_def [symmetric] reconstruction_step_def
        split: if_splits sum.splits prod.splits)
qed


lemma ex_train_step_events:
  "fst (snd (train_step ex_env ex_trainer ex_batch)) =
     [ZeroGrad, Reconstruct ex_l4,
      NibSave ''reconstructed_image.nii'' \<lparr>shape = [], data = [0]\<rparr>,
      NibSave ''original_image.nii'' \<lparr>shape = [], data = [0]\<rparr>,
      Backward (PyTensor (5 / 4)), OptimizerStep]"
  by (simp add: train_step_def ex_env_def ex_trainer_def ex_batch_def Train_init_def
      ex_l4_def ex_voxel_def split_bottleneck_def torch_split2_def narrow_def
      reconstruct_image_def torch_view_infer_def torch_flatten_def numel_def
      first_sample_def np_squeeze_def reconstruction_step_def ReconstructionLoss_forward_def
      total_loss_of_def lookup_def Let_def)

lemma ex_train_step_losses:
  "losses_dict (fst (train_step ex_env ex_trainer ex_batch)) =
     [''total_loss'' \<mapsto> PyTensor (5 / 4), ''src_classification_loss'' \<mapsto> PyInt 0,
      ''contrast_loss'' \<mapsto> PyInt 0, ''classification_loss'' \<mapsto> PyFloat 0,
      ''reconstruction_loss'' \<mapsto> PyTensor (5 / 4)]"
  by (simp add: train_step_def ex_env_def ex_trainer_def ex_batch_def Train_init_def
      ex_l4_def ex_voxel_def split_bottleneck_def torch_split2_def narrow_def
      reconstruct_image_def torch_view_infer_def torch_flatten_def numel_def
      first_sample_def np_squeeze_def reconstruction_step_def ReconstructionLoss_forward_def
      total_loss_of_def lookup_def Let_def fun_upd_twist)

lemma ex_split: "split_bottleneck ex_l4 1 = Inr (ex_contrastive_part, ex_bottleneck)"
  by (simp add: split_bottleneck_def torch_split2_def narrow_def ex_l4_def
      ex_contrastive_part_def ex_bottleneck_def Let_def)

lemma ex_contrastive_step:
  "losses_dict (fst (contrastive_step ex_env ex_trainer ex_nlatents [0] 1)) ''contrast_loss''
   = Some (PyTensor 3)"
  by (simp add: contrastive_step_def ex_env_def contrastive_inputs_def ex_nlatents_def
      ex_contrastive_part_def np_unique_def mask_select_def permute_02341_def reshape_rows_def
      numel_def slice_assign_def Let_def)


text \<open>
  C1, as the code has it. On every batch on which \<^verbatim>\<open>train_step\<close> returns, with
  \<^verbatim>\<open>self.epoch >= 0\<close>: one loss is computed on the batch, the reconstruction loss of
  the decoded bottleneck against the images; the classification entry of
  \<^verbatim>\<open>losses_dict\<close> is the constant \<open>0.0\<close>; the contrastive entry is the value the
  dictionary held before the step, which the step leaves as it is; and
  \<^verbatim>\<open>losses_dict['total_loss']\<close> is set to the sum of these three entries, on which
  \<^verbatim>\<open>backward\<close> is then called.
\<close>

theorem train_step_total_loss:
  assumes "train_step env s batch = (s', ev, Inr (losses, accu))" and "0 \<le> epoch s"
  shows "\<exists>rec c evs.
           reconstruct env (decoder s) (swinViT env (model_training s) (batch_image batch) ! 4) = Inr rec \<and>
           losses ''reconstruction_loss'' =
             Some (PyTensor (ReconstructionLoss_forward env 1 rec (batch_image batch))) \<and>
           losses ''classification_loss'' = Some (PyFloat 0) \<and>
           losses_dict s ''contrast_loss'' = Some c \<and>
           losses ''contrast_loss'' = Some c \<and>
           losses ''total_loss'' =
             Some (py_add (py_add (PyFloat 0) c)
                     (PyTensor (ReconstructionLoss_forward env 1 rec (batch_image batch)))) \<and>
           losses_dict s' = losses \<and>
           ev = evs @ [Backward (py_add (py_add (PyFloat 0) c)
                          (PyTensor (ReconstructionLoss_forward env 1 rec (batch_image batch)))),
                       OptimizerStep]"
proof -
  from train_step_success [OF assms(1)] obtain nl bt rec img img0 total_loss where
    rec: "reconstruct env (decoder s) (swinViT env (model_training s) (batch_image batch) ! 4) = Inr rec"
    and tl: "total_loss_of (epoch s)
               ((losses_dict s)(''classification_loss'' \<mapsto> PyFloat 0,
                  ''reconstruction_loss'' \<mapsto>
                    PyTensor (ReconstructionLoss_forward env 1 rec (batch_image batch)))) = Inr total_loss"
    and losses: "losses = (losses_dict s)(''classification_loss'' \<mapsto> PyFloat 0,
                  ''reconstruction_loss'' \<mapsto>
                    PyTensor (ReconstructionLoss_forward env 1 rec (batch_image batch)),
                  ''total_loss'' \<mapsto> total_loss)"
    and s': "losses_dict s' = losses"
    and ev: "ev = [ZeroGrad, Reconstruct (swinViT env (model_training s) (batch_image batch) ! 4),
                   NibSave ''reconstructed_image.nii'' (np_squeeze img),
                   NibSave ''original_image.nii'' (np_squeeze img0),
                   Backward total_loss, OptimizerStep]"
    by blast
  from tl assms(2) obtain c where c: "losses_dict s ''contrast_loss'' = Some c"
    and total: "total_loss = py_add (py_add (PyFloat 0) c)
                  (PyTensor (ReconstructionLoss_forward env 1 rec (batch_image batch)))"
    by (auto simp: total_loss_of_def lookup_def split: option.splits)
  have "ev = [ZeroGrad, Reconstruct (swinViT env (model_training s) (batch_image batch) ! 4),
              NibSave ''reconstructed_image.nii'' (np_squeeze img),
              NibSave ''original_image.nii'' (np_squeeze img0)] @
             [Backward total_loss, OptimizerStep]"
    using ev by simp
  with rec c total losses s' show ?thesis
    by (intro exI [where x = rec] exI [where x = c]
        exI [where x = "[ZeroGrad, Reconstruct (swinViT env (model_training s) (batch_image batch) ! 4),
              NibSave ''reconstructed_image.nii'' (np_squeeze img),
              NibSave ''original_image.nii'' (np_squeeze img0)]"]) simp
qed

theorem train_step_total_loss_witness:
  "(\<exists>s' ev losses accu. train_step ex_env ex_trainer ex_batch = (s', ev, Inr (losses, accu)) \<and>
      losses ''total_loss'' = Some (PyTensor (5 / 4)) \<and>
      losses ''contrast_loss'' = Some (PyInt 0)) \<and>
   0 \<le> epoch ex_trainer"
proof -
  obtain s' ev r where ts: "train_step ex_env ex_trainer ex_batch = (s', ev, r)"
    by (cases "train_step ex_env ex_trainer ex_batch")
  have ok: "r = Inr (losses_dict s', PyInt 0)"
    using ts
    by (auto simp: train_step_def ex_env_def ex_trainer_def ex_batch_def Train_init_def
      ex_l4_def ex_voxel_def split_bottleneck_def torch_split2_def narrow_def
      reconstruct_image_def torch_view_infer_def torch_flatten_def numel_def
      first_sample_def np_squeeze_def reconstruction_step_def ReconstructionLoss_forward_def
      total_loss_of_def lookup_def Let_def)
  have e: "0 \<le> epoch ex_trainer" by (simp add: ex_trainer_def Train_init_def)
  have l: "losses_dict s' ''total_loss'' = Some (PyTensor (5 / 4))"
    "losses_dict s' ''contrast_loss'' = Some (PyInt 0)"
    using ex_train_step_losses ts by simp_all
  from train_step_total_loss [OF ts [unfolded ok] e] ts ok e l show ?thesis
    by auto
qed

text \<open>
  The claim as stated fails on the concrete batch: the contrastive loss computed on the
  batch by \<^verbatim>\<open>contrastive_step\<close> is 3, the contrastive entry that
  \<^verbatim>\<open>train_step\<close> sums is the integer 0 left by \<^verbatim>\<open>__init__\<close>, and the total is
  the reconstruction loss alone.
\<close>

theorem train_step_three_losses_counterexample:
  "split_bottleneck (swinViT ex_env (model_training ex_trainer) (batch_image ex_batch) ! 4)
     (contrastive_latentsize ex_trainer) = Inr (ex_nlatents ! 4, ex_bottleneck) \<and>
   losses_dict (fst (contrastive_step ex_env ex_trainer ex_nlatents (batch_roi_label ex_batch)
                       (contrastive_latentsize ex_trainer))) ''contrast_loss'' = Some (PyTensor 3) \<and>
   losses_dict (fst (train_step ex_env ex_trainer ex_batch)) ''contrast_loss'' = Some (PyInt 0) \<and>
   losses_dict (fst (train_step ex_env ex_trainer ex_batch)) ''classification_loss'' = Some (PyFloat 0) \<and>
   losses_dict (fst (train_step ex_env ex_trainer ex_batch)) ''reconstruction_loss'' = Some (PyTensor (5 / 4)) \<and>
   losses_dict (fst (train_step ex_env ex_trainer ex_batch)) ''total_loss'' = Some (PyTensor (5 / 4))"
proof -
  have a: "swinViT ex_env (model_training ex_trainer) (batch_image ex_batch) ! 4 = ex_l4"
    by (simp add: ex_env_def)
  have b: "contrastive_latentsize ex_trainer = 1" "batch_roi_label ex_batch = [0]"
    by (simp_all add: ex_trainer_def Train_init_def ex_batch_def)
  have c: "ex_nlatents ! 4 = ex_contrastive_part"
    by (simp add: ex_nlatents_def)
  show ?thesis
    unfolding a b c
    using ex_split ex_contrastive_step
    by (simp add: ex_train_step_losses)
qed

text \<open>
  C3, as the code has it. In every training step the decoder is called on the whole
  bottleneck tensor \<^verbatim>\<open>latents[4]\<close>, with all its channels, and on nothing else; a step
  that returns has called it. The reconstruction part of the split is bound to a variable
  and not used.
\<close>

theorem train_step_decodes_whole_latent:
  assumes "train_step env s batch = (s', ev, r)"
  shows "(\<forall>x. Reconstruct x \<in> set ev \<longrightarrow>
               x = swinViT env (model_training s) (batch_image batch) ! 4) \<and>
         ((\<exists>res. r = Inr res) \<longrightarrow>
            Reconstruct (swinViT env (model_training s) (batch_image batch) ! 4) \<in> set ev)"
proof -
  define l4 where "l4 = swinViT env (model_training s) (batch_image batch) ! 4"
  obtain ev1 r1 where ri: "reconstruct_image env (decoder s) l4 = (ev1, r1)"
    by (cases "reconstruct_image env (decoder s) l4")
  from reconstruct_image_cases [OF ri] have ev1: "set ev1 \<subseteq> {Reconstruct l4}"
    by auto
  have only: "x = l4" if "Reconstruct x \<in> set ev" for x
    using that assms ri ev1
    by (auto simp: train_step_def Let_def l4_def [symmetric]
        split: if_splits sum.splits prod.splits)
  have called: "Reconstruct l4 \<in> set ev" if "r = Inr res" for res
  proof -
    obtain losses accu where "res = (losses, accu)" by (cases res)
    with train_step_success [of env s batch s' ev losses accu] assms that
    show ?thesis by (auto simp: l4_def)
  qed
  from only called show ?thesis
    unfolding l4_def by blast
qed

theorem train_step_decodes_whole_latent_witness:
  "(\<exists>s' r. train_step ex_env ex_trainer ex_batch =
      (s', [ZeroGrad, Reconstruct ex_l4,
            NibSave ''reconstructed_image.nii'' \<lparr>shape = [], data = [0]\<rparr>,
            NibSave ''original_image.nii'' \<lparr>shape = [], data = [0]\<rparr>,
            Backward (PyTensor (5 / 4)), OptimizerStep], r)) \<and>
   swinViT ex_env (model_training ex_trainer) (batch_image ex_batch) ! 4 = ex_l4"
proof -
  obtain s' ev r where ts: "train_step ex_env ex_trainer ex_batch = (s', ev, r)"
    by (cases "train_step ex_env ex_trainer ex_batch")
  have a: "swinViT ex_env (model_training ex_trainer) (batch_image ex_batch) ! 4 = ex_l4"
    by (simp add: ex_env_def)
  from train_step_decodes_whole_latent [OF ts] ts ex_train_step_events a
  show ?thesis by auto
qed

text \<open>
  The claim as stated fails on the concrete batch: the decoder is called on the whole
  \<open>ex_l4\<close>, which has two channels, not on the reconstruction part of the split, which
  has one.
\<close>

theorem decoder_input_counterexample:
  "split_bottleneck (swinViT ex_env (model_training ex_trainer) (batch_image ex_batch) ! 4)
     (contrastive_latentsize ex_trainer) = Inr (ex_contrastive_part, ex_bottleneck) \<and>
   fst (snd (train_step ex_env ex_trainer ex_batch)) =
     [ZeroGrad, Reconstruct ex_l4,
      NibSave ''reconstructed_image.nii'' \<lparr>shape = [], data = [0]\<rparr>,
      NibSave ''original_image.nii'' \<lparr>shape = [], data = [0]\<rparr>,
      Backward (PyTensor (5 / 4)), OptimizerStep] \<and>
   ex_l4 \<noteq> ex_bottleneck \<and> shape ex_l4 ! 1 = 2 \<and> shape ex_bottleneck ! 1 = 1"
proof -
  have a: "swinViT ex_env (model_training ex_trainer) (batch_image ex_batch) ! 4 = ex_l4"
    by (simp add: ex_env_def)
  have b: "contrastive_latentsize ex_trainer = 1"
    by (simp add: ex_trainer_def Train_init_def)
  have c: "ex_l4 \<noteq> ex_bottleneck" "shape ex_l4 ! 1 = 2" "shape ex_bottleneck ! 1 = 1"
    by (simp_all add: ex_l4_def ex_bottleneck_def)
  show ?thesis
    unfolding a b using ex_split ex_train_step_events c by simp
qed

subsection \<open>What the parts of the loop leave alone\<close>

lemma train_step_frame:
  assumes "train_step env s b = (s', ev, r)"
  shows "epoch s' = epoch s \<and> num_epoch s' = num_epoch s \<and> acc_dict s' = acc_dict s \<and>
         tsne_plots s' = tsne_plots s \<and> model_training s' = model_training s \<and>
         save_name s' = save_name s \<and>
         (\<forall>e \<in> set ev. \<not> train_cache_event e \<and> \<not> plot_output e)"
proof -
  define l4 where "l4 = swinViT env (model_training s) (batch_image b) ! 4"
  obtain ev1 r1 where ri: "reconstruct_image env (decoder s) l4 = (ev1, r1)"
    by (cases "reconstruct_image env (decoder s) l4")
  from reconstruct_image_cases [OF ri]
  have ev1: "\<forall>e \<in> set ev1. \<not> train_cache_event e \<and> \<not> plot_output e"
    by auto
  from assms ri ev1 show ?thesis
    by (auto simp: train_step_def Let_def l4_def [symmetric] reconstruction_step_def
        split: if_splits sum.splits prod.splits)
qed

lemma save_losses_frame:
  assumes "save_losses s v = (s', ev, r)"
  shows "epoch s' = epoch s \<and> num_epoch s' = num_epoch s \<and> acc_dict s' = acc_dict s \<and>
         tsne_plots s' = tsne_plots s \<and> model_training s' = model_training s \<and>
         save_name s' = save_name s \<and>
         (\<forall>e \<in> set ev. \<not> train_cache_event e \<and> \<not> plot_output e)"
  using assms by (auto simp: save_losses_def Let_def split: sum.splits)

lemma after_step_frame:
  assumes "after_step n k a l c s = (s', ev, r)"
  shows "epoch s' = epoch s \<and> num_epoch s' = num_epoch s \<and> acc_dict s' = acc_dict s \<and>
         tsne_plots s' = tsne_plots s \<and> model_training s' = model_training s \<and>
         save_name s' = save_name s \<and>
         (\<forall>e \<in> set ev. \<not> train_cache_event e \<and> \<not> plot_output e)"
proof (cases "save_losses s (PyFloat ((a + py_num (the (l ''total_loss''))) / real (k + 1)))")
  case (fields s1 ev1 r1)
  note F = save_losses_frame [OF fields]
  from assms fields F show ?thesis
    by (auto simp: after_step_def Let_def lookup_def split: sum.splits option.splits if_splits)
qed


lemma train_epoch_loop_frame:
  assumes "train_epoch_loop env n k a bs s = (s', ev, r)"
  shows "epoch s' = epoch s \<and> num_epoch s' = num_epoch s \<and> acc_dict s' = acc_dict s \<and>
         tsne_plots s' = tsne_plots s \<and> model_training s' = model_training s \<and>
         save_name s' = save_name s \<and>
         (\<forall>e \<in> set ev. \<not> plot_output e) \<and>
         (r = Inr () \<longrightarrow> filter train_cache_event ev = map (\<lambda>b. FetchBatch TrainSet) bs)"
  using assms
proof (induction bs arbitrary: k a s s' ev r)
  case Nil
  then show ?case by auto
next
  case (Cons b bs)
  obtain s1 ev1 r1 where ts: "train_step env s b = (s1, ev1, r1)"
    by (cases "train_step env s b")
  note F1 = train_step_frame [OF ts]
  show ?case
  proof (cases r1)
    case (Inl e)
    with Cons.prems ts F1 show ?thesis by auto
  next
    case (Inr p)
    obtain l c where p: "p = (l, c)" by (cases p)
    obtain s2 ev2 r2 where as: "after_step n k a l c s1 = (s2, ev2, r2)"
      by (cases "after_step n k a l c s1")
    note F2 = after_step_frame [OF as]
    show ?thesis
    proof (cases r2)
      case (Inl e)
      with Cons.prems ts \<open>r1 = Inr p\<close> p as F1 F2 show ?thesis by auto
    next
      case (Inr a')
      obtain s3 ev3 r3 where rec: "train_epoch_loop env n (Suc k) a' bs s2 = (s3, ev3, r3)"
        by (cases "train_epoch_loop env n (Suc k) a' bs s2")
      note IH = Cons.IH [OF rec]
      from Cons.prems ts \<open>r1 = Inr p\<close> p as Inr rec
      have res: "s' = s3" "ev = FetchBatch TrainSet # ev1 @ ev2 @ ev3" "r = r3"
        by simp_all
      have none: "filter train_cache_event ev1 = []" "filter train_cache_event ev2 = []"
        using F1 F2 by (simp_all add: filter_empty_conv)
      from res IH F1 F2 none show ?thesis by auto
    qed
  qed
qed

lemma train_epoch_frame:
  assumes "train_epoch env s = (s', ev, r)"
  shows "num_epoch s' = num_epoch s \<and> acc_dict s' = acc_dict s \<and>
         tsne_plots s' = tsne_plots s \<and> model_training s' = model_training s \<and>
         save_name s' = save_name s \<and>
         (\<forall>e \<in> set ev. \<not> plot_output e) \<and>
         (r = Inr () \<longrightarrow> epoch s' = epoch s + 1 \<and>
            filter train_cache_event ev = map (\<lambda>b. FetchBatch TrainSet) (train_loader env (epoch s)))"
proof -
  obtain s1 ev1 r1 where l: "train_epoch_loop env (length (train_loader env (epoch s))) 0 0
                               (train_loader env (epoch s)) s = (s1, ev1, r1)"
    by (cases "train_epoch_loop env (length (train_loader env (epoch s))) 0 0
                 (train_loader env (epoch s)) s")
  note F = train_epoch_loop_frame [OF l]
  from assms l F show ?thesis
    by (cases r1) (auto simp: train_epoch_def Let_def)
qed

lemma epoch_end_frame:
  assumes "epoch_end env pf s = (s', ev)"
  shows "epoch s' = epoch s \<and> num_epoch s' = num_epoch s \<and> acc_dict s' = acc_dict s \<and>
         save_name s' = save_name s \<and>
         filter train_cache_event ev =
           DatasetUpdateCache TrainSet #
           (if epoch s mod 5 = 0 then map (\<lambda>b. FetchBatch TrainSet) (plot_loader env (epoch s)) else [])"
  using assms
  by (auto simp: epoch_end_def plot_latent_space_def Let_def filter_map o_def
      split: if_splits option.splits)

lemma epoch_body_frame:
  assumes "epoch_body env pf s = (s', ev, r)"
  shows "num_epoch s' = num_epoch s \<and> acc_dict s' = acc_dict s \<and> save_name s' = save_name s \<and>
         (r = Inr () \<longrightarrow> epoch s' = epoch s + 1 \<and>
            filter train_cache_event ev =
              map (\<lambda>b. FetchBatch TrainSet) (train_loader env (epoch s)) @
              [DatasetUpdateCache TrainSet] @
              (if (epoch s + 1) mod 5 = 0
               then map (\<lambda>b. FetchBatch TrainSet) (plot_loader env (epoch s + 1)) else []))"
proof -
  obtain s1 ev1 r1 where te: "train_epoch env s = (s1, ev1, r1)"
    by (cases "train_epoch env s")
  note F1 = train_epoch_frame [OF te]
  show ?thesis
  proof (cases r1)
    case (Inl e)
    with assms te F1 show ?thesis by (auto simp: epoch_body_def)
  next
    case (Inr u)
    obtain s2 ev2 where ee: "epoch_end env pf s1 = (s2, ev2)"
      by (cases "epoch_end env pf s1")
    note F2 = epoch_end_frame [OF ee]
    from assms te Inr ee have "s' = s2" "ev = ev1 @ ev2" "r = Inr ()"
      by (simp_all add: epoch_body_def)
    with F1 F2 Inr show ?thesis by simp
  qed
qed

declare train_loop.simps [simp del] expected_lifecycle.simps [simp del]
  str_replace.simps [simp del] str_nat.simps [simp del]

lemma train_loop_frame:
  assumes "train_loop env pf s = (s', ev, r)"
  shows "num_epoch s' = num_epoch s \<and> acc_dict s' = acc_dict s \<and> save_name s' = save_name s \<and>
         (r = Inr () \<longrightarrow>
            \<not> epoch s' < num_epoch s' \<and>
            filter train_cache_event ev = expected_lifecycle env (epoch s) (num_epoch s))"
  using assms
proof (induction env pf s arbitrary: s' ev r rule: train_loop.induct)
  case (1 env pf s)
  show ?case
  proof (cases "epoch s < num_epoch s")
    case False
    with "1.prems" have "s' = s" "ev = []" "r = Inr ()"
      by (simp_all add: train_loop.simps [of env pf s])
    with False show ?thesis
      by (simp add: expected_lifecycle.simps [of env "epoch s" "num_epoch s"])
  next
    case True
    obtain s1 ev1 r1 where eb: "epoch_body env pf s = (s1, ev1, r1)"
      by (cases "epoch_body env pf s")
    note F1 = epoch_body_frame [OF eb]
    show ?thesis
    proof (cases r1)
      case (Inl e)
      with "1.prems" True eb have "s' = s1" "r = Inl e"
        by (simp_all add: train_loop.simps [of env pf s])
      with F1 show ?thesis by simp
    next
      case (Inr u)
      obtain s2 ev2 r2 where rec: "train_loop env pf s1 = (s2, ev2, r2)"
        by (cases "train_loop env pf s1")
      have eb': "(s1, ev1, r1) = epoch_body env pf s" using eb by simp
      note IH = "1.IH" [OF True eb' refl Inr rec]
      from "1.prems" True eb Inr rec have res: "s' = s2" "ev = ev1 @ ev2" "r = r2"
        by (simp_all add: train_loop.simps [of env pf s])
      from res IH F1 Inr True show ?thesis
        by (auto simp: expected_lifecycle.simps [of env "epoch s" "num_epoch s"])
    qed
  qed
qed



lemma count_list_filter:
  assumes "P x"
  shows "count_list (filter P xs) x = count_list xs x"
  using assms by (induction xs) auto

lemma count_list_fetches [simp]:
  "count_list (map (\<lambda>b. FetchBatch TrainSet) bs) (DatasetUpdateCache TrainSet) = 0"
  "count_list (map (\<lambda>b. FetchBatch TrainSet) bs) (DatasetStart TrainSet) = 0"
  "count_list (map (\<lambda>b. FetchBatch TrainSet) bs) (DatasetShutdown TrainSet) = 0"
  by (induction bs) simp_all

lemma expected_lifecycle_counts:
  "count_list (expected_lifecycle env e n) (DatasetUpdateCache TrainSet) = nat (n - e) \<and>
   count_list (expected_lifecycle env e n) (DatasetStart TrainSet) = 0 \<and>
   count_list (expected_lifecycle env e n) (DatasetShutdown TrainSet) = 0"
proof (induction env e n rule: expected_lifecycle.induct)
  case (1 env e n)
  show ?case
  proof (cases "e < n")
    case True
    then have "nat (n - e) = Suc (nat (n - (e + 1)))" by simp
    with "1.IH" [OF True] True show ?thesis
      by (simp add: expected_lifecycle.simps [of env e n])
  next
    case False
    then show ?thesis
      by (simp add: expected_lifecycle.simps [of env e n])
  qed
qed

lemma create_gif_no_cache_event: "filter train_cache_event (fst (create_gif s)) = []"
  by (simp add: create_gif_def filter_empty_conv)

lemma plot_losses_no_cache_event: "filter train_cache_event (fst (plot_losses s)) = []"
  by (simp add: plot_losses_def split: sum.splits)

text \<open>
  What \<^verbatim>\<open>train\<close> does after its loop touches the cached training dataset once, in the
  \<^verbatim>\<open>shutdown\<close> that precedes \<^verbatim>\<open>create_gif\<close> and \<^verbatim>\<open>plot_losses\<close>, whether these
  raise or not; and it leaves the trainer as the loop left it.
\<close>

lemma train_body_after_loop:
  assumes "train_loop env pf (s\<lparr>model_training := True\<rparr>) = (s1, ev1, r1)"
  shows "fst (train_body env pf s) = s1 \<and>
         filter train_cache_event (fst (snd (train_body env pf s)))
           = DatasetStart TrainSet # filter train_cache_event ev1
               @ (case r1 of Inl e \<Rightarrow> [] | Inr u \<Rightarrow> [DatasetShutdown TrainSet])"
proof -
  obtain evg rg where g: "create_gif s1 = (evg, rg)"
    by (cases "create_gif s1")
  obtain ev3 r3 where p: "plot_losses s1 = (ev3, r3)"
    by (cases "plot_losses s1")
  from create_gif_no_cache_event [of s1] g have eg: "filter train_cache_event evg = []"
    by simp
  from plot_losses_no_cache_event [of s1] p have e3: "filter train_cache_event ev3 = []"
    by simp
  from assms g p eg e3 show ?thesis
    by (cases r1; cases rg; cases r3) (simp_all add: train_body_def Let_def)
qed

lemma train_keeps_body:
  "fst (train env pf s) = fst (train_body env pf s) \<and>
   fst (snd (train env pf s)) = fst (snd (train_body env pf s))"
  by (simp add: train_def split: prod.splits sum.splits)

text \<open>
  C7. In every call of \<^verbatim>\<open>train\<close> whose loop runs through all its epochs, the cached
  training dataset is touched in this order and no other: one \<^verbatim>\<open>start\<close>; then, for
  each epoch, the batches of the epoch followed by one \<^verbatim>\<open>update_cache\<close> (and, every
  fifth epoch, the batches drawn for the plot); then one \<^verbatim>\<open>shutdown\<close>. So
  \<^verbatim>\<open>start\<close> is called exactly once and before the first batch, \<^verbatim>\<open>update_cache\<close>
  exactly once after every epoch, and \<^verbatim>\<open>shutdown\<close> exactly once, after the last
  epoch.
\<close>

theorem train_cache_lifecycle:
  assumes "train_body env pf s = (s', ev, r)"
    and "snd (snd (train_loop env pf (s\<lparr>model_training := True\<rparr>))) = Inr ()"
  shows "filter train_cache_event ev =
           DatasetStart TrainSet # expected_lifecycle env (epoch s) (num_epoch s)
             @ [DatasetShutdown TrainSet] \<and>
         count_list ev (DatasetStart TrainSet) = 1 \<and>
         count_list ev (DatasetShutdown TrainSet) = 1 \<and>
         count_list ev (DatasetUpdateCache TrainSet) = nat (num_epoch s - epoch s)"
proof -
  obtain s1 ev1 r1 where tl: "train_loop env pf (s\<lparr>model_training := True\<rparr>) = (s1, ev1, r1)"
    by (cases "train_loop env pf (s\<lparr>model_training := True\<rparr>)")
  with assms(2) have r1: "r1 = Inr ()" by simp
  from train_loop_frame [OF tl] r1
  have loop: "filter train_cache_event ev1 = expected_lifecycle env (epoch s) (num_epoch s)"
    by simp
  from train_body_after_loop [OF tl] assms(1) r1 loop
  have f: "filter train_cache_event ev =
             DatasetStart TrainSet # expected_lifecycle env (epoch s) (num_epoch s)
               @ [DatasetShutdown TrainSet]"
    by simp
  note n = expected_lifecycle_counts [of env "epoch s" "num_epoch s"]
  have "count_list ev (DatasetStart TrainSet)
        = count_list (filter train_cache_event ev) (DatasetStart TrainSet)"
    by (rule count_list_filter [symmetric]) simp
  also have "\<dots> = 1"
    unfolding f using n by simp
  finally have c1: "count_list ev (DatasetStart TrainSet) = 1" .
  have "count_list ev (DatasetShutdown TrainSet)
        = count_list (filter train_cache_event ev) (DatasetShutdown TrainSet)"
    by (rule count_list_filter [symmetric]) simp
  also have "\<dots> = 1"
    unfolding f using n by simp
  finally have c2: "count_list ev (DatasetShutdown TrainSet) = 1" .
  have "count_list ev (DatasetUpdateCache TrainSet)
        = count_list (filter train_cache_event ev) (DatasetUpdateCache TrainSet)"
    by (rule count_list_filter [symmetric]) simp
  also have "\<dots> = nat (num_epoch s - epoch s)"
    unfolding f using n by simp
  finally have c3: "count_list ev (DatasetUpdateCache TrainSet) = nat (num_epoch s - epoch s)" .
  from f c1 c2 c3 show ?thesis by blast
qed

subsection \<open>The saved plots do not influence training\<close>

lemma train_step_plots:
  "train_step env (s\<lparr>tsne_plots := p\<rparr>) b =
     (case train_step env s b of (s', ev, r) \<Rightarrow> (s'\<lparr>tsne_plots := p\<rparr>, ev, r))"
  by (simp add: train_step_def Let_def reconstruction_step_def
      split: sum.splits prod.splits)

lemma save_losses_plots:
  "save_losses (s\<lparr>tsne_plots := p\<rparr>) v =
     (case save_losses s v of (s', ev, r) \<Rightarrow> (s'\<lparr>tsne_plots := p\<rparr>, ev, r))"
  by (simp add: save_losses_def Let_def split: sum.splits)

lemma after_step_plots:
  "after_step n k a l c (s\<lparr>tsne_plots := p\<rparr>) =
     (case after_step n k a l c s of (s', ev, r) \<Rightarrow> (s'\<lparr>tsne_plots := p\<rparr>, ev, r))"
  by (simp add: after_step_def Let_def save_losses_plots split: sum.splits prod.splits)

lemma train_epoch_loop_plots:
  "train_epoch_loop env n k a bs (s\<lparr>tsne_plots := p\<rparr>) =
     (case train_epoch_loop env n k a bs s of (s', ev, r) \<Rightarrow> (s'\<lparr>tsne_plots := p\<rparr>, ev, r))"
proof (induction bs arbitrary: k a s)
  case Nil
  show ?case by simp
next
  case (Cons b bs)
  show ?case
    by (simp add: train_step_plots after_step_plots Cons.IH split: sum.splits prod.splits)
qed

lemma train_epoch_plots:
  "train_epoch env (s\<lparr>tsne_plots := p\<rparr>) =
     (case train_epoch env s of (s', ev, r) \<Rightarrow> (s'\<lparr>tsne_plots := p\<rparr>, ev, r))"
  by (simp add: train_epoch_def Let_def train_epoch_loop_plots split: sum.splits prod.splits)


lemma without_plot_output_append [simp]:
  "without_plot_output (xs @ ys) = without_plot_output xs @ without_plot_output ys"
  by (simp add: without_plot_output_def)

lemma without_plot_output_id:
  assumes "\<forall>e \<in> set ev. \<not> plot_output e"
  shows "without_plot_output ev = ev"
  using assms by (simp add: without_plot_output_def)

lemma epoch_end_any_failure:
  assumes "epoch_end env pf s = (s', ev)"
    and "epoch_end env pf' (s\<lparr>tsne_plots := p\<rparr>) = (t, ev')"
  shows "t = s'\<lparr>tsne_plots := tsne_plots t\<rparr> \<and> without_plot_output ev' = without_plot_output ev"
  using assms
  by (auto simp: epoch_end_def plot_latent_space_def Let_def without_plot_output_def
      filter_map o_def split: if_splits option.splits)

lemma epoch_body_any_failure:
  assumes "epoch_body env pf s = (s1, ev1, r1)"
    and "epoch_body env pf' (s\<lparr>tsne_plots := p\<rparr>) = (t1, ev1', r1')"
  shows "r1' = r1 \<and> t1 = s1\<lparr>tsne_plots := tsne_plots t1\<rparr> \<and>
         without_plot_output ev1' = without_plot_output ev1"
proof -
  obtain s0 ev0 r0 where te: "train_epoch env s = (s0, ev0, r0)"
    by (cases "train_epoch env s")
  then have te': "train_epoch env (s\<lparr>tsne_plots := p\<rparr>) = (s0\<lparr>tsne_plots := p\<rparr>, ev0, r0)"
    by (simp add: train_epoch_plots)
  show ?thesis
  proof (cases r0)
    case (Inl e)
    with assms te te' show ?thesis by (auto simp: epoch_body_def)
  next
    case (Inr u)
    obtain s2 ev2 where e1: "epoch_end env pf s0 = (s2, ev2)"
      by (cases "epoch_end env pf s0")
    obtain t2 ev2' where e2: "epoch_end env pf' (s0\<lparr>tsne_plots := p\<rparr>) = (t2, ev2')"
      by (cases "epoch_end env pf' (s0\<lparr>tsne_plots := p\<rparr>)")
    note E = epoch_end_any_failure [OF e1 e2]
    from assms te te' Inr e1 e2
    have "s1 = s2" "ev1 = ev0 @ ev2" "r1 = Inr ()" "t1 = t2" "ev1' = ev0 @ ev2'" "r1' = Inr ()"
      by (auto simp: epoch_body_def)
    with E show ?thesis by simp
  qed
qed

lemma train_loop_any_failure:
  assumes "train_loop env pf s = (sa, eva, ra)"
    and "train_loop env pf' (s\<lparr>tsne_plots := p\<rparr>) = (sb, evb, rb)"
  shows "rb = ra \<and> sb = sa\<lparr>tsne_plots := tsne_plots sb\<rparr> \<and>
         without_plot_output evb = without_plot_output eva"
  using assms
proof (induction env pf s arbitrary: sa eva ra sb evb rb p rule: train_loop.induct)
  case (1 env pf s)
  show ?case
  proof (cases "epoch s < num_epoch s")
    case False
    from "1.prems"(1) False have A: "sa = s" "eva = []" "ra = Inr ()"
      by (auto simp: train_loop.simps [of env pf s])
    from "1.prems"(2) False have C: "sb = s\<lparr>tsne_plots := p\<rparr>" "evb = []" "rb = Inr ()"
      by (auto simp: train_loop.simps [of env pf' "s\<lparr>tsne_plots := p\<rparr>"])
    from A C show ?thesis by simp
  next
    case True
    obtain s1 ev1 r1 where b1: "epoch_body env pf s = (s1, ev1, r1)"
      by (cases "epoch_body env pf s")
    obtain t1 ev1' r1' where b2: "epoch_body env pf' (s\<lparr>tsne_plots := p\<rparr>) = (t1, ev1', r1')"
      by (cases "epoch_body env pf' (s\<lparr>tsne_plots := p\<rparr>)")
    note B = epoch_body_any_failure [OF b1 b2]
    show ?thesis
    proof (cases r1)
      case (Inl e)
      from "1.prems"(1) True b1 Inl have A: "sa = s1" "eva = ev1" "ra = r1"
        by (auto simp: train_loop.simps [of env pf s])
      from "1.prems"(2) True b2 B Inl have C: "sb = t1" "evb = ev1'" "rb = r1'"
        by (auto simp: train_loop.simps [of env pf' "s\<lparr>tsne_plots := p\<rparr>"])
      from A C B show ?thesis by simp
    next
      case (Inr u)
      obtain s2 ev2 r2 where l1: "train_loop env pf s1 = (s2, ev2, r2)"
        by (cases "train_loop env pf s1")
      from B have t1: "t1 = s1\<lparr>tsne_plots := tsne_plots t1\<rparr>" by simp
      obtain t2 ev2' r2' where l2: "train_loop env pf' (s1\<lparr>tsne_plots := tsne_plots t1\<rparr>) = (t2, ev2', r2')"
        by (cases "train_loop env pf' (s1\<lparr>tsne_plots := tsne_plots t1\<rparr>)")
      have b1': "(s1, ev1, r1) = epoch_body env pf s" using b1 by simp
      note IH = "1.IH" [OF True b1' refl Inr l1 l2]
      from "1.prems"(1) True b1 Inr l1 have A: "sa = s2" "eva = ev1 @ ev2" "ra = r2"
        by (auto simp: train_loop.simps [of env pf s])
      from l2 t1 have l2': "train_loop env pf' t1 = (t2, ev2', r2')" by simp
      from "1.prems"(2) True b2 B Inr l2' have C: "sb = t2" "evb = ev1' @ ev2'" "rb = r2'"
        by (auto simp: train_loop.simps [of env pf' "s\<lparr>tsne_plots := p\<rparr>"])
      from A C IH B show ?thesis by simp
    qed
  qed
qed


lemma filter_cache_without_plot_output:
  "filter train_cache_event (without_plot_output ev) = filter train_cache_event ev"
proof -
  have "train_cache_event e \<Longrightarrow> \<not> plot_output e" for e
    by (cases e) simp_all
  then have "filter train_cache_event (filter (\<lambda>e. \<not> plot_output e) ev) = filter train_cache_event ev"
    by (induction ev) auto
  then show ?thesis by (simp add: without_plot_output_def)
qed

lemma plot_losses_plots: "plot_losses (s\<lparr>tsne_plots := p\<rparr>) = plot_losses s"
  by (simp add: plot_losses_def split: sum.splits)

lemma train_any_failure:
  "epoch (fst (train env pf s)) = epoch (fst (train env pf' s)) \<and>
   filter train_cache_event (fst (snd (train env pf s)))
     = filter train_cache_event (fst (snd (train env pf' s)))"
proof -
  define s0 where "s0 = s\<lparr>model_training := True\<rparr>"
  obtain sa eva ra where la: "train_loop env pf s0 = (sa, eva, ra)"
    by (cases "train_loop env pf s0")
  obtain sb evb rb where lb: "train_loop env pf' s0 = (sb, evb, rb)"
    by (cases "train_loop env pf' s0")
  have "s0\<lparr>tsne_plots := tsne_plots s0\<rparr> = s0" by simp
  with lb have lb': "train_loop env pf' (s0\<lparr>tsne_plots := tsne_plots s0\<rparr>) = (sb, evb, rb)"
    by simp
  note L = train_loop_any_failure [OF la lb']
  from L have r: "rb = ra" and sb: "sb = sa\<lparr>tsne_plots := tsne_plots sb\<rparr>" by simp_all
  from L have "filter train_cache_event (without_plot_output evb)
               = filter train_cache_event (without_plot_output eva)"
    by simp
  then have ev: "filter train_cache_event evb = filter train_cache_event eva"
    by (simp only: filter_cache_without_plot_output)
  have ep: "epoch sb = epoch sa"
    by (subst sb) simp
  note A = train_body_after_loop [OF la [unfolded s0_def]]
  note B = train_body_after_loop [OF lb [unfolded s0_def]]
  from A B r ev ep show ?thesis
    by (simp add: train_keeps_body)
qed

text \<open>
  C6. The only error handling in the training loop is the guard around the plot.
  \<^item> An exception of \<^verbatim>\<open>plot_latent_space\<close> is caught and printed, and the pass ends
    in the state a successful plot leaves, but for the missing entry of
    \<^verbatim>\<open>tsne_plots\<close>.
  \<^item> Whatever the plots do, in whichever epochs they fail, the loop ends the same way,
    in the same state but for \<^verbatim>\<open>tsne_plots\<close>, and with the same events but for the
    output of the plots; the whole of \<^verbatim>\<open>train\<close> ends with the same epoch counter
    and has made the same calls on the cached training dataset.
  \<^item> An exception of \<^verbatim>\<open>train_epoch\<close> is not caught: it leaves the loop.
\<close>

theorem plot_failure_is_caught:
  "(\<forall>e. epoch s mod 5 = 0 \<longrightarrow> pf (epoch s) = Some e \<longrightarrow>
        epoch_end env pf s =
          (s\<lparr>model_training := False\<rparr>,
           [LrSchedulerStep, DatasetUpdateCache TrainSet, ModelEval]
             @ map (\<lambda>b. FetchBatch TrainSet) (plot_loader env (epoch s))
             @ [PrintErrorPlotting e]) \<and>
        fst (epoch_end env pf s) = (fst (epoch_end env (\<lambda>e. None) s))\<lparr>tsne_plots := tsne_plots s\<rparr>) \<and>
   snd (snd (train_loop env pf s)) = snd (snd (train_loop env pf' s)) \<and>
   (fst (train_loop env pf s))\<lparr>tsne_plots := []\<rparr> = (fst (train_loop env pf' s))\<lparr>tsne_plots := []\<rparr> \<and>
   without_plot_output (fst (snd (train_loop env pf s)))
     = without_plot_output (fst (snd (train_loop env pf' s))) \<and>
   epoch (fst (train env pf s)) = epoch (fst (train env pf' s)) \<and>
   filter train_cache_event (fst (snd (train env pf s)))
     = filter train_cache_event (fst (snd (train env pf' s))) \<and>
   (\<forall>e. epoch s < num_epoch s \<longrightarrow> snd (snd (train_epoch env s)) = Inl e \<longrightarrow>
        train_loop env pf s = train_epoch env s)"
proof -
  have a: "epoch_end env pf s =
          (s\<lparr>model_training := False\<rparr>,
           [LrSchedulerStep, DatasetUpdateCache TrainSet, ModelEval]
             @ map (\<lambda>b. FetchBatch TrainSet) (plot_loader env (epoch s))
             @ [PrintErrorPlotting e]) \<and>
        fst (epoch_end env pf s) = (fst (epoch_end env (\<lambda>e. None) s))\<lparr>tsne_plots := tsne_plots s\<rparr>"
    if "epoch s mod 5 = 0" "pf (epoch s) = Some e" for e
    using that by (simp add: epoch_end_def plot_latent_space_def Let_def)
  obtain sa eva ra where la: "train_loop env pf s = (sa, eva, ra)"
    by (cases "train_loop env pf s")
  obtain sb evb rb where lb: "train_loop env pf' s = (sb, evb, rb)"
    by (cases "train_loop env pf' s")
  have "s\<lparr>tsne_plots := tsne_plots s\<rparr> = s" by simp
  with lb have lb': "train_loop env pf' (s\<lparr>tsne_plots := tsne_plots s\<rparr>) = (sb, evb, rb)"
    by simp
  note L = train_loop_any_failure [OF la lb']
  from L have "sb\<lparr>tsne_plots := []\<rparr> = (sa\<lparr>tsne_plots := tsne_plots sb\<rparr>)\<lparr>tsne_plots := []\<rparr>"
    by simp
  then have st: "sa\<lparr>tsne_plots := []\<rparr> = sb\<lparr>tsne_plots := []\<rparr>" by simp
  have c: "train_loop env pf s = train_epoch env s"
    if "epoch s < num_epoch s" "snd (snd (train_epoch env s)) = Inl e" for e
  proof -
    obtain s1 ev1 r1 where te: "train_epoch env s = (s1, ev1, r1)"
      by (cases "train_epoch env s")
    with that(2) have "r1 = Inl e" by simp
    with te that(1) show ?thesis
      by (simp add: train_loop.simps [of env pf s] epoch_body_def)
  qed
  have A: "\<forall>e. epoch s mod 5 = 0 \<longrightarrow> pf (epoch s) = Some e \<longrightarrow>
        epoch_end env pf s =
          (s\<lparr>model_training := False\<rparr>,
           [LrSchedulerStep, DatasetUpdateCache TrainSet, ModelEval]
             @ map (\<lambda>b. FetchBatch TrainSet) (plot_loader env (epoch s))
             @ [PrintErrorPlotting e]) \<and>
        fst (epoch_end env pf s) = (fst (epoch_end env (\<lambda>e. None) s))\<lparr>tsne_plots := tsne_plots s\<rparr>"
    using a by blast
  have C: "\<forall>e. epoch s < num_epoch s \<longrightarrow> snd (snd (train_epoch env s)) = Inl e \<longrightarrow>
        train_loop env pf s = train_epoch env s"
    using c by blast
  have B1: "snd (snd (train_loop env pf s)) = snd (snd (train_loop env pf' s))"
    using la lb L by simp
  have B2: "(fst (train_loop env pf s))\<lparr>tsne_plots := []\<rparr> = (fst (train_loop env pf' s))\<lparr>tsne_plots := []\<rparr>"
    using la lb st by simp
  have B3: "without_plot_output (fst (snd (train_loop env pf s)))
              = without_plot_output (fst (snd (train_loop env pf' s)))"
    using la lb L by simp
  note T = train_any_failure [of env pf s pf']
  from A B1 B2 B3 T C show ?thesis
    by blast
qed

subsection \<open>The concrete runs\<close>

lemmas ex_defs = train_step_def ex_env_def ex_trainer_def ex_batch_def Train_init_def
  ex_l4_def ex_voxel_def split_bottleneck_def torch_split2_def narrow_def
  reconstruct_image_def torch_view_infer_def torch_flatten_def numel_def
  first_sample_def np_squeeze_def reconstruction_step_def ReconstructionLoss_forward_def
  total_loss_of_def lookup_def Let_def train_epoch_def after_step_def save_losses_def
  step_interval_def epoch_body_def epoch_end_def plot_latent_space_def no_failure_def

lemma ex_train_loop_done:
  "snd (snd (train_loop ex_env no_failure (ex_trainer\<lparr>model_training := True\<rparr>))) = Inr () \<and>
   epoch (fst (train_loop ex_env no_failure (ex_trainer\<lparr>model_training := True\<rparr>))) = 1 \<and>
   contrast_losses (fst (train_loop ex_env no_failure (ex_trainer\<lparr>model_training := True\<rparr>))) = [PyInt 0]"
  by (simp add: ex_defs train_loop.simps)

lemma ex_expected_lifecycle:
  "expected_lifecycle ex_env 0 1 = [FetchBatch TrainSet, DatasetUpdateCache TrainSet]"
  by (simp add: expected_lifecycle.simps ex_env_def)

theorem train_cache_lifecycle_witness:
  "snd (snd (train_loop ex_env no_failure (ex_trainer\<lparr>model_training := True\<rparr>))) = Inr () \<and>
   filter train_cache_event (fst (snd (train_body ex_env no_failure ex_trainer))) =
     [DatasetStart TrainSet, FetchBatch TrainSet, DatasetUpdateCache TrainSet, DatasetShutdown TrainSet] \<and>
   count_list (fst (snd (train_body ex_env no_failure ex_trainer))) (DatasetStart TrainSet) = 1 \<and>
   count_list (fst (snd (train_body ex_env no_failure ex_trainer))) (DatasetShutdown TrainSet) = 1 \<and>
   count_list (fst (snd (train_body ex_env no_failure ex_trainer))) (DatasetUpdateCache TrainSet) = 1"
proof -
  obtain s' ev r where tb: "train_body ex_env no_failure ex_trainer = (s', ev, r)"
    by (cases "train_body ex_env no_failure ex_trainer")
  have h: "snd (snd (train_loop ex_env no_failure (ex_trainer\<lparr>model_training := True\<rparr>))) = Inr ()"
    using ex_train_loop_done by simp
  have e: "epoch ex_trainer = 0" "num_epoch ex_trainer = 1"
    by (simp_all add: ex_trainer_def Train_init_def)
  from train_cache_lifecycle [OF tb h] tb h e ex_expected_lifecycle show ?thesis
    by simp
qed


theorem plot_failure_is_caught_witness:
  "epoch (ex_trainer6\<lparr>epoch := 5\<rparr>) mod 5 = 0 \<and>
   failure_at_5 (epoch (ex_trainer6\<lparr>epoch := 5\<rparr>)) = Some RuntimeError \<and>
   epoch_end ex_env failure_at_5 (ex_trainer6\<lparr>epoch := 5\<rparr>) =
     (ex_trainer6\<lparr>epoch := 5, model_training := False\<rparr>,
      [LrSchedulerStep, DatasetUpdateCache TrainSet, ModelEval, FetchBatch TrainSet,
       PrintErrorPlotting RuntimeError]) \<and>
   epoch ex_trainer_bad < num_epoch ex_trainer_bad \<and>
   snd (snd (train_epoch ex_env ex_trainer_bad)) = Inl RuntimeError \<and>
   snd (snd (train_loop ex_env failure_at_5 ex_trainer_bad)) = Inl RuntimeError \<and>
   snd (snd (train_loop ex_env failure_at_5 ex_trainer6))
     = snd (snd (train_loop ex_env no_failure ex_trainer6))"
proof -
  have h1: "epoch (ex_trainer6\<lparr>epoch := 5\<rparr>) mod 5 = 0" by simp
  have h2: "failure_at_5 (epoch (ex_trainer6\<lparr>epoch := 5\<rparr>)) = Some RuntimeError"
    by (simp add: failure_at_5_def)
  have h3: "epoch ex_trainer_bad < num_epoch ex_trainer_bad"
    by (simp add: ex_trainer_bad_def Train_init_def)
  have h4: "snd (snd (train_epoch ex_env ex_trainer_bad)) = Inl RuntimeError"
    by (simp add: train_epoch_def train_step_def ex_env_def ex_trainer_bad_def Train_init_def
        ex_l4_def split_bottleneck_def torch_split2_def Let_def)
  have p: "plot_loader ex_env 5 = [ex_batch]" by (simp add: ex_env_def)
  note A = plot_failure_is_caught [where s = "ex_trainer6\<lparr>epoch := 5\<rparr>" and pf = failure_at_5
      and env = ex_env and pf' = no_failure]
  note B = plot_failure_is_caught [where s = ex_trainer_bad and pf = failure_at_5
      and env = ex_env and pf' = no_failure]
  note C = plot_failure_is_caught [where s = ex_trainer6 and pf = failure_at_5
      and env = ex_env and pf' = no_failure]
  from A h1 h2 p have a: "epoch_end ex_env failure_at_5 (ex_trainer6\<lparr>epoch := 5\<rparr>) =
     (ex_trainer6\<lparr>epoch := 5, model_training := False\<rparr>,
      [LrSchedulerStep, DatasetUpdateCache TrainSet, ModelEval, FetchBatch TrainSet,
       PrintErrorPlotting RuntimeError])"
    by simp
  from B h3 h4 have b: "snd (snd (train_loop ex_env failure_at_5 ex_trainer_bad)) = Inl RuntimeError"
    by simp
  from C have c: "snd (snd (train_loop ex_env failure_at_5 ex_trainer6))
                  = snd (snd (train_loop ex_env no_failure ex_trainer6))"
    by blast
  from h1 h2 h3 h4 a b c show ?thesis by blast
qed

subsection \<open>The value \<^verbatim>\<open>train\<close> is to return\<close>

lemma train_body_acc_dict:
  "acc_dict (fst (train_body env pf s)) = acc_dict s"
proof -
  obtain s1 ev1 r1 where tl: "train_loop env pf (s\<lparr>model_training := True\<rparr>) = (s1, ev1, r1)"
    by (cases "train_loop env pf (s\<lparr>model_training := True\<rparr>)")
  from train_loop_frame [OF tl] have "acc_dict s1 = acc_dict s" by simp
  with tl show ?thesis
    by (simp add: train_body_def Let_def split: sum.splits prod.splits)
qed

text \<open>
  C9, as the code has it. \<^verbatim>\<open>acc_dict\<close> is initialised without the key
  \<^verbatim>\<open>'best_test_acc'\<close>, and nothing that \<^verbatim>\<open>train\<close> executes changes
  \<^verbatim>\<open>acc_dict\<close> (\<^verbatim>\<open>test_epoch\<close>, the only writer of the key, is never called). So
  \<^verbatim>\<open>train\<close> never returns a value: whenever its last statement
  \<^verbatim>\<open>return self.acc_dict['best_test_acc']\<close> is reached, it raises
  \<^verbatim>\<open>KeyError\<close>, and otherwise an earlier exception has ended the call.
\<close>

theorem train_never_returns_best_test_acc:
  assumes "acc_dict s ''best_test_acc'' = None"
  shows "(\<exists>e. snd (snd (train env pf s)) = Inl e) \<and>
         acc_dict (fst (train env pf s)) = acc_dict s \<and>
         (snd (snd (train_body env pf s)) = Inr () \<longrightarrow>
            snd (snd (train env pf s)) = Inl (KeyError ''best_test_acc'')) \<and>
         acc_dict (Train_init n k savename w) ''best_test_acc'' = None"
proof -
  obtain s1 ev r where tb: "train_body env pf s = (s1, ev, r)"
    by (cases "train_body env pf s")
  with train_body_acc_dict [of env pf s] have acc: "acc_dict s1 = acc_dict s" by simp
  have init: "acc_dict (Train_init n k savename w) ''best_test_acc'' = None"
    by (simp add: Train_init_def)
  show ?thesis
  proof (cases r)
    case (Inl e)
    with tb acc init show ?thesis by (simp add: train_def)
  next
    case (Inr u)
    with tb acc assms init show ?thesis by (simp add: train_def lookup_def)
  qed
qed

text \<open>
  A trainer fresh from \<^verbatim>\<open>__init__\<close> that runs no epoch has saved no plot, and its
  \<^verbatim>\<open>train\<close> ends in \<^verbatim>\<open>create_gif\<close>, before the last statement.
\<close>

lemma ex_train_no_plot:
  "snd (snd (train ex_env no_failure ex_trainer0)) = Inl ValueError"
  by (simp add: train_def train_body_def train_loop.simps ex_trainer0_def Train_init_def
      create_gif_def Let_def)

text \<open>
  The last statement is reached by the trainer that holds one saved plot and no
  recorded loss: \<^verbatim>\<open>create_gif\<close> has a frame to write and \<^verbatim>\<open>plot_losses\<close> nothing
  to detach.
\<close>

lemma ex_train_plotted:
  "snd (snd (train_body ex_env no_failure ex_trainer_plotted)) = Inr ()"
  by (simp add: ex_trainer_plotted_def plot_latent_space_def no_failure_def train_body_def
      train_loop.simps ex_trainer0_def Train_init_def create_gif_def plot_losses_def Let_def)

theorem train_never_returns_best_test_acc_witness:
  "acc_dict ex_trainer_plotted ''best_test_acc'' = None \<and>
   length (tsne_plots ex_trainer_plotted) = 1 \<and>
   contrast_losses ex_trainer_plotted = [] \<and>
   snd (snd (train_body ex_env no_failure ex_trainer_plotted)) = Inr () \<and>
   snd (snd (train ex_env no_failure ex_trainer_plotted)) = Inl (KeyError ''best_test_acc'')"
proof -
  have h: "acc_dict ex_trainer_plotted ''best_test_acc'' = None"
    by (simp add: ex_trainer_plotted_def plot_latent_space_def no_failure_def ex_trainer0_def
        Train_init_def Let_def)
  have p: "length (tsne_plots ex_trainer_plotted) = 1 \<and> contrast_losses ex_trainer_plotted = []"
    by (simp add: ex_trainer_plotted_def plot_latent_space_def no_failure_def ex_trainer0_def
        Train_init_def Let_def)
  from train_never_returns_best_test_acc [OF h, where env = ex_env and pf = no_failure
      and n = 0 and k = 1 and savename = "''m.pth''" and w = "()"] h p ex_train_plotted
  show ?thesis by simp
qed

lemma ex_train_loop6:
  "snd (snd (train_loop ex_env no_failure (ex_trainer6\<lparr>model_training := True\<rparr>))) = Inr () \<and>
   epoch (fst (train_loop ex_env no_failure (ex_trainer6\<lparr>model_training := True\<rparr>))) = 6 \<and>
   length (tsne_plots (fst (train_loop ex_env no_failure (ex_trainer6\<lparr>model_training := True\<rparr>)))) = 1 \<and>
   contrast_losses (fst (train_loop ex_env no_failure (ex_trainer6\<lparr>model_training := True\<rparr>)))
     = [PyInt 0, PyInt 0, PyInt 0, PyInt 0, PyInt 0, PyInt 0]"
  by (simp add: ex_defs ex_trainer6_def train_loop.simps)

lemma ex_train6:
  "snd (snd (train ex_env no_failure ex_trainer6)) = Inl AttributeError"
  by (simp add: ex_defs ex_trainer6_def train_loop.simps train_def train_body_def create_gif_def
      plot_losses_def)

text \<open>
  The claim as stated fails on the concrete run of six epochs with one batch each, in
  which the plot of epoch 5 succeeds: the loop completes all six epochs, and
  \<^verbatim>\<open>train\<close> raises \<^verbatim>\<open>AttributeError\<close> in \<^verbatim>\<open>plot_losses\<close>, on the integer 0
  recorded as contrastive loss, before its last statement is reached.
\<close>

theorem train_final_statement_counterexample:
  "snd (snd (train_loop ex_env no_failure (ex_trainer6\<lparr>model_training := True\<rparr>))) = Inr () \<and>
   epoch (fst (train_loop ex_env no_failure (ex_trainer6\<lparr>model_training := True\<rparr>)))
     = num_epoch ex_trainer6 \<and>
   length (tsne_plots (fst (train_loop ex_env no_failure (ex_trainer6\<lparr>model_training := True\<rparr>)))) = 1 \<and>
   contrast_losses (fst (train_loop ex_env no_failure (ex_trainer6\<lparr>model_training := True\<rparr>)))
     = [PyInt 0, PyInt 0, PyInt 0, PyInt 0, PyInt 0, PyInt 0] \<and>
   snd (snd (train ex_env no_failure ex_trainer6)) = Inl AttributeError \<and>
   snd (snd (train ex_env no_failure ex_trainer6)) \<noteq> Inl (KeyError ''best_test_acc'')"
proof -
  have "num_epoch ex_trainer6 = 6" by (simp add: ex_trainer6_def Train_init_def)
  with ex_train_loop6 ex_train6 show ?thesis by simp
qed

subsection \<open>The feature dump\<close>

lemma inference_record_row:
  assumes "inference_record env batch = Inr rowdict"
  shows "map fst rowdict = fieldnames \<and> dict_writer_row fieldnames rowdict = Inr (map snd rowdict)"
proof -
  from assms obtain a b c d e f g where
    "rowdict = [(''SeriesNumber'', a), (''deepfeatures'', b), (''ROI'', c),
                (''SeriesDescription'', d), (''ManufacturerModelName'', e),
                (''Manufacturer'', f), (''SliceThickness'', g)]"
    by (auto simp: inference_record_def Let_def split: sum.splits)
  then show ?thesis
    by (simp add: fieldnames_def dict_writer_row_def)
qed

lemma inference_loop_rows:
  assumes "inference_loop env batches = (body, r)"
  shows "length body \<le> length batches \<and>
         (r = Inr () \<longrightarrow> length body = length batches) \<and>
         (\<forall>i < length body. \<exists>rowdict.
            inference_record env (batches ! i) = Inr rowdict \<and>
            map fst rowdict = fieldnames \<and> body ! i = map snd rowdict)"
  using assms
proof (induction batches arbitrary: body r)
  case Nil
  then show ?case by simp
next
  case (Cons batch rest)
  show ?case
  proof (cases "inference_record env batch")
    case (Inl e)
    with Cons.prems show ?thesis by auto
  next
    case (Inr rowdict)
    note R = inference_record_row [OF Inr]
    obtain body' r' where rec: "inference_loop env rest = (body', r')"
      by (cases "inference_loop env rest")
    from Cons.prems Inr R rec have res: "body = map snd rowdict # body'" "r = r'"
      by auto
    note IH = Cons.IH [OF rec]
    have "\<exists>rd. inference_record env ((batch # rest) ! i) = Inr rd \<and>
            map fst rd = fieldnames \<and> body ! i = map snd rd" if "i < length body" for i
    proof (cases i)
      case 0
      with Inr R res show ?thesis by simp
    next
      case (Suc j)
      with that res have "j < length body'" by simp
      with IH Suc res show ?thesis by simp
    qed
    with IH res show ?thesis by simp
  qed
qed

text \<open>
  C8. \<^verbatim>\<open>run_inference\<close> writes the file \<^verbatim>\<open>torch_normalized_deepfeaturesoscar.csv\<close>:
  first the header row with the seven field names \<^verbatim>\<open>SeriesNumber\<close>,
  \<^verbatim>\<open>deepfeatures\<close>, \<^verbatim>\<open>ROI\<close>, \<^verbatim>\<open>SeriesDescription\<close>, \<^verbatim>\<open>ManufacturerModelName\<close>,
  \<^verbatim>\<open>Manufacturer\<close>, \<^verbatim>\<open>SliceThickness\<close> in this order, then one row for each batch
  processed, in order; each row holds the values of the record built for its batch, whose
  keys are exactly the seven field names. When the function returns, every batch of the
  loader has its row.
\<close>

theorem run_inference_csv:
  assumes "run_inference env = (name, rows, r)"
  shows "name = ''torch_normalized_deepfeaturesoscar.csv'' \<and>
         (\<exists>body.
            rows = map Str [''SeriesNumber'', ''deepfeatures'', ''ROI'', ''SeriesDescription'',
                            ''ManufacturerModelName'', ''Manufacturer'', ''SliceThickness''] # body \<and>
            length body \<le> length (dataload env) \<and>
            (r = Inr () \<longrightarrow> length body = length (dataload env)) \<and>
            (\<forall>i < length body. \<exists>rowdict.
               inference_record env (dataload env ! i) = Inr rowdict \<and>
               map fst rowdict = [''SeriesNumber'', ''deepfeatures'', ''ROI'', ''SeriesDescription'',
                                  ''ManufacturerModelName'', ''Manufacturer'', ''SliceThickness''] \<and>
               body ! i = map snd rowdict \<and> length (body ! i) = 7))"
proof -
  obtain body r' where l: "inference_loop env (dataload env) = (body, r')"
    by (cases "inference_loop env (dataload env)")
  with assms have res: "name = ''torch_normalized_deepfeaturesoscar.csv''"
    "rows = dict_writer_header fieldnames # body" "r = r'"
    by (simp_all add: run_inference_def)
  note L = inference_loop_rows [OF l]
  have "\<exists>rowdict. inference_record env (dataload env ! i) = Inr rowdict \<and>
               map fst rowdict = fieldnames \<and>
               body ! i = map snd rowdict \<and> length (body ! i) = 7" if "i < length body" for i
  proof -
    from L that obtain rd where rd: "inference_record env (dataload env ! i) = Inr rd"
      "map fst rd = fieldnames" "body ! i = map snd rd"
      by blast
    from rd(2) have "length rd = 7"
      using length_map [of fst rd] by (simp add: fieldnames_def)
    with rd show ?thesis by simp
  qed
  with L res show ?thesis
    by (simp add: dict_writer_header_def fieldnames_def)
qed

lemma ex_run_inference:
  "run_inference ex_infer_env =
     (''torch_normalized_deepfeaturesoscar.csv'',
      [[Str ''SeriesNumber'', Str ''deepfeatures'', Str ''ROI'', Str ''SeriesDescription'',
        Str ''ManufacturerModelName'', Str ''Manufacturer'', Str ''SliceThickness''],
       [Num 3, NumList [1 / 2, 1 / 4], Str ''cyst1'', Str ''A1 x'', Str ''m'', Str ''v'', Num 2],
       [Num 3, NumList [1 / 2, 1 / 4], Str ''normal1'', Str ''A1 x'', Str ''m'', Str ''v'', Num 2]],
      Inr ())"
  by (simp add: run_inference_def ex_infer_env_def ex_infer_batch_def ex_image_def
      inference_record_def torch_view_infer_def numel_def info_first_def lookup_def first_of_def
      dict_writer_row_def dict_writer_header_def fieldnames_def Let_def)

theorem run_inference_csv_witness:
  "run_inference ex_infer_env =
     (''torch_normalized_deepfeaturesoscar.csv'',
      [[Str ''SeriesNumber'', Str ''deepfeatures'', Str ''ROI'', Str ''SeriesDescription'',
        Str ''ManufacturerModelName'', Str ''Manufacturer'', Str ''SliceThickness''],
       [Num 3, NumList [1 / 2, 1 / 4], Str ''cyst1'', Str ''A1 x'', Str ''m'', Str ''v'', Num 2],
       [Num 3, NumList [1 / 2, 1 / 4], Str ''normal1'', Str ''A1 x'', Str ''m'', Str ''v'', Num 2]],
      Inr ()) \<and>
   length (dataload ex_infer_env) = 2"
proof -
  have "length (dataload ex_infer_env) = 2" by (simp add: ex_infer_env_def)
  with run_inference_csv [OF ex_run_inference] ex_run_inference show ?thesis by simp
qed

end
